(* ===== verification/Cedar_Prelude.thy ===== *)
theory Cedar_Prelude
  imports Main "HOL-Library.Word" "HOL-Library.Char_ord" "HOL-Library.Sublist"
begin

text \<open>
  The shared vocabulary of the development: bytes and C strings, the functions of the C
  library the firmware uses on them, fixed-size buffers, and the generic lemmas the
  component theories rely on.

  A C array of \<open>char\<close> or \<open>uint8_t\<close> is a list of HOL characters (HOL characters are
  bytes), of the length the source declares. The C string an array holds is what precedes
  its first NUL (\<open>cstr\<close>). A \<open>char *\<close> into a string is the suffix it points at, so that
  pointer differences are differences of lengths.
\<close>

named_theorems cstring_simps \<open>evaluation of C strings and buffers\<close>
named_theorems length_simps \<open>lengths of buffers and printed text\<close>

type_synonym byte = char
type_synonym buffer = "char list"

type_synonym u8 = "8 word"
type_synonym u16 = "16 word"
type_synonym u32 = "32 word"
type_synonym u64 = "64 word"

abbreviation NUL :: char where
  "NUL \<equiv> CHR 0x00"

section \<open>C strings\<close>

definition cstr :: "buffer \<Rightarrow> string" where
  "cstr b = takeWhile (\<lambda>c. c \<noteq> NUL) b"

definition strlen :: "buffer \<Rightarrow> nat" where
  "strlen b = length (cstr b)"

definition strcmp_eq :: "buffer \<Rightarrow> buffer \<Rightarrow> bool" where
  "strcmp_eq a b \<longleftrightarrow> cstr a = cstr b"

definition nul_free :: "string \<Rightarrow> bool" where
  "nul_free s \<longleftrightarrow> NUL \<notin> set s"

lemma cstr_Nil [simp]: "cstr [] = []"
  by (simp add: cstr_def)

lemma cstr_Cons: "cstr (c # b) = (if c = NUL then [] else c # cstr b)"
  by (simp add: cstr_def)

lemma cstr_Cons_NUL [simp]: "cstr (NUL # b) = []"
  by (simp add: cstr_def)

lemma cstr_id [cstring_simps]: "nul_free s \<Longrightarrow> cstr s = s"
  by (auto simp: cstr_def nul_free_def takeWhile_eq_all_conv)

lemma cstr_append_NUL [cstring_simps]: "nul_free s \<Longrightarrow> cstr (s @ NUL # b) = s"
  by (simp add: cstr_def nul_free_def takeWhile_append takeWhile_eq_all_conv)

lemma nul_free_cstr [simp, intro]: "nul_free (cstr b)"
  by (auto simp: cstr_def nul_free_def dest: set_takeWhileD)

lemma cstr_cstr [simp]: "cstr (cstr b) = cstr b"
  by (simp add: cstr_id)

lemma length_cstr_le: "length (cstr b) \<le> length b"
  by (simp add: cstr_def length_takeWhile_le)

lemma cstr_eq_Nil_iff: "cstr b = [] \<longleftrightarrow> b = [] \<or> hd b = NUL"
  by (cases b) (auto simp: cstr_def)

lemma cstr_append_nul_free: "nul_free s \<Longrightarrow> cstr (s @ b) = s @ cstr b"
  by (induction s) (auto simp: nul_free_def cstr_Cons)

lemma cstr_replicate_NUL [simp]: "cstr (replicate n NUL) = []"
  by (cases n) (simp_all add: cstr_Cons)

lemma cstr_nul_pad [cstring_simps]: "nul_free s \<Longrightarrow> cstr (s @ replicate n NUL) = s"
  by (simp add: cstr_append_nul_free)

lemma cstr_take: "cstr (take n (cstr b)) = take n (cstr b)"
  by (rule cstr_id) (auto simp: nul_free_def cstr_def dest: in_set_takeD set_takeWhileD)

lemma nul_free_Nil [simp]: "nul_free []"
  by (simp add: nul_free_def)

lemma nul_free_Cons [simp]: "nul_free (c # s) \<longleftrightarrow> c \<noteq> NUL \<and> nul_free s"
  by (auto simp: nul_free_def)

lemma nul_free_append [simp]: "nul_free (s @ t) \<longleftrightarrow> nul_free s \<and> nul_free t"
  by (auto simp: nul_free_def)

lemma nul_free_take [intro]: "nul_free s \<Longrightarrow> nul_free (take n s)"
  by (auto simp: nul_free_def dest: in_set_takeD)

lemma nul_free_drop [intro]: "nul_free s \<Longrightarrow> nul_free (drop n s)"
  by (auto simp: nul_free_def dest: in_set_dropD)

section \<open>Searching\<close>

text \<open>\<open>strchr\<close> and \<open>strstr\<close> return the suffix the C pointer points at.\<close>

fun strchr :: "string \<Rightarrow> char \<Rightarrow> string option" where
  "strchr [] c = None"
| "strchr (x # xs) c = (if x = c then Some (x # xs) else strchr xs c)"

fun strstr :: "string \<Rightarrow> string \<Rightarrow> string option" where
  "strstr [] pat = (if pat = [] then Some [] else None)"
| "strstr (x # xs) pat =
     (if take (length pat) (x # xs) = pat then Some (x # xs) else strstr xs pat)"

lemma strchr_None_iff [simp]: "strchr s c = None \<longleftrightarrow> c \<notin> set s"
  by (induction s) auto

lemma strchr_SomeD: "strchr s c = Some r \<Longrightarrow> \<exists>p. s = p @ r \<and> c \<notin> set p \<and> r \<noteq> [] \<and> hd r = c"
proof (induction s)
  case Nil
  then show ?case by simp
next
  case (Cons x xs)
  show ?case
  proof (cases "x = c")
    case True
    with Cons.prems have "r = x # xs" by simp
    with True show ?thesis by (intro exI [of _ "[]"]) simp
  next
    case False
    with Cons obtain p where "xs = p @ r \<and> c \<notin> set p \<and> r \<noteq> [] \<and> hd r = c" by auto
    with False show ?thesis by (intro exI [of _ "x # p"]) auto
  qed
qed

lemma strchr_append: "c \<notin> set p \<Longrightarrow> strchr (p @ s) c = strchr s c"
  by (induction p) auto

lemma strchr_hit [simp]: "c \<notin> set p \<Longrightarrow> strchr (p @ c # s) c = Some (c # s)"
  by (simp add: strchr_append)

lemma strstr_SomeD: "strstr s pat = Some r \<Longrightarrow> \<exists>p q. s = p @ pat @ q \<and> r = pat @ q"
proof (induction s)
  case Nil
  then show ?case by (auto split: if_splits)
next
  case (Cons x xs)
  show ?case
  proof (cases "take (length pat) (x # xs) = pat")
    case True
    then have "x # xs = pat @ drop (length pat) (x # xs)"
      by (metis append_take_drop_id)
    with True Cons.prems show ?thesis
      by (intro exI [of _ "[]"] exI [of _ "drop (length pat) (x # xs)"]) auto
  next
    case False
    with Cons obtain p q where "xs = p @ pat @ q \<and> r = pat @ q" by auto
    then show ?thesis by (intro exI [of _ "x # p"] exI [of _ q]) auto
  qed
qed

lemma strstr_prefix [simp]: "strstr (pat @ s) pat = Some (pat @ s)"
proof (cases "pat @ s")
  case Nil
  then show ?thesis by simp
next
  case (Cons x xs)
  then have "take (length pat) (x # xs) = pat" by (metis append_eq_conv_conj)
  with Cons show ?thesis by simp
qed

section \<open>Case-insensitive comparison\<close>

definition tolower :: "char \<Rightarrow> char" where
  "tolower c = (if 65 \<le> (of_char c :: nat) \<and> (of_char c :: nat) \<le> 90
                then char_of ((of_char c :: nat) + 32) else c)"

definition strcasecmp_eq :: "string \<Rightarrow> string \<Rightarrow> bool" where
  "strcasecmp_eq a b \<longleftrightarrow> map tolower (cstr a) = map tolower (cstr b)"

definition strncasecmp_eq :: "string \<Rightarrow> string \<Rightarrow> nat \<Rightarrow> bool" where
  "strncasecmp_eq a b n \<longleftrightarrow> map tolower (take n (cstr a)) = map tolower (take n (cstr b))"

definition strncmp_eq :: "string \<Rightarrow> string \<Rightarrow> nat \<Rightarrow> bool" where
  "strncmp_eq a b n \<longleftrightarrow> take n (cstr a) = take n (cstr b)"

section \<open>Writing into fixed buffers\<close>

text \<open>
  \<open>strncpy (dst, src, n)\<close> copies at most \<open>n\<close> bytes and pads with NUL;
  \<open>memcpy_at\<close> is \<open>memcpy (buf + off, data, len)\<close>; \<open>snprintf_into\<close> stores what
  \<open>snprintf (buf, size, ...)\<close> stores when the formatted text is \<open>s\<close> (its return value is
  \<open>length s\<close>, also when the text is truncated).
\<close>

definition strncpy :: "buffer \<Rightarrow> string \<Rightarrow> nat \<Rightarrow> buffer" where
  "strncpy dst src n =
     (let s = take n (cstr src) in s @ replicate (n - length s) NUL @ drop n dst)"

definition memcpy_at :: "buffer \<Rightarrow> nat \<Rightarrow> byte list \<Rightarrow> buffer" where
  "memcpy_at buf off data = take off buf @ data @ drop (off + length data) buf"

definition memset_zero :: "buffer \<Rightarrow> nat \<Rightarrow> buffer" where
  "memset_zero buf n = replicate n NUL @ drop n buf"

definition snprintf_into :: "buffer \<Rightarrow> nat \<Rightarrow> string \<Rightarrow> buffer" where
  "snprintf_into buf sz s =
     (if sz = 0 then buf
      else let t = take (sz - 1) s in t @ NUL # drop (Suc (length t)) buf)"

lemma length_strncpy [length_simps, simp]:
  "n \<le> length dst \<Longrightarrow> length (strncpy dst src n) = length dst"
  by (auto simp: strncpy_def Let_def)

lemma cstr_strncpy [cstring_simps]:
  "length (cstr src) < n \<Longrightarrow> cstr (strncpy dst src n) = cstr src"
proof -
  assume a: "length (cstr src) < n"
  then obtain m where m: "n - length (cstr src) = Suc m"
    by (metis Suc_diff_Suc)
  with a have "strncpy dst src n = cstr src @ NUL # (replicate m NUL @ drop n dst)"
    by (simp add: strncpy_def Let_def)
  then show ?thesis by (simp add: cstr_append_NUL)
qed

text \<open>The idiom \<open>strncpy (dst, src, n); dst[n - 1] = NUL\<close>.\<close>

lemma strncpy_terminated:
  assumes "0 < n" and "n \<le> length dst"
  shows "cstr ((strncpy dst src n)[n - 1 := NUL]) = take (n - 1) (cstr src)"
proof (cases "length (cstr src) < n")
  case True
  define k where "k = n - length (cstr src)"
  with True have k: "0 < k" "n - 1 = length (cstr src) + (k - 1)" by auto
  have "strncpy dst src n = cstr src @ replicate k NUL @ drop n dst"
    using True by (simp add: strncpy_def k_def Let_def)
  then have "(strncpy dst src n)[n - 1 := NUL] = cstr src @ (replicate k NUL)[k - 1 := NUL] @ drop n dst"
    using k by (auto simp: list_update_append)
  also have "(replicate k NUL)[k - 1 := NUL] = replicate k NUL"
    using k by (metis diff_less list_update_id nth_replicate zero_less_one)
  also have "cstr (cstr src @ replicate k NUL @ drop n dst) = cstr src"
    using k by (cases k) (auto simp: cstr_append_NUL)
  finally show ?thesis using True by simp
next
  case False
  then have "strncpy dst src n = take n (cstr src) @ drop n dst" by (simp add: strncpy_def Let_def)
  then have "(strncpy dst src n)[n - 1 := NUL] = take (n - 1) (cstr src) @ NUL # drop n dst"
    using False assms by (simp add: upd_conv_take_nth_drop list_update_append min_def)
  then show ?thesis by (simp add: cstr_append_NUL nul_free_take)
qed

lemma strncpy_terminated_id:
  assumes "nul_free src" and "length src < n" and "length dst = n"
  shows "(strncpy dst src n)[n - 1 := NUL] = src @ replicate (n - length src) NUL"
proof -
  have "strncpy dst src n = src @ replicate (n - length src) NUL"
    using assms by (simp add: strncpy_def cstr_id Let_def)
  moreover from this have "strncpy dst src n ! (n - 1) = NUL"
    using assms by (auto simp: nth_append)
  ultimately show ?thesis by (metis list_update_id)
qed

lemma length_memcpy_at [length_simps, simp]:
  "off + length data \<le> length buf \<Longrightarrow> length (memcpy_at buf off data) = length buf"
  by (simp add: memcpy_at_def)

lemma take_memcpy_at [simp]:
  "off \<le> length buf \<Longrightarrow> take (off + length data) (memcpy_at buf off data) = take off buf @ data"
  by (simp add: memcpy_at_def)

lemma length_memset_zero [length_simps, simp]:
  "n \<le> length buf \<Longrightarrow> length (memset_zero buf n) = length buf"
  by (simp add: memset_zero_def)

lemma length_snprintf_into [length_simps, simp]:
  "0 < length buf \<Longrightarrow> sz \<le> length buf \<Longrightarrow> length (snprintf_into buf sz s) = length buf"
  by (auto simp: snprintf_into_def Let_def)

lemma cstr_snprintf_into [cstring_simps]:
  "nul_free s \<Longrightarrow> 0 < sz \<Longrightarrow> cstr (snprintf_into buf sz s) = take (sz - 1) s"
  by (simp add: snprintf_into_def Let_def cstr_append_NUL nul_free_take)

lemma cstr_snprintf_fits [cstring_simps]:
  "nul_free s \<Longrightarrow> length s < sz \<Longrightarrow> cstr (snprintf_into buf sz s) = s"
  by (simp add: snprintf_into_def Let_def cstr_append_NUL)

section \<open>Arrays\<close>

text \<open>A zero-initialised array of \<open>n\<close> bytes.\<close>

abbreviation zeros :: "nat \<Rightarrow> buffer" where
  "zeros n \<equiv> replicate n NUL"

text \<open>
  The index of the first element that satisfies a test: how the \<open>for\<close> loops that return
  or break at the first match read.
\<close>

fun find_index :: "('a \<Rightarrow> bool) \<Rightarrow> 'a list \<Rightarrow> nat option" where
  "find_index P [] = None"
| "find_index P (x # xs) = (if P x then Some 0 else map_option Suc (find_index P xs))"

lemma find_index_None_iff: "find_index P xs = None \<longleftrightarrow> (\<forall>x \<in> set xs. \<not> P x)"
  by (induction xs) auto

lemma find_index_SomeD:
  "find_index P xs = Some i \<Longrightarrow> i < length xs \<and> P (xs ! i) \<and> (\<forall>j < i. \<not> P (xs ! j))"
proof (induction xs arbitrary: i)
  case Nil
  then show ?case by simp
next
  case (Cons x xs)
  show ?case
  proof (cases "P x")
    case True
    with Cons.prems show ?thesis by simp
  next
    case False
    with Cons.prems obtain k where k: "find_index P xs = Some k" "i = Suc k" by auto
    with Cons.IH [OF k(1)] False show ?thesis by (auto simp: less_Suc_eq_0_disj)
  qed
qed

lemma find_index_first:
  "i < length xs \<Longrightarrow> P (xs ! i) \<Longrightarrow> (\<And>j. j < i \<Longrightarrow> \<not> P (xs ! j)) \<Longrightarrow> find_index P xs = Some i"
proof (induction xs arbitrary: i)
  case Nil
  then show ?case by simp
next
  case (Cons x xs)
  show ?case
  proof (cases i)
    case 0
    with Cons.prems show ?thesis by simp
  next
    case (Suc k)
    with Cons.prems(3) [of 0] have "\<not> P x" by simp
    moreover have "find_index P xs = Some k"
    proof (rule Cons.IH)
      show "k < length xs" and "P (xs ! k)" using Cons.prems(1,2) Suc by auto
    next
      fix j assume "j < k"
      with Cons.prems(3) [of "Suc j"] Suc show "\<not> P (xs ! j)" by simp
    qed
    ultimately show ?thesis using Suc by simp
  qed
qed

lemma find_index_exists: "x \<in> set xs \<Longrightarrow> P x \<Longrightarrow> \<exists>i. find_index P xs = Some i"
  by (metis find_index_None_iff not_None_eq)

end
