(* ===== verification/Number_Format.thy ===== *)
theory Number_Format
  imports Cedar_Prelude
begin

text \<open>
  The numeric conversions of \<open>printf\<close> and \<open>scanf\<close> the firmware uses: \<open>%u\<close> and
  \<open>%d\<close> (\<open>nat_dec\<close>, \<open>int_dec\<close>), \<open>%02x\<close> and \<open>%02X\<close> (\<open>hex2_lower\<close>, \<open>hex2_upper\<close>),
  the scansets \<open>[0-9]\<close> and \<open>[a-zA-Z]\<close>, and \<open>strtol\<close> on a target whose \<open>long\<close> has 32
  bits. The lemmas are what the components need: printed numbers are digits, have a
  bounded length, and are read back to the number they print.
\<close>

section \<open>Characters\<close>

definition char_code :: "char \<Rightarrow> nat" where
  "char_code c = of_char c"

definition is_digit :: "char \<Rightarrow> bool" where
  "is_digit c \<longleftrightarrow> 48 \<le> char_code c \<and> char_code c \<le> 57"

definition is_alpha :: "char \<Rightarrow> bool" where
  "is_alpha c \<longleftrightarrow> (65 \<le> char_code c \<and> char_code c \<le> 90) \<or> (97 \<le> char_code c \<and> char_code c \<le> 122)"

definition is_space :: "char \<Rightarrow> bool" where
  "is_space c \<longleftrightarrow> char_code c = 32 \<or> (9 \<le> char_code c \<and> char_code c \<le> 13)"

definition digit_char :: "nat \<Rightarrow> char" where
  "digit_char d = char_of (48 + d)"

definition digit_val :: "char \<Rightarrow> nat" where
  "digit_val c = char_code c - 48"

lemma char_code_less: "char_code c < 256"
  by (simp add: char_code_def)

lemma char_code_char_of [simp]: "char_code (char_of n) = n mod 256"
  by (simp add: char_code_def)

lemma char_code_NUL [simp]: "char_code NUL = 0"
  by (simp add: char_code_def)

lemma digit_char_props [simp]:
  assumes "d < 10"
  shows "is_digit (digit_char d)" and "digit_val (digit_char d) = d"
  using assms by (simp_all add: digit_char_def is_digit_def digit_val_def)

lemma is_digit_not_NUL [simp]: "is_digit c \<Longrightarrow> c \<noteq> NUL"
  by (auto simp: is_digit_def)

lemma not_digit_NUL [simp]: "\<not> is_digit NUL"
  by (simp add: is_digit_def)

lemma is_alpha_not_NUL [simp]: "is_alpha c \<Longrightarrow> c \<noteq> NUL"
  by (auto simp: is_alpha_def)

lemma is_digit_not_alpha [simp]: "is_digit c \<Longrightarrow> \<not> is_alpha c"
  by (auto simp: is_digit_def is_alpha_def)

section \<open>Decimal numbers\<close>

fun nat_dec :: "nat \<Rightarrow> string" where
  "nat_dec n = (if n < 10 then [digit_char n] else nat_dec (n div 10) @ [digit_char (n mod 10)])"

declare nat_dec.simps [simp del]

definition int_dec :: "int \<Rightarrow> string" where
  "int_dec i = (if i < 0 then CHR ''-'' # nat_dec (nat (- i)) else nat_dec (nat i))"

definition dec_val :: "string \<Rightarrow> nat" where
  "dec_val s = foldl (\<lambda>v c. 10 * v + digit_val c) 0 s"

lemma dec_val_append1: "dec_val (s @ [c]) = 10 * dec_val s + digit_val c"
  by (simp add: dec_val_def)

lemma dec_val_nat_dec [simp]: "dec_val (nat_dec n) = n"
proof (induction n rule: nat_dec.induct)
  case (1 n)
  show ?case
  proof (cases "n < 10")
    case True
    then show ?thesis by (subst nat_dec.simps) (simp add: dec_val_def)
  next
    case False
    with 1 show ?thesis by (subst nat_dec.simps) (simp add: dec_val_append1)
  qed
qed

lemma nat_dec_inject [simp]: "nat_dec m = nat_dec n \<longleftrightarrow> m = n"
  by (metis dec_val_nat_dec)

lemma nat_dec_digits: "c \<in> set (nat_dec n) \<Longrightarrow> is_digit c"
proof (induction n rule: nat_dec.induct)
  case (1 n)
  show ?case
  proof (cases "n < 10")
    case True
    with "1.prems" show ?thesis by (subst (asm) nat_dec.simps) simp
  next
    case False
    with 1 show ?thesis by (subst (asm) (2) nat_dec.simps) auto
  qed
qed

lemma nat_dec_not_Nil [simp]: "nat_dec n \<noteq> []"
  by (subst nat_dec.simps) simp

lemma nul_free_nat_dec [simp]: "nul_free (nat_dec n)"
  by (auto simp: nul_free_def dest: nat_dec_digits)

lemma length_nat_dec_le:
  "n < 10 ^ k \<Longrightarrow> 0 < k \<Longrightarrow> length (nat_dec n) \<le> k"
proof (induction n arbitrary: k rule: nat_dec.induct)
  case (1 n)
  show ?case
  proof (cases "n < 10")
    case True
    with "1.prems" show ?thesis by (subst nat_dec.simps) simp
  next
    case False
    with "1.prems" have k: "1 < k"
      by (metis less_one linorder_neqE_nat nat_neq_iff power_one_right)
    then obtain m where m: "k = Suc m" "0 < m" by (cases k) auto
    with "1.prems" have "n div 10 < 10 ^ m" by (simp add: less_mult_imp_div_less mult.commute)
    with "1.IH" [OF False this m(2)] False m show ?thesis by (subst nat_dec.simps) simp
  qed
qed

lemma length_nat_dec_pos [simp]: "0 < length (nat_dec n)"
  by simp

lemma length_nat_dec_u8: "n < 256 \<Longrightarrow> length (nat_dec n) \<le> 3"
  by (rule length_nat_dec_le) simp_all

section \<open>Hexadecimal bytes\<close>

definition hex_digit_lower :: "nat \<Rightarrow> char" where
  "hex_digit_lower d = char_of (if d < 10 then 48 + d else 87 + d)"

definition hex_digit_upper :: "nat \<Rightarrow> char" where
  "hex_digit_upper d = char_of (if d < 10 then 48 + d else 55 + d)"

definition hex2_lower :: "byte \<Rightarrow> string" where
  "hex2_lower b = [hex_digit_lower (char_code b div 16), hex_digit_lower (char_code b mod 16)]"

definition hex2_upper :: "byte \<Rightarrow> string" where
  "hex2_upper b = [hex_digit_upper (char_code b div 16), hex_digit_upper (char_code b mod 16)]"

definition hex_val :: "char \<Rightarrow> nat" where
  "hex_val c =
     (if is_digit c then digit_val c
      else if 97 \<le> char_code c \<and> char_code c \<le> 102 then char_code c - 87
      else if 65 \<le> char_code c \<and> char_code c \<le> 70 then char_code c - 55
      else 16)"

lemma hex_val_lower [simp]: "d < 16 \<Longrightarrow> hex_val (hex_digit_lower d) = d"
  by (auto simp: hex_val_def hex_digit_lower_def is_digit_def digit_val_def)

lemma hex_val_upper [simp]: "d < 16 \<Longrightarrow> hex_val (hex_digit_upper d) = d"
  by (auto simp: hex_val_def hex_digit_upper_def is_digit_def digit_val_def)

lemma length_hex2 [length_simps, simp]:
  "length (hex2_lower b) = 2" "length (hex2_upper b) = 2"
  by (simp_all add: hex2_lower_def hex2_upper_def)

lemma char_code_div16: "char_code b div 16 < 16"
  using char_code_less [of b] by simp

lemma hex2_decode:
  "16 * hex_val (hex2_upper b ! 0) + hex_val (hex2_upper b ! 1) = char_code b"
  "16 * hex_val (hex2_lower b ! 0) + hex_val (hex2_lower b ! 1) = char_code b"
  by (simp_all add: hex2_upper_def hex2_lower_def char_code_div16)

lemma hex_digit_code:
  "d < 16 \<Longrightarrow> is_digit (hex_digit_lower d) \<or>
     (97 \<le> char_code (hex_digit_lower d) \<and> char_code (hex_digit_lower d) \<le> 102)"
  "d < 16 \<Longrightarrow> is_digit (hex_digit_upper d) \<or>
     (65 \<le> char_code (hex_digit_upper d) \<and> char_code (hex_digit_upper d) \<le> 70)"
  by (cases "d < 10"; simp add: hex_digit_lower_def hex_digit_upper_def is_digit_def)+

lemma hex2_code:
  "c \<in> set (hex2_lower b) \<Longrightarrow> is_digit c \<or> (97 \<le> char_code c \<and> char_code c \<le> 102)"
  "c \<in> set (hex2_upper b) \<Longrightarrow> is_digit c \<or> (65 \<le> char_code c \<and> char_code c \<le> 70)"
  using hex_digit_code [OF char_code_div16 [of b]] hex_digit_code [of "char_code b mod 16"]
  by (auto simp: hex2_lower_def hex2_upper_def)

lemma nul_free_hex2 [simp]: "nul_free (hex2_lower b)" "nul_free (hex2_upper b)"
  by (auto simp: nul_free_def dest!: hex2_code)

lemma char_code_inject: "char_code a = char_code b \<Longrightarrow> a = b"
  by (simp add: char_code_def of_char_eq_iff)

lemma hex2_upper_inject [simp]: "hex2_upper a = hex2_upper b \<longleftrightarrow> a = b"
  by (metis char_code_inject hex2_decode(1))

section \<open>strtol\<close>

text \<open>
  \<open>strtol s base\<close> for bases 0 (the prefix chooses) and 2 to 16. The result is the value
  clamped to the 32-bit \<open>long\<close>, the suffix \<open>endptr\<close> points at (the whole string when no
  digit was read), and whether the value was out of range.
\<close>

definition long_max :: int where
  "long_max = 2 ^ 31 - 1"

definition long_min :: int where
  "long_min = - (2 ^ 31)"

definition strtol_sign :: "string \<Rightarrow> bool \<times> string" where
  "strtol_sign s =
     (case s of [] \<Rightarrow> (False, s)
      | c # t \<Rightarrow> if c = CHR ''-'' then (True, t) else if c = CHR ''+'' then (False, t) else (False, s))"

definition strtol_base :: "nat \<Rightarrow> string \<Rightarrow> nat \<times> string" where
  "strtol_base base s =
     (if (base = 0 \<or> base = 16) \<and> 2 < length s \<and> s ! 0 = CHR ''0''
         \<and> tolower (s ! 1) = CHR ''x'' \<and> hex_val (s ! 2) < 16
      then (16, drop 2 s)
      else if base = 0 then (if s \<noteq> [] \<and> hd s = CHR ''0'' then 8 else 10, s)
      else (base, s))"

definition strtol :: "string \<Rightarrow> nat \<Rightarrow> int \<times> string \<times> bool" where
  "strtol s base =
     (let (neg, s2) = strtol_sign (dropWhile is_space s);
          (b, s3) = strtol_base base s2;
          ds = takeWhile (\<lambda>c. hex_val c < b) s3;
          v = int (foldl (\<lambda>v c. v * b + hex_val c) 0 ds);
          sv = (if neg then - v else v)
      in if ds = [] then (0, s, False)
         else (max long_min (min long_max sv), drop (length ds) s3, sv < long_min \<or> long_max < sv))"

lemma strtol_range: "strtol s base = (v, r, e) \<Longrightarrow> long_min \<le> v \<and> v \<le> long_max"
  by (auto simp: strtol_def Let_def long_min_def long_max_def split: prod.splits if_splits)

lemma hex_val_digit: "is_digit c \<Longrightarrow> hex_val c = digit_val c"
  by (simp add: hex_val_def)

lemma digit_val_less [simp]: "is_digit c \<Longrightarrow> digit_val c < 10"
  by (auto simp: is_digit_def digit_val_def)

text \<open>On a non-empty string of decimal digits, base 10 reads exactly the decimal value.\<close>

lemma strtol_digits:
  assumes d: "\<forall>c \<in> set s. is_digit c" and ne: "s \<noteq> []"
  shows "strtol s 10 = (min long_max (int (dec_val s)), [], long_max < int (dec_val s))"
proof -
  obtain c t where s: "s = c # t" using ne by (cases s) auto
  with d have c: "is_digit c" by simp
  then have nsp: "\<not> is_space c" and "c \<noteq> CHR ''-''" and "c \<noteq> CHR ''+''"
    by (auto simp: is_digit_def is_space_def char_code_def)
  then have sgn: "strtol_sign (dropWhile is_space s) = (False, s)"
    using s by (simp add: strtol_sign_def)
  have tw: "takeWhile (\<lambda>c. hex_val c < 10) s = s"
    using d by (auto simp: takeWhile_eq_all_conv hex_val_digit)
  have "foldl (\<lambda>v c. v * 10 + hex_val c) a s = foldl (\<lambda>v c. 10 * v + digit_val c) a s" for a
    by (rule foldl_cong) (use d in \<open>auto simp: hex_val_digit mult.commute\<close>)
  then show ?thesis
    using ne sgn
    by (simp add: strtol_def strtol_base_def dec_val_def long_min_def long_max_def Let_def tw)
qed

text \<open>What is printed with \<open>%d\<close> is read back with base 0, which takes no prefix from it.\<close>

lemma hd_nat_dec: "0 < n \<Longrightarrow> hd (nat_dec n) \<noteq> CHR ''0''"
proof (induction n rule: nat_dec.induct)
  case (1 n)
  show ?case
  proof (cases "n < 10")
    case True
    with "1.prems" have "char_code (digit_char n) \<noteq> 48" by (simp add: digit_char_def)
    moreover have "char_code (CHR ''0'') = 48" by (simp add: char_code_def)
    ultimately show ?thesis using True by (subst nat_dec.simps) auto
  next
    case False
    then have "hd (nat_dec (n div 10)) \<noteq> CHR ''0''" using "1.IH" by simp
    with False show ?thesis by (subst nat_dec.simps) (simp add: hd_append)
  qed
qed

lemma strtol_base0:
  assumes "s \<noteq> []" and "hd s \<noteq> CHR ''0''"
  shows "strtol_base 0 s = strtol_base 10 s"
  using assms by (cases s) (simp_all add: strtol_base_def)

lemma strtol_0_nat_dec:
  assumes "int n \<le> long_max"
  shows "strtol (nat_dec n) 0 = (int n, [], False)"
proof (cases "n = 0")
  case True
  have "strtol (nat_dec 0) 0 = (0, [], False)" by code_simp
  with True show ?thesis by simp
next
  case False
  let ?s = "nat_dec n"
  have d: "\<forall>c \<in> set ?s. is_digit c" using nat_dec_digits by blast
  obtain c t where s: "?s = c # t" by (cases ?s) auto
  with d have "is_digit c" by simp
  then have "\<not> is_space c" and "c \<noteq> CHR ''-''" and "c \<noteq> CHR ''+''"
    by (auto simp: is_digit_def is_space_def char_code_def)
  then have sgn: "strtol_sign (dropWhile is_space ?s) = (False, ?s)" using s by (simp add: strtol_sign_def)
  have "strtol_base 0 ?s = strtol_base 10 ?s"
    using hd_nat_dec [of n] False by (intro strtol_base0) auto
  then have "strtol ?s 0 = strtol ?s 10" by (simp only: strtol_def sgn Let_def prod.case)
  with strtol_digits [OF d] assms show ?thesis by simp
qed

end
