(* ===== verification/Topics.thy ===== *)
theory Topics
  imports Number_Format
begin

text \<open>
  The data of \<open>settings_topics.h\<close>, \<open>zbus_topics.h\<close>, \<open>msgq_topiks.h\<close> and
  \<open>global_var.h\<close>: the settings keys, the structures stored under them, the messages of
  the three zbus channels and of the two MQTT message queues. A structure is stored as
  its memory image, so each has an encoder to bytes and a decoder; the structures hold
  only one-byte members (or one aligned \<open>uint16_t\<close>, stored alone), so there is no padding.
\<close>

section \<open>Keys and sizes\<close>

definition def_relays_state_enable_settings_topik :: string where
  "def_relays_state_enable_settings_topik = ''/settings/relays/default/enabled''"

definition def_relays1_state_settings_topik :: string where
  "def_relays1_state_settings_topik = ''/settings/relays/default/1''"

definition def_relays2_state_settings_topik :: string where
  "def_relays2_state_settings_topik = ''/settings/relays/default/2''"

definition def_relays3_state_settings_topik :: string where
  "def_relays3_state_settings_topik = ''/settings/relays/default/3''"

definition mqtt_enabled_settings :: string where
  "mqtt_enabled_settings = ''/settings/mqtt/enabled''"

definition mqtt_host_settings :: string where
  "mqtt_host_settings = ''/settings/mqtt/host''"

definition mqtt_port_settings :: string where
  "mqtt_port_settings = ''/settings/mqtt/port''"

definition mqtt_user_settings :: string where
  "mqtt_user_settings = ''/settings/mqtt/user''"

definition mqtt_pass_settings :: string where
  "mqtt_pass_settings = ''/settings/mqtt/pass''"

definition web_users_settings :: string where
  "web_users_settings = ''/settings/web/users''"

lemmas settings_keys =
  def_relays_state_enable_settings_topik_def def_relays1_state_settings_topik_def
  def_relays2_state_settings_topik_def def_relays3_state_settings_topik_def
  mqtt_enabled_settings_def mqtt_host_settings_def mqtt_port_settings_def
  mqtt_user_settings_def mqtt_pass_settings_def web_users_settings_def

definition MAX_USERS :: nat where "MAX_USERS = 2"

definition MAX_USERNAME_LEN :: nat where "MAX_USERNAME_LEN = 32"

definition MAX_PASS_HASH_LEN :: nat where "MAX_PASS_HASH_LEN = 32"

lemmas user_sizes = MAX_USERS_def MAX_USERNAME_LEN_def MAX_PASS_HASH_LEN_def

section \<open>Structures\<close>

record relays_def_state =
  rd_enabled :: bool
  rd_relay1 :: bool
  rd_relay2 :: bool
  rd_relay3 :: bool

record mqtt_settings_t =
  ms_changed :: bool
  ms_enabled :: bool
  ms_secure :: bool
  ms_host :: buffer
  ms_port :: u16
  ms_user :: buffer
  ms_pass :: buffer

record web_user_t =
  wu_user :: buffer
  wu_pass_hash :: buffer

record web_users_list_t =
  wl_changed :: bool
  wl_user :: "web_user_t list"

record outputs_msg_t =
  om_seq :: u32
  om_state :: u8

record inputs_msg_t =
  im_seq :: u32
  im_state :: u8

record mqtt_status_msg_t =
  mq_seq :: u64
  mq_enabled :: bool
  mq_connected :: bool

record mqtt_msg_t =
  mm_topic :: buffer
  mm_payload :: buffer
  mm_qos :: u8
  mm_retain :: bool

definition mqtt_topik_max_len :: nat where "mqtt_topik_max_len = 128"

definition mqtt_payload_max_len :: nat where "mqtt_payload_max_len = 700"

definition device_relay_count :: nat where "device_relay_count = 3"

definition base_web_ui_fs_path :: string where "base_web_ui_fs_path = ''/lfs/www''"

text \<open>The values the channels hold before anything is published (\<open>zbus_topics.c\<close>).\<close>

definition outputs_initial :: outputs_msg_t where
  "outputs_initial = \<lparr>om_seq = 0, om_state = 0\<rparr>"

definition mqtt_stat_initial :: mqtt_status_msg_t where
  "mqtt_stat_initial = \<lparr>mq_seq = 0, mq_enabled = False, mq_connected = False\<rparr>"

section \<open>Memory images\<close>

definition bool_byte :: "bool \<Rightarrow> byte" where
  "bool_byte b = (if b then CHR 0x01 else CHR 0x00)"

definition byte_bool :: "byte \<Rightarrow> bool" where
  "byte_bool c \<longleftrightarrow> c \<noteq> NUL"

lemma byte_bool_bool_byte [simp]: "byte_bool (bool_byte b) = b"
  by (simp add: byte_bool_def bool_byte_def)

text \<open>
  What \<open>settings_load_one (key, &x, sizeof x)\<close> leaves in \<open>x\<close>: the bytes it read, in front
  of what the rest of \<open>x\<close> held.
\<close>

definition overlay :: "byte list \<Rightarrow> byte list \<Rightarrow> byte list" where
  "overlay bs old = bs @ drop (length bs) old"

lemma overlay_Nil [simp]: "overlay [] old = old"
  by (simp add: overlay_def)

lemma overlay_full: "length bs = length old \<Longrightarrow> overlay bs old = bs"
  by (simp add: overlay_def)

lemma length_overlay [length_simps, simp]:
  "length bs \<le> length old \<Longrightarrow> length (overlay bs old) = length old"
  by (simp add: overlay_def)

definition load_bool :: "byte list \<Rightarrow> bool \<Rightarrow> bool" where
  "load_bool bs old = byte_bool (overlay bs [bool_byte old] ! 0)"

lemma load_bool_Nil [simp]: "load_bool [] old = old"
  by (simp add: load_bool_def)

lemma load_bool_byte [simp]: "load_bool [bool_byte b] old = b"
  by (simp add: load_bool_def overlay_def)

definition u16_bytes :: "u16 \<Rightarrow> byte list" where
  "u16_bytes x = [char_of (unat x mod 256), char_of (unat x div 256)]"

definition bytes_u16 :: "byte list \<Rightarrow> u16" where
  "bytes_u16 bs = of_nat (char_code (bs ! 0) + 256 * char_code (bs ! 1))"

lemma bytes_u16_u16_bytes [simp]: "bytes_u16 (u16_bytes x) = x"
proof -
  have "unat x < 2 ^ 16" using unsigned_less [of x, where 'a = nat] by simp
  then have "unat x div 256 < 256" by simp
  then have "unat x mod 256 + 256 * (unat x div 256 mod 256) = unat x" by simp
  then show ?thesis by (simp add: bytes_u16_def u16_bytes_def)
qed

definition web_user_bytes :: "web_user_t \<Rightarrow> byte list" where
  "web_user_bytes u = wu_user u @ wu_pass_hash u"

definition web_users_bytes :: "web_users_list_t \<Rightarrow> byte list" where
  "web_users_bytes l = bool_byte (wl_changed l) # concat (map web_user_bytes (wl_user l))"

definition web_user_at :: "byte list \<Rightarrow> nat \<Rightarrow> web_user_t" where
  "web_user_at bs i =
     (let b = drop (1 + i * (MAX_USERNAME_LEN + MAX_PASS_HASH_LEN)) bs
      in \<lparr>wu_user = take MAX_USERNAME_LEN b,
          wu_pass_hash = take MAX_PASS_HASH_LEN (drop MAX_USERNAME_LEN b)\<rparr>)"

definition bytes_web_users :: "byte list \<Rightarrow> web_users_list_t" where
  "bytes_web_users bs =
     \<lparr>wl_changed = byte_bool (bs ! 0), wl_user = map (web_user_at bs) [0..<MAX_USERS]\<rparr>"

definition sizeof_web_users_list :: nat where
  "sizeof_web_users_list = 1 + MAX_USERS * (MAX_USERNAME_LEN + MAX_PASS_HASH_LEN)"

text \<open>The arrays of the user list have the lengths the header declares.\<close>

definition web_user_wf :: "web_user_t \<Rightarrow> bool" where
  "web_user_wf u \<longleftrightarrow> length (wu_user u) = MAX_USERNAME_LEN \<and> length (wu_pass_hash u) = MAX_PASS_HASH_LEN"

definition web_users_wf :: "web_users_list_t \<Rightarrow> bool" where
  "web_users_wf l \<longleftrightarrow> length (wl_user l) = MAX_USERS \<and> (\<forall>u \<in> set (wl_user l). web_user_wf u)"

definition web_users_zero :: web_users_list_t where
  "web_users_zero =
     \<lparr>wl_changed = False,
      wl_user = replicate MAX_USERS \<lparr>wu_user = zeros MAX_USERNAME_LEN, wu_pass_hash = zeros MAX_PASS_HASH_LEN\<rparr>\<rparr>"

lemma web_users_wf_cases:
  assumes "web_users_wf l"
  obtains c u0 h0 u1 h1 where
    "l = \<lparr>wl_changed = c, wl_user = [\<lparr>wu_user = u0, wu_pass_hash = h0\<rparr>, \<lparr>wu_user = u1, wu_pass_hash = h1\<rparr>]\<rparr>"
    "length u0 = 32" "length h0 = 32" "length u1 = 32" "length h1 = 32"
proof -
  obtain c us where l: "l = \<lparr>wl_changed = c, wl_user = us\<rparr>" by (cases l)
  with assms have "length us = 2" by (simp add: web_users_wf_def user_sizes)
  then obtain a b where us: "us = [a, b]"
    by (auto simp: numeral_2_eq_2 length_Suc_conv)
  obtain u0 h0 where a: "a = \<lparr>wu_user = u0, wu_pass_hash = h0\<rparr>" by (cases a)
  obtain u1 h1 where b: "b = \<lparr>wu_user = u1, wu_pass_hash = h1\<rparr>" by (cases b)
  from assms show ?thesis
    by (intro that [of c u0 h0 u1 h1]) (simp_all add: l us a b web_users_wf_def web_user_wf_def user_sizes)
qed

lemma length_web_users_bytes [length_simps]:
  "web_users_wf l \<Longrightarrow> length (web_users_bytes l) = sizeof_web_users_list"
  by (erule web_users_wf_cases)
    (simp add: web_users_bytes_def web_user_bytes_def sizeof_web_users_list_def user_sizes)

lemma upt_users: "[0..<2] = [0, Suc 0]"
  by (simp add: numeral_2_eq_2)

lemma bytes_web_users_roundtrip:
  "web_users_wf l \<Longrightarrow> bytes_web_users (web_users_bytes l) = l"
  by (erule web_users_wf_cases)
    (simp add: web_users_bytes_def web_user_bytes_def bytes_web_users_def web_user_at_def user_sizes
      upt_users)

lemma web_users_zero_wf [simp]: "web_users_wf web_users_zero"
  by (simp add: web_users_wf_def web_users_zero_def web_user_wf_def)

lemma bytes_web_users_wf:
  "sizeof_web_users_list \<le> length bs \<Longrightarrow> web_users_wf (bytes_web_users bs)"
  by (auto simp: web_users_wf_def bytes_web_users_def web_user_at_def web_user_wf_def
      sizeof_web_users_list_def user_sizes)

end
