(* ===== verification/Platform.thy ===== *)
theory Platform
  imports Topics
begin

text \<open>
  The interface to the code that is not part of the repository: Zephyr's settings, zbus,
  message queue, file system, JSON and base64 services, mbedtls, the clock and the random
  generator. None of them is defined here. Each is a field of a record of functions that
  the model's definitions take as an argument; \<open>'w\<close> is the state of the world those
  functions read and change. What the firmware relies on about them is stated as
  predicates (\<open>settings_lawful\<close>, \<open>json_lawful\<close>, \<open>zbus_lawful\<close>, ...), which are the named
  hypotheses of the theorems that need them and repeat the services' documentation.

  The section on HTTP has the types of Zephyr's HTTP server that the REST handlers read
  and fill in.
\<close>

section \<open>Error numbers\<close>

text \<open>
  Only that these are positive and pairwise different is ever used.
\<close>

definition EPERM :: int where "EPERM = 1"
definition ENOENT :: int where "ENOENT = 2"
definition EIO :: int where "EIO = 5"
definition EAGAIN :: int where "EAGAIN = 11"
definition ENOMEM :: int where "ENOMEM = 12"
definition EACCES :: int where "EACCES = 13"
definition EEXIST :: int where "EEXIST = 17"
definition ENODEV :: int where "ENODEV = 19"
definition EINVAL :: int where "EINVAL = 22"
definition ENOSPC :: int where "ENOSPC = 28"
definition ENODATA :: int where "ENODATA = 61"
definition ENAMETOOLONG :: int where "ENAMETOOLONG = 91"

lemmas errno = EPERM_def ENOENT_def EIO_def EAGAIN_def ENOMEM_def EACCES_def EEXIST_def
  ENODEV_def EINVAL_def ENOSPC_def ENODATA_def ENAMETOOLONG_def

section \<open>JSON descriptors\<close>

text \<open>
  A descriptor lists the fields \<open>json_obj_parse\<close> looks for, with the kind of token each
  must be (\<open>JSON_TOK_STRING_BUF n\<close>: a string copied into an array of \<open>n\<close> bytes). The
  parser returns its code and, per field, the value it stored, if any.
\<close>

datatype json_tok = JSON_TOK_TRUE | JSON_TOK_INT | JSON_TOK_STRING_BUF nat

datatype json_val = JBool bool | JInt int | JStr string

type_synonym json_descr = "(string \<times> json_tok) list"

fun json_typed :: "json_tok \<Rightarrow> json_val \<Rightarrow> bool" where
  "json_typed JSON_TOK_TRUE v = (case v of JBool b \<Rightarrow> True | _ \<Rightarrow> False)"
| "json_typed JSON_TOK_INT v = (case v of JInt i \<Rightarrow> True | _ \<Rightarrow> False)"
| "json_typed (JSON_TOK_STRING_BUF n) v = (case v of JStr s \<Rightarrow> length s < n \<and> nul_free s | _ \<Rightarrow> False)"

text \<open>\<open>BIT_MASK (ARRAY_SIZE (descr))\<close>: every field was decoded.\<close>

definition bit_mask :: "nat \<Rightarrow> int" where
  "bit_mask n = 2 ^ n - 1"

text \<open>What a structure member holds after the parser ran over it.\<close>

definition field_bool :: "json_val option \<Rightarrow> bool \<Rightarrow> bool" where
  "field_bool v old = (case v of Some (JBool b) \<Rightarrow> b | _ \<Rightarrow> old)"

definition field_str :: "json_val option \<Rightarrow> buffer \<Rightarrow> buffer" where
  "field_str v old = (case v of Some (JStr s) \<Rightarrow> s @ NUL # drop (Suc (length s)) old | _ \<Rightarrow> old)"

definition field_int :: "json_val option \<Rightarrow> int \<Rightarrow> int" where
  "field_int v old = (case v of Some (JInt i) \<Rightarrow> i | _ \<Rightarrow> old)"

section \<open>System services\<close>

record 'w sys_api =
  uninit :: "'w \<Rightarrow> nat \<Rightarrow> byte list"
    \<comment> \<open>what an uninitialised array of so many bytes holds\<close>
  settings_load_one :: "'w \<Rightarrow> string \<Rightarrow> nat \<Rightarrow> int \<times> byte list"
    \<comment> \<open>return code, and the bytes stored at the front of the caller's buffer\<close>
  settings_save_one :: "'w \<Rightarrow> string \<Rightarrow> byte list \<Rightarrow> int \<times> 'w"
  time_now :: "'w \<Rightarrow> u32 \<times> 'w"
    \<comment> \<open>\<open>(uint32_t) time (NULL)\<close>\<close>
  sys_csrand_get :: "'w \<Rightarrow> nat \<Rightarrow> byte list \<times> 'w"
  mbedtls_sha256 :: "byte list \<Rightarrow> int \<times> byte list"
  base64_decode :: "nat \<Rightarrow> string \<Rightarrow> int \<times> byte list"
    \<comment> \<open>size of the output array and the text; return code and the bytes written\<close>
  json_obj_parse :: "json_descr \<Rightarrow> byte list \<Rightarrow> int \<times> json_val option list"

text \<open>
  Settings (\<open>zephyr/settings/settings.h\<close>): a load gives the size of the stored value and
  the value, or a negative code and nothing; a successful save is what later loads of the
  same key see, and leaves the other keys alone.
\<close>

definition settings_load_ok :: "'w sys_api \<Rightarrow> bool" where
  "settings_load_ok sys \<longleftrightarrow>
     (\<forall>w k n rc bs. settings_load_one sys w k n = (rc, bs) \<longrightarrow>
        (if rc \<le> 0 then bs = [] else int (length bs) = rc \<and> length bs \<le> n))"

definition settings_save_ok :: "'w sys_api \<Rightarrow> bool" where
  "settings_save_ok sys \<longleftrightarrow>
     (\<forall>w k v rc w'. settings_save_one sys w k v = (rc, w') \<longrightarrow> rc = 0 \<longrightarrow> v \<noteq> [] \<longrightarrow>
        (\<forall>n \<ge> length v. settings_load_one sys w' k n = (int (length v), v)) \<and>
        (\<forall>k' n. k' \<noteq> k \<longrightarrow> settings_load_one sys w' k' n = settings_load_one sys w k' n))"

definition settings_lawful :: "'w sys_api \<Rightarrow> bool" where
  "settings_lawful sys \<longleftrightarrow> settings_load_ok sys \<and> settings_save_ok sys"

text \<open>A save, also one that fails, leaves the new value of its key or the old one.\<close>

definition saves_atomic :: "'w sys_api \<Rightarrow> bool" where
  "saves_atomic sys \<longleftrightarrow>
     (\<forall>w k v. v \<noteq> [] \<longrightarrow> (let w' = snd (settings_save_one sys w k v) in
        (\<forall>n \<ge> length v. settings_load_one sys w' k n = (int (length v), v)) \<or>
        (\<forall>n. settings_load_one sys w' k n = settings_load_one sys w k n)))"

text \<open>Several saves in a row, whose return codes the caller ignores.\<close>

definition save_all :: "'w sys_api \<Rightarrow> (string \<times> byte list) list \<Rightarrow> 'w \<Rightarrow> 'w" where
  "save_all sys kvs w = foldl (\<lambda>w (k, v). snd (settings_save_one sys w k v)) w kvs"

definition saves_succeed :: "'w sys_api \<Rightarrow> bool" where
  "saves_succeed sys \<longleftrightarrow> (\<forall>w k v. fst (settings_save_one sys w k v) = 0)"

lemma save_all_simps [simp]:
  "save_all sys [] w = w"
  "save_all sys ((k, v) # kvs) w = save_all sys kvs (snd (settings_save_one sys w k v))"
  by (simp_all add: save_all_def)

lemma load_after_save:
  assumes "settings_lawful sys" and "saves_succeed sys" and "v \<noteq> []"
  shows "length v \<le> n \<Longrightarrow> settings_load_one sys (snd (settings_save_one sys w k v)) k n = (int (length v), v)"
    and "k' \<noteq> k \<Longrightarrow> settings_load_one sys (snd (settings_save_one sys w k v)) k' n' = settings_load_one sys w k' n'"
proof -
  have "settings_save_one sys w k v = (0, snd (settings_save_one sys w k v))"
    using assms(2) by (simp add: saves_succeed_def prod_eq_iff)
  with assms(1,3) have
    "(\<forall>n \<ge> length v. settings_load_one sys (snd (settings_save_one sys w k v)) k n = (int (length v), v)) \<and>
     (\<forall>k' n. k' \<noteq> k \<longrightarrow> settings_load_one sys (snd (settings_save_one sys w k v)) k' n = settings_load_one sys w k' n)"
    unfolding settings_lawful_def settings_save_ok_def by blast
  then show "length v \<le> n \<Longrightarrow> settings_load_one sys (snd (settings_save_one sys w k v)) k n = (int (length v), v)"
    and "k' \<noteq> k \<Longrightarrow> settings_load_one sys (snd (settings_save_one sys w k v)) k' n' = settings_load_one sys w k' n'"
    by blast+
qed

lemma save_all_other:
  assumes "settings_lawful sys" and "saves_succeed sys" and "[] \<notin> snd ` set kvs" and "k \<notin> fst ` set kvs"
  shows "settings_load_one sys (save_all sys kvs w) k n = settings_load_one sys w k n"
  using assms(3,4)
proof (induction kvs arbitrary: w)
  case Nil
  then show ?case by simp
next
  case (Cons kv kvs)
  obtain k' v where "kv = (k', v)" by (cases kv)
  with Cons load_after_save(2) [OF assms(1,2), of v k k'] show ?case by auto
qed

lemma save_all_load:
  assumes "settings_lawful sys" and "saves_succeed sys" and "[] \<notin> snd ` set kvs"
    and "distinct (map fst kvs)" and "(k, v) \<in> set kvs" and "length v \<le> n"
  shows "settings_load_one sys (save_all sys kvs w) k n = (int (length v), v)"
  using assms(3-5)
proof (induction kvs arbitrary: w)
  case Nil
  then show ?case by simp
next
  case (Cons kv kvs)
  obtain k' v' where kv: "kv = (k', v')" by (cases kv)
  show ?case
  proof (cases "kv = (k, v)")
    case True
    with Cons.prems kv have "k \<notin> fst ` set kvs" and "v \<noteq> []" by auto
    with True Cons.prems kv show ?thesis
      using save_all_other [OF assms(1,2), of kvs k] load_after_save(1) [OF assms(1,2) _ assms(6)] by simp
  next
    case False
    with Cons.prems(3) have "(k, v) \<in> set kvs" by auto
    with Cons kv show ?thesis by auto
  qed
qed

text \<open>SHA-256 of any input is 32 bytes and does not fail.\<close>

definition sha256_lawful :: "'w sys_api \<Rightarrow> bool" where
  "sha256_lawful sys \<longleftrightarrow> (\<forall>m. fst (mbedtls_sha256 sys m) = 0 \<and> length (snd (mbedtls_sha256 sys m)) = 32)"

text \<open>An array holds as many bytes as it was declared with.\<close>

definition uninit_lawful :: "'w sys_api \<Rightarrow> bool" where
  "uninit_lawful sys \<longleftrightarrow> (\<forall>w n. length (uninit sys w n) = n)"

definition csrand_lawful :: "'w sys_api \<Rightarrow> bool" where
  "csrand_lawful sys \<longleftrightarrow> (\<forall>w n. length (fst (sys_csrand_get sys w n)) = n)"

text \<open>
  \<open>json_obj_parse\<close> (\<open>zephyr/data/json.h\<close>): negative on an error, else the bitmap of the
  decoded fields; a decoded field has the kind its descriptor asks for, and a string
  fits the array it is copied to.
\<close>

definition json_lawful :: "'w sys_api \<Rightarrow> bool" where
  "json_lawful sys \<longleftrightarrow>
     (\<forall>ds bs rc vs. json_obj_parse sys ds bs = (rc, vs) \<longrightarrow>
        length vs = length ds \<and>
        (\<forall>i < length ds. case vs ! i of None \<Rightarrow> True | Some v \<Rightarrow> json_typed (snd (ds ! i)) v) \<and>
        (0 \<le> rc \<longrightarrow> (\<forall>i < length ds. bit rc i \<longleftrightarrow> vs ! i \<noteq> None)))"

lemma bit_bit_mask: "i < n \<Longrightarrow> bit (bit_mask n) i"
  by (simp add: bit_mask_def bit_mask_iff flip: mask_eq_exp_minus_1)

lemma bit_mask_nonneg [simp]: "0 \<le> bit_mask n"
  by (simp add: bit_mask_def)

text \<open>When the parser returns the full mask, every field holds a value of its kind.\<close>

lemma json_all_fields:
  assumes "json_lawful sys" and "json_obj_parse sys ds bs = (bit_mask (length ds), vs)"
  shows "length vs = length ds" and "\<And>i. i < length ds \<Longrightarrow> \<exists>v. vs ! i = Some v \<and> json_typed (snd (ds ! i)) v"
proof -
  have *: "length vs = length ds \<and>
      (\<forall>i < length ds. case vs ! i of None \<Rightarrow> True | Some v \<Rightarrow> json_typed (snd (ds ! i)) v) \<and>
      (\<forall>i < length ds. bit (bit_mask (length ds)) i \<longleftrightarrow> vs ! i \<noteq> None)"
    using assms unfolding json_lawful_def by (metis bit_mask_nonneg)
  then show "length vs = length ds" by simp
  fix i assume i: "i < length ds"
  with * have "vs ! i \<noteq> None" by (simp add: bit_bit_mask)
  with * i show "\<exists>v. vs ! i = Some v \<and> json_typed (snd (ds ! i)) v" by (auto split: option.splits)
qed

section \<open>Channels and queues\<close>

text \<open>
  A read gives the return code and the message; the code ignores the message when the
  code is not 0 (the caller's variable keeps its value).
\<close>

record 'w zbus_api =
  zbus_read_outputs :: "'w \<Rightarrow> int \<times> outputs_msg_t"
  zbus_pub_outputs :: "'w \<Rightarrow> outputs_msg_t \<Rightarrow> int \<times> 'w"
  zbus_read_inputs :: "'w \<Rightarrow> int \<times> inputs_msg_t"
  zbus_read_mqtt :: "'w \<Rightarrow> int \<times> mqtt_status_msg_t"
  zbus_pub_mqtt :: "'w \<Rightarrow> mqtt_status_msg_t \<Rightarrow> int \<times> 'w"

text \<open>The variable a channel is read into.\<close>

definition chan_read :: "int \<times> 'm \<Rightarrow> 'm \<Rightarrow> 'm" where
  "chan_read r old = (if fst r = 0 then snd r else old)"

lemma chan_read_simps [simp]:
  "chan_read (0, m) old = m"
  "rc \<noteq> 0 \<Longrightarrow> chan_read (rc, m) old = old"
  by (simp_all add: chan_read_def)

text \<open>zbus: after a successful publish a successful read returns the message.\<close>

definition zbus_outputs_lawful :: "'w zbus_api \<Rightarrow> bool" where
  "zbus_outputs_lawful zb \<longleftrightarrow>
     (\<forall>w m rc w'. zbus_pub_outputs zb w m = (rc, w') \<longrightarrow> rc = 0 \<longrightarrow> zbus_read_outputs zb w' = (0, m))"

section \<open>The HTTP server's types\<close>

datatype http_method = HTTP_GET | HTTP_POST | HTTP_DELETE | HTTP_OTHER

datatype http_data_status =
  HTTP_SERVER_DATA_ABORTED | HTTP_SERVER_DATA_MORE | HTTP_SERVER_DATA_FINAL

record http_header =
  hdr_name :: string
  hdr_value :: string

record http_client_ctx =
  req_method :: http_method
  url_buffer :: string

record http_request_ctx =
  req_data :: "byte list"
  req_headers :: "http_header list"

text \<open>\<open>body\<close> is the array the response points at; the server sends its first \<open>body_len\<close> bytes.\<close>

record http_response_ctx =
  resp_status :: nat
  resp_headers :: "http_header list"
  resp_body :: "byte list"
  resp_body_len :: nat
  resp_final :: bool

definition HTTP_200_OK :: nat where "HTTP_200_OK = 200"
definition HTTP_400_BAD_REQUEST :: nat where "HTTP_400_BAD_REQUEST = 400"
definition HTTP_401_UNAUTHORIZED :: nat where "HTTP_401_UNAUTHORIZED = 401"
definition HTTP_403_FORBIDDEN :: nat where "HTTP_403_FORBIDDEN = 403"
definition HTTP_404_NOT_FOUND :: nat where "HTTP_404_NOT_FOUND = 404"
definition HTTP_413_PAYLOAD_TOO_LARGE :: nat where "HTTP_413_PAYLOAD_TOO_LARGE = 413"
definition HTTP_500_INTERNAL_SERVER_ERROR :: nat where "HTTP_500_INTERNAL_SERVER_ERROR = 500"

lemmas http_status = HTTP_200_OK_def HTTP_400_BAD_REQUEST_def HTTP_401_UNAUTHORIZED_def
  HTTP_403_FORBIDDEN_def HTTP_404_NOT_FOUND_def HTTP_413_PAYLOAD_TOO_LARGE_def
  HTTP_500_INTERNAL_SERVER_ERROR_def

text \<open>
  The five assignments with which every handler answers: status, body, body length and
  the final-chunk flag. \<open>respond\<close> is for a constant text, whose length is the text's.
\<close>

definition respond :: "http_response_ctx \<Rightarrow> nat \<Rightarrow> string \<Rightarrow> http_response_ctx" where
  "respond r st text =
     r\<lparr>resp_status := st, resp_body := text @ [NUL], resp_body_len := length text, resp_final := True\<rparr>"

definition respond_buf :: "http_response_ctx \<Rightarrow> nat \<Rightarrow> buffer \<Rightarrow> nat \<Rightarrow> http_response_ctx" where
  "respond_buf r st buf len =
     r\<lparr>resp_status := st, resp_body := buf, resp_body_len := len, resp_final := True\<rparr>"

text \<open>What the server sends.\<close>

definition resp_text :: "http_response_ctx \<Rightarrow> string" where
  "resp_text r = take (resp_body_len r) (resp_body r)"

lemma respond_simps [simp]:
  "resp_status (respond r st text) = st"
  "resp_text (respond r st text) = text"
  "resp_final (respond r st text) = True"
  "resp_headers (respond r st text) = resp_headers r"
  by (simp_all add: respond_def resp_text_def)

lemma respond_buf_simps [simp]:
  "resp_status (respond_buf r st buf len) = st"
  "resp_text (respond_buf r st buf len) = take len buf"
  "resp_body (respond_buf r st buf len) = buf"
  "resp_body_len (respond_buf r st buf len) = len"
  "resp_headers (respond_buf r st buf len) = resp_headers r"
  by (simp_all add: respond_buf_def resp_text_def)

definition json_bool :: "bool \<Rightarrow> string" where
  "json_bool b = (if b then ''true'' else ''false'')"

lemma nul_free_json_bool [simp]: "nul_free (json_bool b)"
  by (simp add: json_bool_def)

lemma length_json_bool_le: "length (json_bool b) \<le> 5"
  by (simp add: json_bool_def)

end
