(* ===== verification/Device_Platform.thy ===== *)
theory Device_Platform
  imports Platform
begin

text \<open>
  The rest of the interface to code outside the repository, used by the io task and the
  MQTT tasks: the GPIO driver, the two message queues of \<open>msgq_topiks.c\<close>, Zephyr's MQTT
  client and the kernel's clock, sleep, hardware identifier and network address. As in
  \<open>Platform\<close> they are records of functions over a world \<open>'w\<close>, with their documented
  behaviour as predicates over views of the world.
\<close>

section \<open>GPIO\<close>

text \<open>
  The pins are numbered like the relays, from 0. The code ignores what the driver's
  functions return.
\<close>

record 'w gpio_api =
  device_is_ready :: "'w \<Rightarrow> nat \<Rightarrow> bool"
  gpio_pin_configure :: "'w \<Rightarrow> nat \<Rightarrow> 'w"
    \<comment> \<open>as an output, inactive\<close>
  gpio_pin_set :: "'w \<Rightarrow> nat \<Rightarrow> bool \<Rightarrow> 'w"

definition gpio_lawful :: "'w gpio_api \<Rightarrow> ('w \<Rightarrow> nat \<Rightarrow> bool) \<Rightarrow> bool" where
  "gpio_lawful gp pin \<longleftrightarrow>
     (\<forall>w i b. device_is_ready gp w i \<longrightarrow> pin (gpio_pin_set gp w i b) = (pin w)(i := b)) \<and>
     (\<forall>w i b j. device_is_ready gp (gpio_pin_set gp w i b) j = device_is_ready gp w j) \<and>
     (\<forall>w i j. device_is_ready gp (gpio_pin_configure gp w i) j = device_is_ready gp w j)"

lemma gpio_set_law:
  "gpio_lawful gp pin \<Longrightarrow> device_is_ready gp w i \<Longrightarrow> pin (gpio_pin_set gp w i b) = (pin w)(i := b)"
  "gpio_lawful gp pin \<Longrightarrow> device_is_ready gp (gpio_pin_set gp w i b) j = device_is_ready gp w j"
  "gpio_lawful gp pin \<Longrightarrow> device_is_ready gp (gpio_pin_configure gp w i) j = device_is_ready gp w j"
  unfolding gpio_lawful_def by blast+

section \<open>Message queues\<close>

definition ENOMSG :: int where "ENOMSG = 35"
definition EBUSY :: int where "EBUSY = 16"
definition ENOTSUP :: int where "ENOTSUP = 134"

lemmas errno2 = ENOMSG_def EBUSY_def ENOTSUP_def

definition MSGQ_LEN :: nat where "MSGQ_LEN = 16"

text \<open>
  \<open>tx_put\<close> is \<open>k_msgq_put (&MQTT_MSGQ_TX, &m, K_FOREVER)\<close>, \<open>rx_put\<close> the same on the receive
  queue with \<open>K_NO_WAIT\<close>; the others do not wait either.
\<close>

record 'w msgq_api =
  tx_put :: "'w \<Rightarrow> mqtt_msg_t \<Rightarrow> int \<times> 'w"
  tx_peek :: "'w \<Rightarrow> int \<times> mqtt_msg_t"
  tx_get :: "'w \<Rightarrow> int \<times> mqtt_msg_t \<times> 'w"
  rx_put :: "'w \<Rightarrow> mqtt_msg_t \<Rightarrow> int \<times> 'w"
  rx_used :: "'w \<Rightarrow> nat"
  rx_get :: "'w \<Rightarrow> int \<times> mqtt_msg_t \<times> 'w"

text \<open>
  A view of the queues: their contents, oldest first, and everything that was ever put
  into the transmit queue. While \<open>tx_put\<close> waits for room the other side may take
  messages out, so it only promises that the message is the last one.
\<close>

record 'w msgq_view =
  mv_tx :: "'w \<Rightarrow> mqtt_msg_t list"
  mv_rx :: "'w \<Rightarrow> mqtt_msg_t list"
  mv_put :: "'w \<Rightarrow> mqtt_msg_t list"

definition msgq_tx_lawful :: "'w msgq_api \<Rightarrow> 'w msgq_view \<Rightarrow> bool" where
  "msgq_tx_lawful mq v \<longleftrightarrow>
     (\<forall>w m rc w'. tx_put mq w m = (rc, w') \<longrightarrow>
        rc = 0 \<and> (\<exists>n. mv_tx v w' = drop n (mv_tx v w) @ [m]) \<and> mv_rx v w' = mv_rx v w \<and>
        mv_put v w' = mv_put v w @ [m]) \<and>
     (\<forall>w. case mv_tx v w of [] \<Rightarrow> fst (tx_peek mq w) \<noteq> 0 | m # ms \<Rightarrow> tx_peek mq w = (0, m)) \<and>
     (\<forall>w rc m w'. tx_get mq w = (rc, m, w') \<longrightarrow>
        mv_tx v w' = tl (mv_tx v w) \<and> mv_rx v w' = mv_rx v w \<and> mv_put v w' = mv_put v w)"

definition msgq_rx_lawful :: "'w msgq_api \<Rightarrow> 'w msgq_view \<Rightarrow> bool" where
  "msgq_rx_lawful mq v \<longleftrightarrow>
     (\<forall>w m rc w'. rx_put mq w m = (rc, w') \<longrightarrow>
        mv_tx v w' = mv_tx v w \<and> mv_put v w' = mv_put v w \<and>
        (if length (mv_rx v w) < MSGQ_LEN then rc = 0 \<and> mv_rx v w' = mv_rx v w @ [m]
         else rc = - ENOMSG \<and> mv_rx v w' = mv_rx v w)) \<and>
     (\<forall>w. rx_used mq w = length (mv_rx v w)) \<and>
     (\<forall>w rc m w'. rx_get mq w = (rc, m, w') \<longrightarrow>
        mv_tx v w' = mv_tx v w \<and> mv_put v w' = mv_put v w \<and> mv_rx v w' = tl (mv_rx v w) \<and>
        (if mv_rx v w = [] then rc \<noteq> 0 else rc = 0 \<and> m = hd (mv_rx v w)))"

lemma tx_put_law:
  assumes "msgq_tx_lawful mq v"
  shows "fst (tx_put mq w m) = 0" and "\<exists>n. mv_tx v (snd (tx_put mq w m)) = drop n (mv_tx v w) @ [m]"
    and "mv_rx v (snd (tx_put mq w m)) = mv_rx v w"
    and "mv_put v (snd (tx_put mq w m)) = mv_put v w @ [m]"
  using assms unfolding msgq_tx_lawful_def by (metis prod.collapse)+

lemma tx_peek_law:
  assumes "msgq_tx_lawful mq v"
  shows "mv_tx v w = [] \<Longrightarrow> fst (tx_peek mq w) \<noteq> 0" and "mv_tx v w = m # ms \<Longrightarrow> tx_peek mq w = (0, m)"
proof -
  have "case mv_tx v w of [] \<Rightarrow> fst (tx_peek mq w) \<noteq> 0 | m # ms \<Rightarrow> tx_peek mq w = (0, m)"
    using assms unfolding msgq_tx_lawful_def by blast
  then show "mv_tx v w = [] \<Longrightarrow> fst (tx_peek mq w) \<noteq> 0" and "mv_tx v w = m # ms \<Longrightarrow> tx_peek mq w = (0, m)"
    by simp_all
qed

lemma tx_get_law:
  assumes "msgq_tx_lawful mq v"
  shows "mv_tx v (snd (snd (tx_get mq w))) = tl (mv_tx v w)"
    and "mv_rx v (snd (snd (tx_get mq w))) = mv_rx v w" and "mv_put v (snd (snd (tx_get mq w))) = mv_put v w"
  using assms unfolding msgq_tx_lawful_def by (metis prod.collapse)+

lemma rx_put_law:
  assumes "msgq_rx_lawful mq v" and "rx_put mq w m = (rc, w')"
  shows "mv_tx v w' = mv_tx v w" and "mv_put v w' = mv_put v w"
    and "length (mv_rx v w) < MSGQ_LEN \<Longrightarrow> rc = 0 \<and> mv_rx v w' = mv_rx v w @ [m]"
    and "MSGQ_LEN \<le> length (mv_rx v w) \<Longrightarrow> rc = - ENOMSG \<and> mv_rx v w' = mv_rx v w"
  using assms unfolding msgq_rx_lawful_def by (metis not_less)+

lemma rx_get_law:
  assumes "msgq_rx_lawful mq v" and "rx_get mq w = (rc, m, w')"
  shows "mv_tx v w' = mv_tx v w" and "mv_put v w' = mv_put v w" and "mv_rx v w' = tl (mv_rx v w)"
    and "mv_rx v w = [] \<Longrightarrow> rc \<noteq> 0" and "mv_rx v w = x # xs \<Longrightarrow> rc = 0 \<and> m = x"
  using assms unfolding msgq_rx_lawful_def by (metis, metis, metis, metis) (metis assms list.discI list.sel(1) msgq_rx_lawful_def)

section \<open>The MQTT client\<close>

definition MQTT_QOS_0_AT_MOST_ONCE :: u8 where "MQTT_QOS_0_AT_MOST_ONCE = 0"
definition MQTT_QOS_1_AT_LEAST_ONCE :: u8 where "MQTT_QOS_1_AT_LEAST_ONCE = 1"
definition MQTT_QOS_2_EXACTLY_ONCE :: u8 where "MQTT_QOS_2_EXACTLY_ONCE = 2"

lemmas mqtt_qos = MQTT_QOS_0_AT_MOST_ONCE_def MQTT_QOS_1_AT_LEAST_ONCE_def MQTT_QOS_2_EXACTLY_ONCE_def

text \<open>
  \<open>struct mqtt_publish_param\<close>, with the text a pointer and a size stand for.
\<close>

record mqtt_publish_param =
  pp_topic :: "byte list"
  pp_qos :: u8
  pp_payload :: "byte list"
  pp_message_id :: u16
  pp_dup_flag :: bool
  pp_retain_flag :: bool

record mqtt_topic =
  mt_utf8 :: "byte list"
  mt_qos :: u8

text \<open>A control packet the client sends on its own.\<close>

datatype mqtt_reply = Puback u16 | Pubrec u16 | Pubrel u16 | Pubcomp u16

record 'w mqtt_api =
  mqtt_publish :: "'w \<Rightarrow> mqtt_publish_param \<Rightarrow> int \<times> 'w"
  mqtt_subscribe :: "'w \<Rightarrow> mqtt_topic list \<Rightarrow> u16 \<Rightarrow> int \<times> 'w"
  mqtt_read_publish_payload :: "'w \<Rightarrow> nat \<Rightarrow> int \<times> byte list \<times> 'w"
    \<comment> \<open>return code, and the bytes written to the front of the caller's buffer\<close>
  mqtt_reply_send :: "'w \<Rightarrow> mqtt_reply \<Rightarrow> int \<times> 'w"
    \<comment> \<open>\<open>mqtt_publish_qos1_ack\<close>, \<open>_qos2_receive\<close>, \<open>_qos2_release\<close>, \<open>_qos2_complete\<close>\<close>

text \<open>
  \<open>mqtt_read_publish_payload\<close> delivers the payload of the message at hand piece by piece
  (\<open>zephyr/net/mqtt.h\<close>: the number of bytes read, 0 when there are none left, or an error).
  \<open>rest\<close> is what of it has not been read yet.
\<close>

definition payload_lawful :: "'w mqtt_api \<Rightarrow> ('w \<Rightarrow> byte list) \<Rightarrow> bool" where
  "payload_lawful mc rest \<longleftrightarrow>
     (\<forall>w n rc bs w'. mqtt_read_publish_payload mc w n = (rc, bs, w') \<longrightarrow>
        (if rc < 0 then bs = [] \<and> rest w' = rest w
         else rc = int (length bs) \<and> length bs \<le> n \<and> rest w = bs @ rest w' \<and>
              (rest w \<noteq> [] \<longrightarrow> 0 < n \<longrightarrow> bs \<noteq> [])))"

text \<open>
  What was handed to the broker, in order: a publish that returns 0 adds its parameters,
  any other one changes nothing, and neither touches the message queues.
\<close>

definition publish_lawful :: "'w mqtt_api \<Rightarrow> 'w msgq_view \<Rightarrow> ('w \<Rightarrow> mqtt_publish_param list) \<Rightarrow> bool" where
  "publish_lawful mc v sent \<longleftrightarrow>
     (\<forall>w p rc w'. mqtt_publish mc w p = (rc, w') \<longrightarrow>
        mv_tx v w' = mv_tx v w \<and> mv_rx v w' = mv_rx v w \<and>
        sent w' = (if rc = 0 then sent w @ [p] else sent w))"

text \<open>Taking a message out of the transmit queue sends nothing.\<close>

definition tx_get_sends_nothing :: "'w msgq_api \<Rightarrow> ('w \<Rightarrow> mqtt_publish_param list) \<Rightarrow> bool" where
  "tx_get_sends_nothing mq sent \<longleftrightarrow> (\<forall>w. sent (snd (snd (tx_get mq w))) = sent w)"

section \<open>The kernel\<close>

text \<open>
  \<open>k_sleep\<close> is where the other threads run: it may change anything they change.
\<close>

record 'w kernel_api =
  k_sleep :: "'w \<Rightarrow> 'w"
  k_uptime_get :: "'w \<Rightarrow> u64"
  k_uptime_seconds :: "'w \<Rightarrow> u32"
  sys_rand16_get :: "'w \<Rightarrow> u16 \<times> 'w"
  hwinfo_get_device_id :: "'w \<Rightarrow> nat \<Rightarrow> int \<times> byte list"
    \<comment> \<open>return code, and the bytes written to the front of the caller's buffer\<close>
  inet_pton_ok :: "string \<Rightarrow> bool"
    \<comment> \<open>\<open>inet_pton\<close> accepts the text as an IPv4 or an IPv6 address\<close>
  net_if_get_default :: "'w \<Rightarrow> bool"
    \<comment> \<open>there is a default interface\<close>
  net_if_ipv4_get_global_addr :: "'w \<Rightarrow> byte list option"
    \<comment> \<open>its preferred global address\<close>
  net_addr_ntop :: "byte list \<Rightarrow> nat \<Rightarrow> string option"
    \<comment> \<open>the address as text, when it fits an array of this size\<close>

definition hwinfo_lawful :: "'w kernel_api \<Rightarrow> bool" where
  "hwinfo_lawful kn \<longleftrightarrow>
     (\<forall>w n rc bs. hwinfo_get_device_id kn w n = (rc, bs) \<longrightarrow>
        (if rc < 0 then bs = [] else rc = int (length bs) \<and> length bs \<le> n))"

end
