(* ===== verification/Demo_Platform.thy ===== *)
theory Demo_Platform
  imports Device_Platform
begin

text \<open>
  A concrete instance of the platform's service records, used by the witnesses only: a
  world with stored settings, a clock, the three channels, and functions that satisfy the
  documented laws. No theorem of the components is about this instance; it shows that the
  laws they assume can hold together.
\<close>

record demo_world =
  dw_settings :: "(string \<times> byte list) list"
  dw_clock :: u32
  dw_outputs :: outputs_msg_t
  dw_inputs :: inputs_msg_t
  dw_mqtt :: mqtt_status_msg_t
  dw_pins :: "bool list"
  dw_tx :: "mqtt_msg_t list"
  dw_rx :: "mqtt_msg_t list"
  dw_put :: "mqtt_msg_t list"
  dw_payload :: "byte list"
  dw_published :: "mqtt_publish_param list"
  dw_replies :: "mqtt_reply list"

definition demo_init :: demo_world where
  "demo_init = \<lparr>dw_settings = [], dw_clock = 1000, dw_outputs = outputs_initial,
     dw_inputs = \<lparr>im_seq = 0, im_state = 0\<rparr>, dw_mqtt = mqtt_stat_initial,
     dw_pins = [False, False, False], dw_tx = [], dw_rx = [], dw_put = [], dw_payload = [],
     dw_published = [], dw_replies = []\<rparr>"

definition demo_load :: "demo_world \<Rightarrow> string \<Rightarrow> nat \<Rightarrow> int \<times> byte list" where
  "demo_load w k n =
     (case map_of (dw_settings w) k of None \<Rightarrow> (- ENOENT, [])
      | Some v \<Rightarrow> if length v \<le> n then (int (length v), v) else (- EINVAL, []))"

definition demo_save :: "demo_world \<Rightarrow> string \<Rightarrow> byte list \<Rightarrow> int \<times> demo_world" where
  "demo_save w k v = (0, w\<lparr>dw_settings := (k, v) # dw_settings w\<rparr>)"

text \<open>A stand-in for a JSON text: one character per descriptor, \<open>1\<close> or \<open>0\<close> for a boolean.\<close>

definition demo_json_field :: "string \<times> json_tok \<Rightarrow> char \<Rightarrow> json_val option" where
  "demo_json_field d c =
     (case snd d of
        JSON_TOK_TRUE \<Rightarrow> if c = CHR ''1'' then Some (JBool True) else if c = CHR ''0'' then Some (JBool False) else None
      | JSON_TOK_INT \<Rightarrow> if c = CHR ''-'' then None else Some (JInt (of_char c))
      | JSON_TOK_STRING_BUF n \<Rightarrow> if c = CHR ''-'' \<or> c = NUL \<or> n < 2 then None else Some (JStr [c]))"

fun demo_json_mask :: "json_val option list \<Rightarrow> int" where
  "demo_json_mask [] = 0"
| "demo_json_mask (v # vs) = (if v = None then 0 else 1) + 2 * demo_json_mask vs"

definition demo_json :: "json_descr \<Rightarrow> byte list \<Rightarrow> int \<times> json_val option list" where
  "demo_json ds bs =
     (let vs = map (\<lambda>(d, c). demo_json_field d c) (zip ds (bs @ replicate (length ds) (CHR ''-'')))
      in (demo_json_mask vs, vs))"

definition demo_sys :: "demo_world sys_api" where
  "demo_sys = \<lparr>uninit = (\<lambda>w n. replicate n (CHR 0xAA)),
     settings_load_one = demo_load, settings_save_one = demo_save,
     time_now = (\<lambda>w. (dw_clock w, w\<lparr>dw_clock := dw_clock w + 1\<rparr>)),
     sys_csrand_get = (\<lambda>w n. (replicate n (CHR 0x5A), w)),
     mbedtls_sha256 = (\<lambda>m. (0, take 32 (m @ replicate 32 NUL))),
     base64_decode = (\<lambda>n s. if length s \<le> n then (0, s) else (- ENOMEM, [])),
     json_obj_parse = demo_json\<rparr>"

definition demo_zbus :: "demo_world zbus_api" where
  "demo_zbus = \<lparr>zbus_read_outputs = (\<lambda>w. (0, dw_outputs w)),
     zbus_pub_outputs = (\<lambda>w m. (0, w\<lparr>dw_outputs := m\<rparr>)),
     zbus_read_inputs = (\<lambda>w. (0, dw_inputs w)),
     zbus_read_mqtt = (\<lambda>w. (0, dw_mqtt w)),
     zbus_pub_mqtt = (\<lambda>w m. (0, w\<lparr>dw_mqtt := m\<rparr>))\<rparr>"

lemma demo_settings_lawful [simp]: "settings_lawful demo_sys"
  by (auto simp: settings_lawful_def settings_load_ok_def settings_save_ok_def demo_sys_def
      demo_load_def demo_save_def errno split: option.splits if_splits)

lemma demo_settings_load_ok [simp]: "settings_load_ok demo_sys"
  using demo_settings_lawful by (simp add: settings_lawful_def)

lemma demo_saves_atomic: "saves_atomic demo_sys"
  by (auto simp: saves_atomic_def demo_sys_def demo_load_def demo_save_def)

lemma demo_saves_succeed [simp]: "saves_succeed demo_sys"
  by (simp add: saves_succeed_def demo_sys_def demo_save_def)

lemma demo_sha256_lawful [simp]: "sha256_lawful demo_sys"
  by (auto simp: sha256_lawful_def demo_sys_def)

lemma demo_uninit_lawful [simp]: "uninit_lawful demo_sys"
  by (simp add: uninit_lawful_def demo_sys_def)

lemma demo_csrand_lawful [simp]: "csrand_lawful demo_sys"
  by (simp add: csrand_lawful_def demo_sys_def)

lemma demo_zbus_outputs_lawful [simp]: "zbus_outputs_lawful demo_zbus"
  by (simp add: zbus_outputs_lawful_def demo_zbus_def)

lemma demo_json_field_typed: "demo_json_field d c = Some v \<Longrightarrow> json_typed (snd d) v"
  by (cases "snd d") (auto simp: demo_json_field_def split: if_splits)

lemma demo_json_mask_bit:
  "i < length vs \<Longrightarrow> bit (demo_json_mask vs) i \<longleftrightarrow> vs ! i \<noteq> None"
proof (induction vs arbitrary: i)
  case Nil
  then show ?case by simp
next
  case (Cons v vs)
  show ?case
  proof (cases i)
    case 0
    then show ?thesis by (simp add: bit_0)
  next
    case (Suc k)
    have "((if v = None then 0 else 1) + 2 * demo_json_mask vs) div 2 = demo_json_mask vs" by simp
    with Suc Cons show ?thesis by (simp add: bit_Suc)
  qed
qed

lemma demo_json_lawful [simp]: "json_lawful demo_sys"
  unfolding json_lawful_def demo_sys_def
  by (auto simp: demo_json_def Let_def demo_json_mask_bit split: option.splits dest: demo_json_field_typed)

text \<open>A stored list with the users \<open>admin\<close> and, in the second, \<open>bob\<close>.\<close>

definition demo_user :: "string \<Rightarrow> string \<Rightarrow> web_user_t" where
  "demo_user name pass = \<lparr>wu_user = name @ zeros (32 - length name),
     wu_pass_hash = take 32 (pass @ zeros 32)\<rparr>"

definition demo_users1 :: web_users_list_t where
  "demo_users1 = \<lparr>wl_changed = False,
     wl_user = [demo_user ''admin'' ''pass'', \<lparr>wu_user = zeros 32, wu_pass_hash = zeros 32\<rparr>]\<rparr>"

definition demo_users2 :: web_users_list_t where
  "demo_users2 = \<lparr>wl_changed = False, wl_user = [demo_user ''admin'' ''pass'', demo_user ''bob'' ''pw'']\<rparr>"

definition demo_users3 :: web_users_list_t where
  "demo_users3 = \<lparr>wl_changed = True,
     wl_user = [\<lparr>wu_user = zeros 32, wu_pass_hash = zeros 32\<rparr>, demo_user ''bob'' ''pw'']\<rparr>"

definition demo_resp :: http_response_ctx where
  "demo_resp = \<lparr>resp_status = 0, resp_headers = [], resp_body = [], resp_body_len = 0, resp_final = False\<rparr>"

section \<open>Devices\<close>

definition demo_pin :: "demo_world \<Rightarrow> nat \<Rightarrow> bool" where
  "demo_pin w i \<longleftrightarrow> i < length (dw_pins w) \<and> dw_pins w ! i"

definition demo_gpio :: "demo_world gpio_api" where
  "demo_gpio = \<lparr>device_is_ready = (\<lambda>w i. i < length (dw_pins w)),
     gpio_pin_configure = (\<lambda>w i. w\<lparr>dw_pins := (dw_pins w)[i := False]\<rparr>),
     gpio_pin_set = (\<lambda>w i b. w\<lparr>dw_pins := (dw_pins w)[i := b]\<rparr>)\<rparr>"

definition demo_msgq :: "demo_world msgq_api" where
  "demo_msgq = \<lparr>tx_put = (\<lambda>w m. (0, w\<lparr>dw_tx := drop (length (dw_tx w) - 15) (dw_tx w) @ [m], dw_put := dw_put w @ [m]\<rparr>)),
     tx_peek = (\<lambda>w. case dw_tx w of [] \<Rightarrow> (- ENOMSG, undefined) | m # _ \<Rightarrow> (0, m)),
     tx_get = (\<lambda>w. case dw_tx w of [] \<Rightarrow> (- ENOMSG, undefined, w) | m # ms \<Rightarrow> (0, m, w\<lparr>dw_tx := ms\<rparr>)),
     rx_put = (\<lambda>w m. if length (dw_rx w) < MSGQ_LEN then (0, w\<lparr>dw_rx := dw_rx w @ [m]\<rparr>) else (- ENOMSG, w)),
     rx_used = (\<lambda>w. length (dw_rx w)),
     rx_get = (\<lambda>w. case dw_rx w of [] \<Rightarrow> (- ENOMSG, undefined, w) | m # ms \<Rightarrow> (0, m, w\<lparr>dw_rx := ms\<rparr>))\<rparr>"

definition demo_queues :: "demo_world msgq_view" where
  "demo_queues = \<lparr>mv_tx = dw_tx, mv_rx = dw_rx, mv_put = dw_put\<rparr>"

text \<open>The demo client reads at most 100 bytes at a time and takes every packet.\<close>

definition demo_mqtt :: "demo_world mqtt_api" where
  "demo_mqtt = \<lparr>mqtt_publish = (\<lambda>w p. (0, w\<lparr>dw_published := dw_published w @ [p]\<rparr>)),
     mqtt_subscribe = (\<lambda>w ts i. (0, w)),
     mqtt_read_publish_payload = (\<lambda>w n. let bs = take (min n 100) (dw_payload w)
       in (int (length bs), bs, w\<lparr>dw_payload := drop (min n 100) (dw_payload w)\<rparr>)),
     mqtt_reply_send = (\<lambda>w r. (0, w\<lparr>dw_replies := dw_replies w @ [r]\<rparr>))\<rparr>"

definition demo_kernel :: "demo_world kernel_api" where
  "demo_kernel = \<lparr>k_sleep = (\<lambda>w. w), k_uptime_get = (\<lambda>w. ucast (dw_clock w)), k_uptime_seconds = dw_clock,
     sys_rand16_get = (\<lambda>w. (7, w)), hwinfo_get_device_id = (\<lambda>w n. (12, take 12 (replicate n (CHR 0xA5)))),
     inet_pton_ok = (\<lambda>s. s \<noteq> []), net_if_get_default = (\<lambda>w. True),
     net_if_ipv4_get_global_addr = (\<lambda>w. Some [CHR 0x0A, CHR 0x00, CHR 0x00, CHR 0x07]),
     net_addr_ntop = (\<lambda>a n. Some ''10.0.0.7'')\<rparr>"

lemma demo_gpio_lawful [simp]: "gpio_lawful demo_gpio demo_pin"
  by (auto simp: gpio_lawful_def demo_gpio_def demo_pin_def fun_eq_iff nth_list_update)

lemma demo_queues_simps [simp]:
  "mv_tx demo_queues = dw_tx" "mv_rx demo_queues = dw_rx" "mv_put demo_queues = dw_put"
  by (simp_all add: demo_queues_def)

lemma demo_msgq_tx_lawful [simp]: "msgq_tx_lawful demo_msgq demo_queues"
  by (auto simp: msgq_tx_lawful_def demo_msgq_def errno2 split: list.splits)

lemma demo_msgq_rx_lawful [simp]: "msgq_rx_lawful demo_msgq demo_queues"
  by (auto simp: msgq_rx_lawful_def demo_msgq_def errno2 split: list.splits)

lemma demo_payload_lawful [simp]: "payload_lawful demo_mqtt dw_payload"
  by (auto simp: payload_lawful_def demo_mqtt_def Let_def)


lemma demo_publish_lawful [simp]: "publish_lawful demo_mqtt demo_queues dw_published"
  by (auto simp: publish_lawful_def demo_mqtt_def)

lemma demo_tx_get_sends_nothing [simp]: "tx_get_sends_nothing demo_msgq dw_published"
  by (auto simp: tx_get_sends_nothing_def demo_msgq_def split: list.splits)

end
