(* ===== verification/User_List.thy ===== *)
theory User_List
  imports Demo_Platform
begin

text \<open>
  The user list of \<open>web/authentication.c\<close>: two slots, each a name and the SHA-256 of the
  password, kept in RAM (\<open>web_users_list\<close>) and stored in the settings as the memory image
  of the structure. A slot whose name is empty is free. The operations take the list and
  return its new value, with the world after the settings writes; \<open>users_init\<close> is the part
  of \<open>authentication_init\<close> that concerns the list.
\<close>

section \<open>Operations\<close>

definition DEFAULT_USERNAME :: string where "DEFAULT_USERNAME = ''admin''"
definition DEFAULT_PASSWORD :: string where "DEFAULT_PASSWORD = ''pass''"

definition load_users :: "byte list \<Rightarrow> web_users_list_t \<Rightarrow> web_users_list_t" where
  "load_users bs l = bytes_web_users (overlay bs (web_users_bytes l))"

definition get_web_users ::
  "'w sys_api \<Rightarrow> 'w \<Rightarrow> web_users_list_t option \<Rightarrow> int \<times> web_users_list_t option" where
  "get_web_users sys w users_list =
     (case users_list of None \<Rightarrow> (- EINVAL, None)
      | Some l \<Rightarrow>
          let (rc, bs) = settings_load_one sys w web_users_settings sizeof_web_users_list;
              l' = load_users bs l
          in if rc \<le> 0 then (- EIO, Some l')
             else (0, Some (l'\<lparr>wl_user := map (\<lambda>u. u\<lparr>wu_pass_hash := memset_zero (wu_pass_hash u) 1\<rparr>)
                                           (wl_user l')\<rparr>)))"

definition update_users ::
  "'w sys_api \<Rightarrow> 'w \<Rightarrow> web_users_list_t option \<Rightarrow> int \<times> 'w" where
  "update_users sys w users_list =
     (case users_list of None \<Rightarrow> (- EINVAL, w)
      | Some l \<Rightarrow>
          if wu_user (wl_user l ! 0) ! 0 = NUL then (- EINVAL, w)
          else let (rc, w') = settings_save_one sys w web_users_settings (web_users_bytes l)
               in if rc \<noteq> 0 then (- EIO, w') else (0, w'))"

definition calc_password_hash ::
  "'w sys_api \<Rightarrow> string \<Rightarrow> buffer \<Rightarrow> nat \<Rightarrow> int \<times> buffer" where
  "calc_password_hash sys password hash_hex hash_hex_size =
     (if hash_hex_size < 32 then (- EINVAL, hash_hex)
      else let (ret, h) = mbedtls_sha256 sys (cstr password)
           in (ret, overlay h (memset_zero hash_hex hash_hex_size)))"

definition users_init :: "'w sys_api \<Rightarrow> 'w \<Rightarrow> web_users_list_t \<Rightarrow> web_users_list_t \<times> 'w" where
  "users_init sys w l0 =
     (let (rc, bs) = settings_load_one sys w web_users_settings sizeof_web_users_list;
          l = load_users bs l0
      in if rc \<le> 0 then
           let u0 = wl_user l ! 0;
               hash = snd (calc_password_hash sys DEFAULT_PASSWORD (uninit sys w 32) 32);
               u0' = u0\<lparr>wu_user := strncpy (wu_user u0) DEFAULT_USERNAME MAX_USERNAME_LEN,
                        wu_pass_hash := memcpy_at (wu_pass_hash u0) 0 (take 32 hash)\<rparr>;
               l1 = l\<lparr>wl_changed := False, wl_user := (wl_user l)[0 := u0']\<rparr>
           in (l1, snd (settings_save_one sys w web_users_settings (web_users_bytes l1)))
         else (l, w))"

definition check_user_credentials ::
  "'w sys_api \<Rightarrow> 'w \<Rightarrow> web_users_list_t \<Rightarrow> string \<Rightarrow> string \<Rightarrow> bool" where
  "check_user_credentials sys w l username password =
     (let hash = snd (calc_password_hash sys password (uninit sys w 32) 32)
      in list_ex (\<lambda>u. strcmp_eq (wu_user u) username \<and> take 32 (wu_pass_hash u) = take 32 hash) (wl_user l))"

definition add_web_user ::
  "'w sys_api \<Rightarrow> 'w \<Rightarrow> web_users_list_t \<Rightarrow> string option \<Rightarrow> string option
     \<Rightarrow> int \<times> web_users_list_t \<times> 'w" where
  "add_web_user sys w l username password =
     (case (username, password) of
        (Some name, Some pass) \<Rightarrow>
          (case find_index (\<lambda>u. strcmp_eq (wu_user u) name \<or> wu_user u ! 0 = NUL) (wl_user l) of
             None \<Rightarrow> (- ENOSPC, l, w)
           | Some i \<Rightarrow>
               let u = wl_user l ! i in
               if strcmp_eq (wu_user u) name then (- EEXIST, l, w)
               else let (rc, hash) = calc_password_hash sys pass (uninit sys w MAX_PASS_HASH_LEN) MAX_PASS_HASH_LEN in
               if rc < 0 then (- EIO, l, w)
               else let u' = u\<lparr>wu_user := (strncpy (wu_user u) name MAX_USERNAME_LEN)[MAX_USERNAME_LEN - 1 := NUL],
                               wu_pass_hash := memcpy_at (wu_pass_hash u) 0 (take 32 hash)\<rparr>;
                        l' = l\<lparr>wl_user := (wl_user l)[i := u']\<rparr>;
                        (urc, w') = update_users sys w (Some l')
                    in if urc \<noteq> 0 then (- EIO, l', w') else (0, l', w'))
      | _ \<Rightarrow> (- EINVAL, l, w))"

definition num_users :: "web_users_list_t \<Rightarrow> nat" where
  "num_users l = length (filter (\<lambda>u. wu_user u ! 0 \<noteq> NUL) (wl_user l))"

definition delete_web_user ::
  "'w sys_api \<Rightarrow> 'w \<Rightarrow> web_users_list_t \<Rightarrow> string option \<Rightarrow> int \<times> web_users_list_t \<times> 'w" where
  "delete_web_user sys w l0 username =
     (let l = l0\<lparr>wl_changed := False\<rparr> in
      case username of
        None \<Rightarrow> (- EINVAL, l, w)
      | Some name \<Rightarrow>
          (case find_index (\<lambda>u. strcmp_eq (wu_user u) name) (wl_user l) of
             None \<Rightarrow> (- ENOENT, l, w)
           | Some i \<Rightarrow>
               if num_users l = 1 then (- EPERM, l, w)
               else let u = wl_user l ! i;
                        u' = u\<lparr>wu_user := memset_zero (wu_user u) MAX_USERNAME_LEN,
                               wu_pass_hash := memset_zero (wu_pass_hash u) MAX_PASS_HASH_LEN\<rparr>;
                        l' = l\<lparr>wl_changed := True, wl_user := (wl_user l)[i := u']\<rparr>;
                        (urc, w') = update_users sys w (Some l')
                    in if urc \<noteq> 0 then (- EIO, l', w') else (0, l', w')))"

section \<open>The abstract view\<close>

text \<open>
  A slot as a pair of its name and password digest, and the list as the list of these
  pairs. \<open>users_inv\<close>: the arrays have their declared sizes and the names end in them.
\<close>

definition user_name :: "web_user_t \<Rightarrow> string" where
  "user_name u = cstr (wu_user u)"

definition user_names :: "web_users_list_t \<Rightarrow> string list" where
  "user_names l = filter (\<lambda>n. n \<noteq> []) (map user_name (wl_user l))"

definition users_inv :: "web_users_list_t \<Rightarrow> bool" where
  "users_inv l \<longleftrightarrow> web_users_wf l \<and> (\<forall>u \<in> set (wl_user l). length (user_name u) < MAX_USERNAME_LEN)"

definition digest :: "'w sys_api \<Rightarrow> string \<Rightarrow> byte list" where
  "digest sys password = snd (mbedtls_sha256 sys (cstr password))"

text \<open>A name the user-management requests can pass: at most 31 bytes, not empty.\<close>

definition user_name_ok :: "string \<Rightarrow> bool" where
  "user_name_ok n \<longleftrightarrow> nul_free n \<and> n \<noteq> [] \<and> length n < MAX_USERNAME_LEN"

lemma users_inv_cases:
  assumes "users_inv l"
  obtains c u0 h0 u1 h1 where
    "l = \<lparr>wl_changed = c, wl_user = [\<lparr>wu_user = u0, wu_pass_hash = h0\<rparr>, \<lparr>wu_user = u1, wu_pass_hash = h1\<rparr>]\<rparr>"
    "length u0 = 32" "length h0 = 32" "length u1 = 32" "length h1 = 32"
    "length (cstr u0) < 32" "length (cstr u1) < 32"
proof -
  from assms have "web_users_wf l" by (simp add: users_inv_def)
  then obtain c u0 h0 u1 h1 where *:
    "l = \<lparr>wl_changed = c, wl_user = [\<lparr>wu_user = u0, wu_pass_hash = h0\<rparr>, \<lparr>wu_user = u1, wu_pass_hash = h1\<rparr>]\<rparr>"
    "length u0 = 32" "length h0 = 32" "length u1 = 32" "length h1 = 32"
    by (rule web_users_wf_cases)
  with assms show ?thesis
    by (intro that [of c u0 h0 u1 h1]) (simp_all add: users_inv_def user_name_def user_sizes)
qed

lemma users_inv_wf: "users_inv l \<Longrightarrow> web_users_wf l"
  by (simp add: users_inv_def)

lemma nth0_NUL_iff: "length b = 32 \<Longrightarrow> b ! 0 = NUL \<longleftrightarrow> cstr b = []"
  by (cases b) (auto simp: cstr_Cons)

lemma num_users_names: "users_inv l \<Longrightarrow> num_users l = length (user_names l)"
  by (erule users_inv_cases) (simp add: num_users_def user_names_def user_name_def nth0_NUL_iff)

lemma calc_password_hash_lawful:
  assumes "sha256_lawful sys"
  shows "fst (calc_password_hash sys p b 32) = 0"
    and "take 32 (snd (calc_password_hash sys p b 32)) = digest sys p"
  using assms by (auto simp: calc_password_hash_def digest_def sha256_lawful_def overlay_def
      split: prod.splits) (metis fst_conv, metis append_Nil2 diff_self_eq_0 order_refl snd_conv take0 take_all)

lemma length_digest: "sha256_lawful sys \<Longrightarrow> length (digest sys p) = 32"
  by (simp add: sha256_lawful_def digest_def)

text \<open>Credentials are accepted iff some slot has the name and the digest of the password.\<close>

lemma check_user_credentials_wf:
  assumes "sha256_lawful sys" and "web_users_wf l" and "nul_free name"
  shows "check_user_credentials sys w l name pass \<longleftrightarrow>
    (\<exists>u \<in> set (wl_user l). user_name u = name \<and> wu_pass_hash u = digest sys pass)"
  using assms
  by (auto simp: check_user_credentials_def Let_def calc_password_hash_lawful list_ex_iff
      strcmp_eq_def user_name_def cstr_id web_users_wf_def web_user_wf_def user_sizes)

lemmas check_user_credentials_iff = check_user_credentials_wf [OF _ users_inv_wf]

section \<open>Writing the list to the settings\<close>

lemma update_users_result:
  assumes "users_inv l"
  shows "update_users sys w (Some l) =
    (if user_name (wl_user l ! 0) = [] then (- EINVAL, w)
     else (if fst (settings_save_one sys w web_users_settings (web_users_bytes l)) = 0 then 0 else - EIO,
           snd (settings_save_one sys w web_users_settings (web_users_bytes l))))"
  using assms
  by (elim users_inv_cases) (auto simp: update_users_def user_name_def nth0_NUL_iff split: prod.splits)

lemma load_users_saved:
  "web_users_wf l \<Longrightarrow> web_users_wf l0 \<Longrightarrow> load_users (web_users_bytes l) l0 = l"
  by (simp add: load_users_def overlay_full length_web_users_bytes bytes_web_users_roundtrip)

lemma load_users_wf:
  "web_users_wf l0 \<Longrightarrow> length bs \<le> sizeof_web_users_list \<Longrightarrow> web_users_wf (load_users bs l0)"
  by (simp add: load_users_def bytes_web_users_wf length_web_users_bytes)

lemma sizeof_pos: "0 < sizeof_web_users_list"
  by (simp add: sizeof_web_users_list_def)

text \<open>What the settings hold is the image of a list.\<close>

definition stored_list :: "'w sys_api \<Rightarrow> 'w \<Rightarrow> web_users_list_t \<Rightarrow> bool" where
  "stored_list sys w l \<longleftrightarrow>
     settings_load_one sys w web_users_settings sizeof_web_users_list = (int sizeof_web_users_list, web_users_bytes l)"

lemma users_init_stored:
  assumes "stored_list sys w l" and "web_users_wf l" and "web_users_wf l0"
  shows "users_init sys w l0 = (l, w)"
  using assms sizeof_pos load_users_saved [OF assms(2,3)] by (simp add: users_init_def stored_list_def)

text \<open>A list that was saved is what the next start-up loads.\<close>

lemma users_init_saved:
  assumes "settings_lawful sys" and "web_users_wf l" and "web_users_wf l0"
    and "settings_save_one sys w web_users_settings (web_users_bytes l) = (0, w')"
  shows "users_init sys w' l0 = (l, w')"
proof -
  have len: "length (web_users_bytes l) = sizeof_web_users_list"
    using assms(2) by (rule length_web_users_bytes)
  with sizeof_pos have "web_users_bytes l \<noteq> []" by auto
  with assms(1,4) len have "stored_list sys w' l"
    unfolding stored_list_def settings_lawful_def settings_save_ok_def by (metis order_refl)
  then show ?thesis by (rule users_init_stored [OF _ assms(2,3)])
qed

section \<open>Adding a user\<close>

definition user_slot :: "string \<Rightarrow> byte list \<Rightarrow> web_user_t" where
  "user_slot name h = \<lparr>wu_user = name @ zeros (MAX_USERNAME_LEN - length name), wu_pass_hash = h\<rparr>"

lemma user_name_user_slot [simp]: "user_name_ok name \<Longrightarrow> user_name (user_slot name h) = name"
  by (simp add: user_name_def user_slot_def user_name_ok_def cstr_nul_pad)

lemma memcpy_hash: "length h = 32 \<Longrightarrow> length b = 32 \<Longrightarrow> memcpy_at b 0 h = h"
  by (simp add: memcpy_at_def)

text \<open>The slot the loop of \<open>add_web_user\<close> stops at.\<close>

abbreviation add_slot :: "web_users_list_t \<Rightarrow> string \<Rightarrow> nat option" where
  "add_slot l name \<equiv>
     find_index (\<lambda>u. strcmp_eq (wu_user u) name \<or> wu_user u ! 0 = NUL) (wl_user l)"

lemma add_web_user_eq:
  assumes sha: "sha256_lawful sys" and inv: "users_inv l" and name: "user_name_ok name"
  shows "add_web_user sys w l (Some name) (Some pass) =
    (case add_slot l name of None \<Rightarrow> (- ENOSPC, l, w)
     | Some i \<Rightarrow>
         if user_name (wl_user l ! i) = name then (- EEXIST, l, w)
         else let l' = l\<lparr>wl_user := (wl_user l)[i := user_slot name (digest sys pass)]\<rparr>;
                  (urc, w') = update_users sys w (Some l')
              in if urc \<noteq> 0 then (- EIO, l', w') else (0, l', w'))"
proof (cases "add_slot l name")
  case None
  then show ?thesis by (simp add: add_web_user_def)
next
  case (Some i)
  then have i: "i < length (wl_user l)" by (auto dest: find_index_SomeD)
  let ?u = "wl_user l ! i"
  have len: "length (wu_user ?u) = 32" "length (wu_pass_hash ?u) = 32"
    using inv i nth_mem [OF i] by (auto simp: users_inv_def web_users_wf_def web_user_wf_def user_sizes)
  have u': "?u\<lparr>wu_user := (strncpy (wu_user ?u) name 32)[31 := NUL],
              wu_pass_hash := memcpy_at (wu_pass_hash ?u) 0 (digest sys pass)\<rparr> =
           user_slot name (digest sys pass)"
    using name len strncpy_terminated_id [of name 32 "wu_user ?u"] length_digest [OF sha]
    by (simp add: user_slot_def user_name_ok_def user_sizes memcpy_hash)
  have cmp: "strcmp_eq (wu_user ?u) name \<longleftrightarrow> user_name ?u = name"
    using name by (simp add: strcmp_eq_def user_name_def user_name_ok_def cstr_id)
  obtain hash where h: "calc_password_hash sys pass (uninit sys w 32) 32 = (0, hash)" "take 32 hash = digest sys pass"
    using calc_password_hash_lawful [OF sha, of pass "uninit sys w 32"] by (metis prod.collapse)
  show ?thesis
    unfolding add_web_user_def using Some cmp h u' by (simp add: user_sizes Let_def split: prod.split)
qed

lemma users_inv_set_slot:
  assumes "users_inv l" and "i < MAX_USERS" and "web_user_wf u" and "length (user_name u) < MAX_USERNAME_LEN"
  shows "users_inv (l\<lparr>wl_user := (wl_user l)[i := u]\<rparr>)"
  using assms set_update_subset_insert [of "wl_user l" i u]
  by (auto simp: users_inv_def web_users_wf_def)

lemma user_slot_wf:
  "user_name_ok name \<Longrightarrow> length h = 32 \<Longrightarrow> web_user_wf (user_slot name h)"
  by (simp add: web_user_wf_def user_slot_def user_name_ok_def user_sizes)

lemma users_inv_length: "users_inv l \<Longrightarrow> length (wl_user l) = MAX_USERS"
  by (simp add: users_inv_def web_users_wf_def)

lemma add_slot_SomeD:
  assumes "users_inv l" and "user_name_ok name" and "add_slot l name = Some i"
  shows "i < MAX_USERS" and "user_name (wl_user l ! i) = name \<or> user_name (wl_user l ! i) = []"
proof -
  from assms(3) have i: "i < length (wl_user l)"
    and *: "strcmp_eq (wu_user (wl_user l ! i)) name \<or> wu_user (wl_user l ! i) ! 0 = NUL"
    by (auto dest: find_index_SomeD)
  with users_inv_length [OF assms(1)] show "i < MAX_USERS" by simp
  have "length (wu_user (wl_user l ! i)) = 32"
    using assms(1) i nth_mem [OF i] by (auto simp: users_inv_def web_users_wf_def web_user_wf_def user_sizes)
  with * assms(2) show "user_name (wl_user l ! i) = name \<or> user_name (wl_user l ! i) = []"
    by (auto simp: strcmp_eq_def user_name_def user_name_ok_def cstr_id nth0_NUL_iff)
qed

text \<open>
  The effect of an accepted request: a free slot now holds the name and the digest, the
  other slots are as before, and the settings hold the new list.
\<close>

lemma add_web_user_success:
  assumes "sha256_lawful sys" and inv: "users_inv l" and "user_name_ok name"
    and res: "add_web_user sys w l (Some name) (Some pass) = (0, l', w')"
  obtains i where "i < MAX_USERS" and "user_name (wl_user l ! i) = []"
    and "l' = l\<lparr>wl_user := (wl_user l)[i := user_slot name (digest sys pass)]\<rparr>"
    and "settings_save_one sys w web_users_settings (web_users_bytes l') = (0, w')"
    and "users_inv l'"
proof -
  from res add_web_user_eq [OF assms(1-3), of w pass] obtain i where i: "add_slot l name = Some i"
    and ne: "user_name (wl_user l ! i) \<noteq> name"
    and l': "l' = l\<lparr>wl_user := (wl_user l)[i := user_slot name (digest sys pass)]\<rparr>"
    and up: "update_users sys w (Some l') = (0, w')"
    by (auto simp: errno Let_def split: option.splits if_splits prod.splits)
  note slot = add_slot_SomeD [OF inv assms(3) i]
  have inv': "users_inv l'"
    using slot(1) assms(3) length_digest [OF assms(1)] unfolding l'
    by (intro users_inv_set_slot [OF inv]) (auto simp: user_slot_wf user_name_ok_def)
  have "settings_save_one sys w web_users_settings (web_users_bytes l') = (0, w')"
    using up update_users_result [OF inv', of sys w] by (auto simp: errno split: if_splits intro: prod_eqI)
  with slot ne l' inv' show ?thesis by (intro that [of i]) auto
qed

lemma add_web_user_credentials:
  assumes "sha256_lawful sys" and "users_inv l" and "user_name_ok name"
    and "add_web_user sys w l (Some name) (Some pass) = (0, l', w')"
  shows "check_user_credentials sys w1 l' name pass"
proof -
  obtain i where i: "i < MAX_USERS"
    and l': "l' = l\<lparr>wl_user := (wl_user l)[i := user_slot name (digest sys pass)]\<rparr>" and inv': "users_inv l'"
    using add_web_user_success [OF assms] by metis
  then have "user_slot name (digest sys pass) \<in> set (wl_user l')"
    using users_inv_length [OF assms(2)] by (simp add: set_update_memI)
  moreover have "user_name (user_slot name (digest sys pass)) = name"
    and "wu_pass_hash (user_slot name (digest sys pass)) = digest sys pass"
    using assms(3) by (simp_all, simp add: user_slot_def)
  ultimately show ?thesis
    using assms(3) check_user_credentials_iff [OF assms(1) inv', of name w1 pass]
    unfolding user_name_ok_def by blast
qed

section \<open>Deleting a user\<close>

definition free_slot :: web_user_t where
  "free_slot = \<lparr>wu_user = zeros MAX_USERNAME_LEN, wu_pass_hash = zeros MAX_PASS_HASH_LEN\<rparr>"

lemma user_name_free_slot [simp]: "user_name free_slot = []"
  by (simp add: user_name_def free_slot_def)

lemma free_slot_wf: "web_user_wf free_slot" "length (user_name free_slot) < MAX_USERNAME_LEN"
  by (simp_all add: web_user_wf_def free_slot_def user_name_def user_sizes)

lemma web_user_nth_lengths:
  assumes "users_inv l" and "i < MAX_USERS"
  shows "length (wu_user (wl_user l ! i)) = 32" and "length (wu_pass_hash (wl_user l ! i)) = 32"
  using assms nth_mem [of i "wl_user l"] users_inv_length [OF assms(1)]
  by (auto simp: users_inv_def web_users_wf_def web_user_wf_def user_sizes)

lemma find_name:
  "nul_free name \<Longrightarrow>
     find_index (\<lambda>u. strcmp_eq (wu_user u) name) us = find_index (\<lambda>u. user_name u = name) us"
  by (simp add: strcmp_eq_def user_name_def cstr_id)

lemma delete_web_user_eq:
  assumes inv: "users_inv l" and name: "nul_free name"
  shows "delete_web_user sys w l (Some name) =
    (case find_index (\<lambda>u. user_name u = name) (wl_user l) of
       None \<Rightarrow> (- ENOENT, l\<lparr>wl_changed := False\<rparr>, w)
     | Some i \<Rightarrow>
         if num_users l = 1 then (- EPERM, l\<lparr>wl_changed := False\<rparr>, w)
         else let l' = l\<lparr>wl_changed := True, wl_user := (wl_user l)[i := free_slot]\<rparr>;
                  (urc, w') = update_users sys w (Some l')
              in if urc \<noteq> 0 then (- EIO, l', w') else (0, l', w'))"
proof (cases "find_index (\<lambda>u. user_name u = name) (wl_user l)")
  case None
  then show ?thesis by (simp add: delete_web_user_def find_name [OF name])
next
  case (Some i)
  then have "i < MAX_USERS" using users_inv_length [OF inv] by (auto dest: find_index_SomeD)
  note len = web_user_nth_lengths [OF inv this]
  let ?u = "wl_user l ! i"
  have u': "?u\<lparr>wu_user := memset_zero (wu_user ?u) MAX_USERNAME_LEN,
               wu_pass_hash := memset_zero (wu_pass_hash ?u) MAX_PASS_HASH_LEN\<rparr> = free_slot"
    using len by (simp add: free_slot_def memset_zero_def user_sizes)
  have n: "num_users (l\<lparr>wl_changed := False\<rparr>) = num_users l" by (simp add: num_users_def)
  from Some show ?thesis
    unfolding delete_web_user_def Let_def by (simp add: find_name [OF name] n u' split: prod.split)
qed

lemma num_users_update:
  assumes inv: "users_inv l" and i: "i < MAX_USERS" and u: "web_user_wf u"
  shows "num_users (l\<lparr>wl_changed := c, wl_user := (wl_user l)[i := u]\<rparr>) +
      (if user_name (wl_user l ! i) = [] then 0 else 1) =
    num_users l + (if user_name u = [] then 0 else 1)"
proof -
  have "length (wu_user u) = 32" using u by (simp add: web_user_wf_def user_sizes)
  moreover from i have "i = 0 \<or> i = 1" by (auto simp: user_sizes)
  ultimately show ?thesis
    using inv by (elim users_inv_cases) (auto simp: num_users_def user_name_def nth0_NUL_iff)
qed

lemma num_users_changed [simp]: "num_users (l\<lparr>wl_changed := c\<rparr>) = num_users l"
  by (simp add: num_users_def)

lemma users_inv_changed [simp]: "users_inv (l\<lparr>wl_changed := c\<rparr>) = users_inv l"
  by (simp add: users_inv_def web_users_wf_def)

lemma delete_web_user_success:
  assumes inv: "users_inv l" and name: "user_name_ok name"
    and res: "delete_web_user sys w l (Some name) = (0, l', w')"
  obtains i where "i < MAX_USERS" and "user_name (wl_user l ! i) = name"
    and "l' = l\<lparr>wl_changed := True, wl_user := (wl_user l)[i := free_slot]\<rparr>"
    and "settings_save_one sys w web_users_settings (web_users_bytes l') = (0, w')"
    and "users_inv l'"
proof -
  have nf: "nul_free name" using name by (simp add: user_name_ok_def)
  from res delete_web_user_eq [OF inv nf, of sys w] obtain i
    where i: "find_index (\<lambda>u. user_name u = name) (wl_user l) = Some i"
      and l': "l' = l\<lparr>wl_changed := True, wl_user := (wl_user l)[i := free_slot]\<rparr>"
      and up: "update_users sys w (Some l') = (0, w')"
    by (auto simp: errno Let_def split: option.splits if_splits prod.splits)
  then have im: "i < MAX_USERS" "user_name (wl_user l ! i) = name"
    using users_inv_length [OF inv] by (auto dest: find_index_SomeD)
  have "users_inv (l\<lparr>wl_user := (wl_user l)[i := free_slot]\<rparr>)"
    by (rule users_inv_set_slot [OF inv im(1) free_slot_wf])
  then have inv': "users_inv l'" unfolding l' by (simp add: users_inv_def web_users_wf_def)
  have "settings_save_one sys w web_users_settings (web_users_bytes l') = (0, w')"
    using up update_users_result [OF inv', of sys w] by (auto simp: errno split: if_splits intro: prod_eqI)
  with im l' inv' show ?thesis by (intro that [of i]) auto
qed

lemma get_web_users_saved:
  assumes "users_inv l"
    and "settings_load_one sys w web_users_settings sizeof_web_users_list =
      (int sizeof_web_users_list, web_users_bytes l)"
  shows "\<exists>l'. get_web_users sys w (Some web_users_zero) = (0, Some l') \<and>
    map wu_user (wl_user l') = map wu_user (wl_user l) \<and>
    map wu_pass_hash (wl_user l') = map (\<lambda>u. NUL # tl (wu_pass_hash u)) (wl_user l)"
proof -
  have "load_users (web_users_bytes l) web_users_zero = l"
    by (simp add: load_users_saved users_inv_wf [OF assms(1)])
  with assms(2) sizeof_pos show ?thesis
    by (auto simp: get_web_users_def memset_zero_def drop_Suc)
qed

section \<open>Concrete lists\<close>

lemma demo_users_inv: "users_inv demo_users1" "users_inv demo_users2" "users_inv demo_users3"
  by code_simp+

lemma demo_names_ok: "user_name_ok ''admin''" "user_name_ok ''bob''"
  by code_simp+

lemma demo_add_bob:
  "add_web_user demo_sys demo_init demo_users1 (Some ''bob'') (Some ''pw'') =
     (0, demo_users2, snd (settings_save_one demo_sys demo_init web_users_settings (web_users_bytes demo_users2)))"
  by code_simp

section \<open>Properties\<close>

text \<open>
  After \<open>add_web_user\<close> has returned 0 the new user can log in with the password that
  was given, and every user who could log in before still can.
\<close>

lemma add_web_user_then_login:
  assumes "sha256_lawful sys" and "users_inv l" and "user_name_ok name"
    and "add_web_user sys w l (Some name) (Some pass) = (0, l', w')"
  shows "check_user_credentials sys w1 l' name pass \<and>
    (\<forall>n p. user_name_ok n \<and> check_user_credentials sys w1 l n p \<longrightarrow> check_user_credentials sys w1 l' n p)"
proof -
  obtain i where i: "i < MAX_USERS" "user_name (wl_user l ! i) = []"
    and l': "l' = l\<lparr>wl_user := (wl_user l)[i := user_slot name (digest sys pass)]\<rparr>" and inv': "users_inv l'"
    using add_web_user_success [OF assms] by metis
  have len: "i < length (wl_user l)" using i(1) users_inv_length [OF assms(2)] by simp
  have "check_user_credentials sys w1 l' name pass" by (rule add_web_user_credentials [OF assms])
  moreover have "check_user_credentials sys w1 l' n p"
    if n: "user_name_ok n" and c: "check_user_credentials sys w1 l n p" for n p
  proof -
    from n have nf: "nul_free n" by (simp add: user_name_ok_def)
    from c obtain j where j: "j < length (wl_user l)" "user_name (wl_user l ! j) = n"
      "wu_pass_hash (wl_user l ! j) = digest sys p"
      by (auto simp: check_user_credentials_iff [OF assms(1,2) nf] in_set_conv_nth)
    with n i(2) have "j \<noteq> i" by (auto simp: user_name_ok_def)
    then have "wl_user l' ! j = wl_user l ! j" and "j < length (wl_user l')" using j(1) unfolding l' by auto
    with j have "wl_user l ! j \<in> set (wl_user l')" by (metis nth_mem)
    with j show ?thesis
      using check_user_credentials_iff [OF assms(1) inv' nf] by blast
  qed
  ultimately show ?thesis by blast
qed

lemma add_web_user_then_login_witness:
  "check_user_credentials demo_sys demo_init demo_users2 ''bob'' ''pw''"
  using add_web_user_then_login [OF demo_sha256_lawful demo_users_inv(1) demo_names_ok(2) demo_add_bob]
  by blast

text \<open>
  C16. A change of the user list that was answered with 0, by adding or by deleting a user,
  is in the settings: a restart loads exactly the list that was in RAM.
\<close>

theorem user_change_survives_restart:
  assumes "settings_lawful sys" and "sha256_lawful sys" and "users_inv l" and "user_name_ok name"
    and "add_web_user sys w l (Some name) (Some pass) = (0, l', w') \<or>
      delete_web_user sys w l (Some name) = (0, l', w')"
  shows "users_init sys w' web_users_zero = (l', w')"
proof -
  have "users_inv l' \<and> settings_save_one sys w web_users_settings (web_users_bytes l') = (0, w')"
    using assms(5) add_web_user_success [OF assms(2-4), of w pass l' w']
      delete_web_user_success [OF assms(3,4), of sys w l' w'] by metis
  then show ?thesis
    using users_init_saved [OF assms(1), of l' web_users_zero w w'] by (simp add: users_inv_wf)
qed

theorem user_change_survives_restart_witness:
  "\<exists>w'. users_init demo_sys w' web_users_zero = (demo_users2, w')"
  using user_change_survives_restart
    [OF demo_settings_lawful demo_sha256_lawful demo_users_inv(1) demo_names_ok(2) disjI1 [OF demo_add_bob]]
  by blast

text \<open>
  \<open>delete_web_user\<close>, whatever name it is given, never leaves the list without a user,
  also when it fails half-way.
\<close>

lemma delete_web_user_keeps_a_user:
  assumes "users_inv l" and "1 \<le> num_users l" and "nul_free name"
    and "delete_web_user sys w l (Some name) = (rc, l', w')"
  shows "1 \<le> num_users l' \<and> users_inv l'"
proof (cases "find_index (\<lambda>u. user_name u = name) (wl_user l)")
  case None
  with assms delete_web_user_eq [OF assms(1,3), of sys w] show ?thesis by auto
next
  case (Some i)
  show ?thesis
  proof (cases "num_users l = 1")
    case True
    with Some assms delete_web_user_eq [OF assms(1,3), of sys w] show ?thesis by auto
  next
    case False
    have i: "i < MAX_USERS"
      using Some users_inv_length [OF assms(1)] by (auto dest: find_index_SomeD)
    from Some False assms(4) delete_web_user_eq [OF assms(1,3), of sys w]
    have l': "l' = l\<lparr>wl_changed := True, wl_user := (wl_user l)[i := free_slot]\<rparr>"
      by (auto simp: Let_def split: prod.splits if_splits)
    have "users_inv l'"
      using users_inv_set_slot [OF assms(1) i free_slot_wf] unfolding l'
      by (simp add: users_inv_def web_users_wf_def)
    with num_users_update [OF assms(1) i free_slot_wf(1), of True] False assms(2)
    show ?thesis unfolding l' by (auto split: if_splits)
  qed
qed

lemma delete_web_user_keeps_a_user_witness:
  "1 \<le> num_users (fst (snd (delete_web_user demo_sys demo_init demo_users2 (Some ''bob''))))"
proof -
  have "1 \<le> num_users demo_users2" by code_simp
  then show ?thesis
    using delete_web_user_keeps_a_user [OF demo_users_inv(2), of "''bob''" demo_sys demo_init]
    by (metis nul_free_def prod.collapse demo_names_ok(2) user_name_ok_def)
qed

text \<open>
  C38. Deleting the user in the first slot does not work: the slot is cleared in RAM, so the
  user can no longer log in, but nothing is written to the settings and the request fails
  with \<open>-EIO\<close> (\<open>update_users\<close> refuses a list whose first slot is free). When the settings
  held the list before, a restart in any world with the same stored list brings it back, and
  the deleted user can log in as before.
\<close>

theorem delete_first_user_not_persisted:
  assumes "sha256_lawful sys" and "users_inv l" and "stored_list sys w l" and "user_name (wl_user l ! 0) = name"
    and "name \<noteq> []" and "user_name (wl_user l ! 1) \<noteq> []" and "user_name (wl_user l ! 1) \<noteq> name"
  shows "\<exists>l'. delete_web_user sys w l (Some name) = (- EIO, l', w) \<and>
    user_names l' = [user_name (wl_user l ! 1)] \<and> (\<forall>w1 p. \<not> check_user_credentials sys w1 l' name p) \<and>
    (\<forall>w2. stored_list sys w2 = stored_list sys w \<longrightarrow> (\<exists>l2. users_init sys w2 web_users_zero = (l2, w2) \<and>
       user_names l2 = [name, user_name (wl_user l ! 1)] \<and>
       (\<forall>w1 p. check_user_credentials sys w1 l2 name p = check_user_credentials sys w1 l name p)))"
proof -
  from assms(4) have nf: "nul_free name" by (auto simp: user_name_def)
  have ne: "wl_user l \<noteq> []" using users_inv_length [OF assms(2)] by (auto simp: user_sizes)
  then have f: "find_index (\<lambda>u. user_name u = name) (wl_user l) = Some 0"
    using assms(4) by (cases "wl_user l") auto
  have n: "num_users l \<noteq> 1"
    using assms(2,4-6) by (elim users_inv_cases) (auto simp: num_users_def user_name_def nth0_NUL_iff)
  let ?l' = "l\<lparr>wl_changed := True, wl_user := (wl_user l)[0 := free_slot]\<rparr>"
  have inv: "users_inv ?l'"
    using users_inv_set_slot [OF assms(2) _ free_slot_wf, of 0]
    by (simp add: users_inv_def web_users_wf_def user_sizes)
  then have "update_users sys w (Some ?l') = (- EINVAL, w)"
    using ne by (subst update_users_result) simp_all
  with f n have "delete_web_user sys w l (Some name) = (- EIO, ?l', w)"
    by (simp add: delete_web_user_eq [OF assms(2) nf] errno)
  moreover have "user_names ?l' = [user_name (wl_user l ! 1)]" and names: "user_names l = [name, user_name (wl_user l ! 1)]"
    using assms(2,4-6) by (elim users_inv_cases; simp add: user_names_def)+
  moreover have "\<not> check_user_credentials sys w1 ?l' name p" for w1 p
    using assms(2,5,7) by (subst check_user_credentials_iff [OF assms(1) inv nf]) (elim users_inv_cases, auto)
  moreover have "users_init sys w2 web_users_zero = (l, w2)" if "stored_list sys w2 = stored_list sys w" for w2
    using users_init_stored [of sys w2 l] assms(3) that by (simp add: users_inv_wf [OF assms(2)])
  ultimately show ?thesis by blast
qed

theorem delete_first_user_not_persisted_witness:
  "\<exists>w l'. delete_web_user demo_sys w demo_users2 (Some ''admin'') = (- EIO, l', w) \<and> user_names l' = [''bob''] \<and>
     user_names (fst (users_init demo_sys w web_users_zero)) = [''admin'', ''bob'']"
proof -
  let ?w = "demo_init\<lparr>dw_settings := [(web_users_settings, web_users_bytes demo_users2)]\<rparr>"
  have st: "stored_list demo_sys ?w demo_users2"
    using length_web_users_bytes [OF users_inv_wf [OF demo_users_inv(2)]]
    by (simp add: stored_list_def demo_sys_def demo_load_def)
  have "user_name (wl_user demo_users2 ! 0) = ''admin''" and b: "user_name (wl_user demo_users2 ! 1) = ''bob''"
    by code_simp+
  from delete_first_user_not_persisted [OF demo_sha256_lawful demo_users_inv(2) st this(1)] b
  obtain l' where l': "delete_web_user demo_sys ?w demo_users2 (Some ''admin'') = (- EIO, l', ?w)" "user_names l' = [''bob'']"
    and "\<exists>l2. users_init demo_sys ?w web_users_zero = (l2, ?w) \<and> user_names l2 = [''admin'', ''bob'']" by fastforce
  then show ?thesis by (intro exI [of _ ?w] exI [of _ l']) auto
qed

text \<open>
  When the first slot is free (as it is in RAM after a failed delete of the first user)
  and the second holds a name, adding that very name is not refused: the list ends with
  the same name in both slots.
\<close>

lemma add_web_user_duplicate_name:
  assumes "sha256_lawful sys" and "users_inv l" and "user_name_ok name"
    and "user_name (wl_user l ! 0) = []" and "user_name (wl_user l ! 1) = name"
    and "\<And>v. fst (settings_save_one sys w web_users_settings v) = 0"
  shows "\<exists>l' w'. add_web_user sys w l (Some name) (Some pass) = (0, l', w') \<and> user_names l' = [name, name]"
proof -
  have s: "add_slot l name = Some 0"
    using assms(2,4) by (elim users_inv_cases) (auto simp: user_name_def nth0_NUL_iff)
  let ?l' = "l\<lparr>wl_user := (wl_user l)[0 := user_slot name (digest sys pass)]\<rparr>"
  have inv': "users_inv ?l'"
    using assms(3) length_digest [OF assms(1)]
    by (intro users_inv_set_slot [OF assms(2)]) (auto simp: user_slot_wf user_name_ok_def user_sizes)
  have "name \<noteq> []" using assms(3) by (simp add: user_name_ok_def)
  have ne: "0 < length (wl_user l)" using users_inv_length [OF assms(2)] by (simp add: user_sizes)
  have "fst (update_users sys w (Some ?l')) = 0"
    using assms(3,6) ne \<open>name \<noteq> []\<close> by (subst update_users_result [OF inv']) simp
  with s assms(4) \<open>name \<noteq> []\<close>
  have "add_web_user sys w l (Some name) (Some pass) = (0, ?l', snd (update_users sys w (Some ?l')))"
    by (auto simp: add_web_user_eq [OF assms(1-3)] Let_def split: prod.splits)
  moreover have "user_names ?l' = [name, name]"
    using assms(2,3,5) \<open>name \<noteq> []\<close> by (elim users_inv_cases) (simp add: user_names_def)
  ultimately show ?thesis by blast
qed

lemma add_web_user_duplicate_name_witness:
  "\<exists>l' w'. add_web_user demo_sys demo_init demo_users3 (Some ''bob'') (Some ''pw'') = (0, l', w') \<and>
     user_names l' = [''bob'', ''bob'']"
proof -
  have "user_name (wl_user demo_users3 ! 0) = []" and "user_name (wl_user demo_users3 ! 1) = ''bob''"
    by code_simp+
  moreover have "fst (settings_save_one demo_sys demo_init web_users_settings v) = 0" for v
    by (simp add: demo_sys_def demo_save_def)
  ultimately show ?thesis
    by (intro add_web_user_duplicate_name [OF demo_sha256_lawful demo_users_inv(3) demo_names_ok(2)])
qed

text \<open>
  \<open>get_web_users\<close> means to blank the password hashes before it hands the list out, but
  clears one byte of each: on a stored list it returns every name and all of every hash
  but its first byte.
\<close>

lemma get_web_users_keeps_hash_tail:
  assumes "users_inv l"
    and "settings_load_one sys w web_users_settings sizeof_web_users_list =
      (int sizeof_web_users_list, web_users_bytes l)"
  shows "\<exists>l'. get_web_users sys w (Some web_users_zero) = (0, Some l') \<and>
    map wu_user (wl_user l') = map wu_user (wl_user l) \<and>
    map wu_pass_hash (wl_user l') = map (\<lambda>u. NUL # tl (wu_pass_hash u)) (wl_user l)"
  by (rule get_web_users_saved [OF assms])

lemma get_web_users_keeps_hash_tail_witness:
  "\<exists>w l'. get_web_users demo_sys w (Some web_users_zero) = (0, Some l') \<and>
     map wu_pass_hash (wl_user l') = map (\<lambda>u. NUL # tl (wu_pass_hash u)) (wl_user demo_users2)"
proof -
  let ?w = "demo_init\<lparr>dw_settings := [(web_users_settings, web_users_bytes demo_users2)]\<rparr>"
  have "settings_load_one demo_sys ?w web_users_settings sizeof_web_users_list =
      (int sizeof_web_users_list, web_users_bytes demo_users2)"
    using length_web_users_bytes [OF users_inv_wf [OF demo_users_inv(2)]]
    by (simp add: demo_sys_def demo_load_def)
  from get_web_users_keeps_hash_tail [OF demo_users_inv(2) this] show ?thesis by blast
qed

text \<open>
  On a device with no stored users, start-up creates the account \<open>admin\<close> with the
  password \<open>pass\<close>, in RAM and in the settings.
\<close>

lemma first_start_creates_admin:
  assumes "settings_load_ok sys" and "sha256_lawful sys"
    and "fst (settings_load_one sys w web_users_settings sizeof_web_users_list) \<le> 0"
    and "users_init sys w web_users_zero = (l, w')"
  shows "users_inv l \<and> user_names l = [''admin''] \<and> check_user_credentials sys w1 l ''admin'' ''pass'' \<and>
    w' = snd (settings_save_one sys w web_users_settings (web_users_bytes l))"
proof -
  obtain rc where rc: "settings_load_one sys w web_users_settings sizeof_web_users_list = (rc, [])" "rc \<le> 0"
    using assms(1,3) unfolding settings_load_ok_def by (metis prod.collapse)
  have l0: "load_users [] web_users_zero = web_users_zero"
    by (simp add: load_users_def bytes_web_users_roundtrip)
  have z: "web_users_zero = \<lparr>wl_changed = False, wl_user = [free_slot, free_slot]\<rparr>"
    by (simp add: web_users_zero_def free_slot_def user_sizes numeral_2_eq_2)
  have "l = \<lparr>wl_changed = False, wl_user = [user_slot ''admin'' (digest sys ''pass''), free_slot]\<rparr> \<and>
    w' = snd (settings_save_one sys w web_users_settings (web_users_bytes l))"
    using assms(4) rc l0 calc_password_hash_lawful(2) [OF assms(2)] length_digest [OF assms(2), of "''pass''"]
    by (auto simp: users_init_def Let_def z DEFAULT_USERNAME_def DEFAULT_PASSWORD_def
        user_slot_def free_slot_def strncpy_def cstr_id memcpy_hash user_sizes)
  moreover have "user_name_ok ''admin''" by (simp add: user_name_ok_def user_sizes)
  ultimately have inv: "users_inv l" and l: "wl_user l = [user_slot ''admin'' (digest sys ''pass''), free_slot]"
    and w': "w' = snd (settings_save_one sys w web_users_settings (web_users_bytes l))"
    using length_digest [OF assms(2)] free_slot_wf user_slot_wf [of "''admin''" "digest sys ''pass''"]
    by (auto simp: users_inv_def web_users_wf_def user_sizes)
  moreover have "check_user_credentials sys w1 l ''admin'' ''pass''"
    using user_name_user_slot [OF \<open>user_name_ok ''admin''\<close>] check_user_credentials_iff [OF assms(2) inv, of "''admin''"]
    by (simp add: l) (simp add: user_slot_def)
  ultimately show ?thesis
    using \<open>user_name_ok ''admin''\<close> by (simp add: user_names_def)
qed

lemma first_start_creates_admin_witness:
  "user_names (fst (users_init demo_sys demo_init web_users_zero)) = [''admin'']"
proof -
  have "fst (settings_load_one demo_sys demo_init web_users_settings sizeof_web_users_list) \<le> 0"
    by (simp add: demo_sys_def demo_load_def demo_init_def errno)
  from first_start_creates_admin [OF demo_settings_load_ok demo_sha256_lawful this, of _ _ demo_init]
  show ?thesis by (metis prod.collapse)
qed

end
