(* ===== verification/Session_Table.thy ===== *)
theory Session_Table
  imports Platform
begin

text \<open>
  The session table of \<open>web/authentication.c\<close>: ten slots, each a token and its expiry time,
  with the two operations the login uses. \<open>check_token_at\<close> and \<open>store_session_at\<close> are the
  bodies of \<open>check_token_valid\<close> and \<open>store_session_token\<close> after they have read the clock.
  The abstract view of a table is the partial function from tokens to expiry times
  (\<open>session_expiry\<close>); the locale \<open>session_store\<close> states what a session table promises over
  that view, and this table is an instance of it.
\<close>

section \<open>The table and its operations\<close>

definition MAX_SESSIONS :: nat where "MAX_SESSIONS = 10"
definition SESSION_LIFETIME_SEC :: u32 where "SESSION_LIFETIME_SEC = 3600"
definition SESSION_TOKEN_SIZE :: nat where "SESSION_TOKEN_SIZE = 128"

record web_session_t =
  ss_expires :: u32
  ss_token :: buffer

definition web_session_zero :: web_session_t where
  "web_session_zero = \<lparr>ss_expires = 0, ss_token = zeros SESSION_TOKEN_SIZE\<rparr>"

definition store_in_slot :: "web_session_t list \<Rightarrow> nat \<Rightarrow> u32 \<Rightarrow> string \<Rightarrow> web_session_t list" where
  "store_in_slot ss i now token =
     ss[i := \<lparr>ss_expires = now + SESSION_LIFETIME_SEC,
              ss_token = strncpy (ss_token (ss ! i)) token SESSION_TOKEN_SIZE\<rparr>]"

fun oldest_from :: "web_session_t list \<Rightarrow> nat \<Rightarrow> nat \<Rightarrow> u32 \<Rightarrow> nat" where
  "oldest_from [] i oldest_idx oldest_time = oldest_idx"
| "oldest_from (s # ss) i oldest_idx oldest_time =
     (if ss_expires s < oldest_time then oldest_from ss (Suc i) i (ss_expires s)
      else oldest_from ss (Suc i) oldest_idx oldest_time)"

definition store_session_at :: "u32 \<Rightarrow> string \<Rightarrow> web_session_t list \<Rightarrow> web_session_t list" where
  "store_session_at now token ss =
     (case find_index (\<lambda>s. ss_token s ! 0 = NUL) ss of
        Some i \<Rightarrow> store_in_slot ss i now token
      | None \<Rightarrow> store_in_slot ss (oldest_from (tl ss) 1 0 (ss_expires (hd ss))) now token)"

definition check_token_at :: "u32 \<Rightarrow> string \<Rightarrow> web_session_t list \<Rightarrow> bool \<times> web_session_t list" where
  "check_token_at now token ss =
     (case find_index (\<lambda>s. strlen (ss_token s) \<noteq> 0 \<and> strcmp_eq (ss_token s) token) ss of
        None \<Rightarrow> (False, ss)
      | Some i \<Rightarrow>
          if now < ss_expires (ss ! i) then (True, ss)
          else (False, ss[i := (ss ! i)\<lparr>ss_token := (ss_token (ss ! i))[0 := NUL]\<rparr>]))"

section \<open>The abstract view\<close>

definition slot_name :: "web_session_t \<Rightarrow> string" where
  "slot_name s = cstr (ss_token s)"

definition session_expiry :: "web_session_t list \<Rightarrow> string \<Rightarrow> u32 option" where
  "session_expiry ss token =
     (if token = [] then None
      else map_option (\<lambda>i. ss_expires (ss ! i)) (find_index (\<lambda>s. slot_name s = token) ss))"

text \<open>A string that can name a session: what the request code passes to the table.\<close>

definition session_name :: "string \<Rightarrow> bool" where
  "session_name t \<longleftrightarrow> nul_free t \<and> t \<noteq> [] \<and> length t < SESSION_TOKEN_SIZE"

definition slot_wf :: "web_session_t \<Rightarrow> bool" where
  "slot_wf s \<longleftrightarrow> length (ss_token s) = SESSION_TOKEN_SIZE \<and> length (slot_name s) < SESSION_TOKEN_SIZE"

definition sessions_inv :: "web_session_t list \<Rightarrow> bool" where
  "sessions_inv ss \<longleftrightarrow>
     length ss = MAX_SESSIONS \<and> (\<forall>s \<in> set ss. slot_wf s) \<and>
     (\<forall>i < length ss. \<forall>j < length ss.
        slot_name (ss ! i) \<noteq> [] \<longrightarrow> slot_name (ss ! i) = slot_name (ss ! j) \<longrightarrow> i = j)"

lemma slot_wf_nonempty: "slot_wf s \<Longrightarrow> ss_token s \<noteq> []"
  by (auto simp: slot_wf_def SESSION_TOKEN_SIZE_def)

lemma slot_name_empty_iff: "slot_wf s \<Longrightarrow> slot_name s = [] \<longleftrightarrow> ss_token s ! 0 = NUL"
  using slot_wf_nonempty [of s] by (auto simp: slot_name_def cstr_eq_Nil_iff hd_conv_nth)

lemma sessions_inv_nth: "sessions_inv ss \<Longrightarrow> i < length ss \<Longrightarrow> slot_wf (ss ! i)"
  by (auto simp: sessions_inv_def)

lemma sessions_inv_unique:
  "sessions_inv ss \<Longrightarrow> i < length ss \<Longrightarrow> j < length ss \<Longrightarrow> slot_name (ss ! i) = slot_name (ss ! j) \<Longrightarrow>
     slot_name (ss ! i) \<noteq> [] \<Longrightarrow> i = j"
  unfolding sessions_inv_def by blast

lemma session_expiry_Nil [simp]: "session_expiry ss [] = None"
  by (simp add: session_expiry_def)

lemma session_expiry_nth:
  assumes "sessions_inv ss" and "i < length ss" and "slot_name (ss ! i) = t" and "t \<noteq> []"
  shows "session_expiry ss t = Some (ss_expires (ss ! i))"
proof -
  have "find_index (\<lambda>s. slot_name s = t) ss = Some i"
  proof (rule find_index_first)
    fix j assume "j < i"
    with assms show "slot_name (ss ! j) \<noteq> t" using sessions_inv_unique [of ss i j] by auto
  qed (use assms in auto)
  with assms(4) show ?thesis by (simp add: session_expiry_def)
qed

lemma session_expiry_SomeD:
  "session_expiry ss t = Some e \<Longrightarrow>
     t \<noteq> [] \<and> (\<exists>i < length ss. slot_name (ss ! i) = t \<and> ss_expires (ss ! i) = e)"
  by (auto simp: session_expiry_def split: if_splits dest: find_index_SomeD)

lemma session_expiry_None_iff:
  "session_expiry ss t = None \<longleftrightarrow> t = [] \<or> (\<forall>i < length ss. slot_name (ss ! i) \<noteq> t)"
  by (auto simp: session_expiry_def find_index_None_iff all_set_conv_all_nth)

text \<open>Overwriting one slot: the one lemma both operations are proved from.\<close>

lemma sessions_inv_update:
  assumes inv: "sessions_inv ss" and i: "i < length ss" and wf: "slot_wf s"
    and new: "slot_name s = [] \<or> (\<forall>j < length ss. j \<noteq> i \<longrightarrow> slot_name (ss ! j) \<noteq> slot_name s)"
  shows "sessions_inv (ss[i := s])"
proof -
  have "\<forall>x \<in> set (ss[i := s]). slot_wf x"
    using inv wf set_update_subset_insert [of ss i s] by (auto simp: sessions_inv_def)
  moreover have "a = b" if "a < length ss" "b < length ss" "slot_name (ss[i := s] ! a) \<noteq> []"
    "slot_name (ss[i := s] ! a) = slot_name (ss[i := s] ! b)" for a b
  proof (cases "a = i \<or> b = i")
    case True
    with that i new show ?thesis by (auto simp: nth_list_update split: if_splits)
  next
    case False
    with that have "slot_name (ss ! a) \<noteq> []" "slot_name (ss ! a) = slot_name (ss ! b)" by auto
    with inv that(1,2) show ?thesis unfolding sessions_inv_def by blast
  qed
  ultimately show ?thesis using inv by (simp add: sessions_inv_def)
qed

lemma session_expiry_update:
  assumes inv: "sessions_inv ss" and inv': "sessions_inv (ss[i := s])" and i: "i < length ss"
  shows "session_expiry (ss[i := s]) t =
    (if t = [] then None else if slot_name s = t then Some (ss_expires s)
     else if slot_name (ss ! i) = t then None else session_expiry ss t)"
proof -
  consider "t = []" | "t \<noteq> []" "slot_name s = t" | "t \<noteq> []" "slot_name s \<noteq> t" "slot_name (ss ! i) = t"
    | "t \<noteq> []" "slot_name s \<noteq> t" "slot_name (ss ! i) \<noteq> t" by blast
  then show ?thesis
  proof cases
    case 2
    then show ?thesis using session_expiry_nth [OF inv', of i t] i by simp
  next
    case 3
    have "slot_name (ss[i := s] ! j) \<noteq> t" if "j < length ss" for j
      using 3 that i sessions_inv_unique [OF inv i, of j] by (cases "j = i") auto
    with 3 show ?thesis by (simp add: session_expiry_None_iff)
  next
    case 4
    show ?thesis
    proof (cases "session_expiry ss t")
      case None
      with 4 i have "session_expiry (ss[i := s]) t = None"
        by (auto simp: session_expiry_None_iff nth_list_update)
      with None 4 show ?thesis by simp
    next
      case (Some e)
      then obtain j where j: "j < length ss" "slot_name (ss ! j) = t" "ss_expires (ss ! j) = e"
        by (blast dest: session_expiry_SomeD)
      with 4 have "j \<noteq> i" by auto
      with j have "session_expiry (ss[i := s]) t = Some e"
        using session_expiry_nth [OF inv', of j t] 4 by simp
      with Some 4 show ?thesis by simp
    qed
  qed simp
qed

section \<open>Storing\<close>

lemma oldest_from_min:
  assumes "idx < length pre" and "t = ss_expires (pre ! idx)"
    and "\<And>k. k < length pre \<Longrightarrow> t \<le> ss_expires (pre ! k)"
  shows "oldest_from xs (length pre) idx t < length (pre @ xs) \<and>
    (\<forall>k < length (pre @ xs).
       ss_expires ((pre @ xs) ! oldest_from xs (length pre) idx t) \<le> ss_expires ((pre @ xs) ! k))"
  using assms
proof (induction xs arbitrary: pre idx t)
  case Nil
  then show ?case by simp
next
  case (Cons x xs)
  let ?pre = "pre @ [x]"
  show ?case
  proof (cases "ss_expires x < t")
    case True
    have "ss_expires x \<le> ss_expires (?pre ! k)" if "k < length ?pre" for k
      using that True Cons.prems(3) [of k] by (cases "k < length pre") (auto simp: nth_append less_Suc_eq)
    with Cons.IH [of "length pre" ?pre "ss_expires x"] True show ?thesis by simp
  next
    case False
    have "t \<le> ss_expires (?pre ! k)" if "k < length ?pre" for k
      using that False Cons.prems(3) [of k] by (cases "k < length pre") (auto simp: nth_append less_Suc_eq)
    with Cons.IH [of idx ?pre t] Cons.prems(1,2) False show ?thesis by (simp add: nth_append)
  qed
qed

text \<open>The slot a new session goes to: the first empty one, else one that expires first.\<close>

lemma store_session_slot:
  assumes "sessions_inv ss"
  obtains i where "i < length ss" and "store_session_at now t ss = store_in_slot ss i now t"
    and "slot_name (ss ! i) = [] \<or>
      (\<forall>j < length ss. slot_name (ss ! j) \<noteq> [] \<and> ss_expires (ss ! i) \<le> ss_expires (ss ! j))"
proof (cases "find_index (\<lambda>s. ss_token s ! 0 = NUL) ss")
  case (Some i)
  then have "i < length ss" "ss_token (ss ! i) ! 0 = NUL" by (auto dest: find_index_SomeD)
  with assms Some show ?thesis
    by (intro that [of i]) (auto simp: store_session_at_def slot_name_empty_iff sessions_inv_nth)
next
  case None
  then have full: "slot_name (ss ! j) \<noteq> []" if "j < length ss" for j
    using that assms by (auto simp: slot_name_empty_iff sessions_inv_nth find_index_None_iff)
  from assms have "ss \<noteq> []" by (auto simp: sessions_inv_def MAX_SESSIONS_def)
  then obtain x xs where ss: "ss = x # xs" by (cases ss) auto
  have "oldest_from xs 1 0 (ss_expires x) < length ss \<and>
    (\<forall>k < length ss. ss_expires (ss ! oldest_from xs 1 0 (ss_expires x)) \<le> ss_expires (ss ! k))"
    using oldest_from_min [of 0 "[x]" "ss_expires x" xs] ss by simp
  with None full ss show ?thesis
    by (intro that [of "oldest_from xs 1 0 (ss_expires x)"]) (auto simp: store_session_at_def)
qed

lemma store_in_slot_name:
  assumes "slot_wf (ss ! i)" and "session_name t"
  shows "slot_name \<lparr>ss_expires = e, ss_token = strncpy (ss_token (ss ! i)) t SESSION_TOKEN_SIZE\<rparr> = t"
    and "slot_wf \<lparr>ss_expires = e, ss_token = strncpy (ss_token (ss ! i)) t SESSION_TOKEN_SIZE\<rparr>"
  using assms by (simp_all add: slot_name_def session_name_def slot_wf_def cstr_strncpy cstr_id)

lemma store_session_inv:
  assumes "sessions_inv ss" and "session_name t" and "session_expiry ss t = None"
  shows "sessions_inv (store_session_at now t ss)"
proof -
  obtain i where i: "i < length ss" "store_session_at now t ss = store_in_slot ss i now t"
    using store_session_slot [OF assms(1)] .
  have "t \<noteq> []" using assms(2) by (simp add: session_name_def)
  with assms i show ?thesis
    by (auto simp: store_in_slot_def store_in_slot_name sessions_inv_nth session_expiry_None_iff
        intro!: sessions_inv_update)
qed

lemma store_session_expiry:
  assumes "sessions_inv ss" and "session_name t" and "session_expiry ss t = None"
  obtains i where "i < length ss"
    and "slot_name (ss ! i) = [] \<or>
      (\<forall>j < length ss. slot_name (ss ! j) \<noteq> [] \<and> ss_expires (ss ! i) \<le> ss_expires (ss ! j))"
    and "session_expiry (store_session_at now t ss) =
      (session_expiry ss)(slot_name (ss ! i) := None, t := Some (now + SESSION_LIFETIME_SEC))"
proof -
  obtain i where i: "i < length ss" "store_session_at now t ss = store_in_slot ss i now t"
    and old: "slot_name (ss ! i) = [] \<or>
      (\<forall>j < length ss. slot_name (ss ! j) \<noteq> [] \<and> ss_expires (ss ! i) \<le> ss_expires (ss ! j))"
    using store_session_slot [OF assms(1)] .
  have t: "t \<noteq> []" using assms(2) by (simp add: session_name_def)
  have "session_expiry (store_session_at now t ss) u =
      ((session_expiry ss)(slot_name (ss ! i) := None, t := Some (now + SESSION_LIFETIME_SEC))) u" for u
    using session_expiry_update [OF assms(1) _ i(1), of _ u] store_session_inv [OF assms, of now] i(2) t
      store_in_slot_name [OF sessions_inv_nth [OF assms(1) i(1)] assms(2)]
    by (simp add: store_in_slot_def)
  then have "session_expiry (store_session_at now t ss) =
      (session_expiry ss)(slot_name (ss ! i) := None, t := Some (now + SESSION_LIFETIME_SEC))" ..
  with i(1) old show ?thesis by (rule that)
qed

section \<open>Checking\<close>

lemma check_find:
  "nul_free t \<Longrightarrow>
     find_index (\<lambda>s. strlen (ss_token s) \<noteq> 0 \<and> strcmp_eq (ss_token s) t) ss =
     (if t = [] then None else find_index (\<lambda>s. slot_name s = t) ss)"
  by (auto simp: strlen_def strcmp_eq_def slot_name_def cstr_id find_index_None_iff
      intro!: arg_cong2 [where f = find_index])

lemma check_token_at_eq:
  "nul_free t \<Longrightarrow>
     check_token_at now t ss =
       (case (if t = [] then None else find_index (\<lambda>s. slot_name s = t) ss) of
          None \<Rightarrow> (False, ss)
        | Some i \<Rightarrow>
            if now < ss_expires (ss ! i) then (True, ss)
            else (False, ss[i := (ss ! i)\<lparr>ss_token := (ss_token (ss ! i))[0 := NUL]\<rparr>]))"
  unfolding check_token_at_def by (simp only: check_find)

text \<open>A token is accepted iff the table knows it and it has not expired.\<close>

lemma check_token_result:
  "nul_free t \<Longrightarrow>
     fst (check_token_at now t ss) \<longleftrightarrow> (\<exists>e. session_expiry ss t = Some e \<and> now < e)"
  by (auto simp: check_token_at_eq session_expiry_def split: option.splits)

lemma clear_slot:
  assumes "slot_wf s"
  shows "slot_name (s\<lparr>ss_token := (ss_token s)[0 := NUL]\<rparr>) = []"
    and "slot_wf (s\<lparr>ss_token := (ss_token s)[0 := NUL]\<rparr>)"
  using assms slot_wf_nonempty [OF assms]
  by (cases "ss_token s"; simp add: slot_name_def slot_wf_def)+

lemma check_token_state:
  assumes inv: "sessions_inv ss" and t: "nul_free t"
  shows "sessions_inv (snd (check_token_at now t ss)) \<and>
    session_expiry (snd (check_token_at now t ss)) =
      (if fst (check_token_at now t ss) then session_expiry ss else (session_expiry ss)(t := None))"
proof (cases "session_expiry ss t")
  case None
  with t inv show ?thesis
    by (auto simp: check_token_at_eq session_expiry_def fun_upd_idem split: option.splits if_splits)
next
  case (Some e)
  then have "t \<noteq> []" by (auto dest: session_expiry_SomeD)
  with Some obtain i where f: "find_index (\<lambda>s. slot_name s = t) ss = Some i"
    by (auto simp: session_expiry_def)
  then have i: "i < length ss" "slot_name (ss ! i) = t" by (auto dest: find_index_SomeD)
  show ?thesis
  proof (cases "now < ss_expires (ss ! i)")
    case True
    with f inv \<open>t \<noteq> []\<close> show ?thesis by (simp add: check_token_at_eq [OF t])
  next
    case False
    let ?s = "(ss ! i)\<lparr>ss_token := (ss_token (ss ! i))[0 := NUL]\<rparr>"
    have c: "check_token_at now t ss = (False, ss[i := ?s])"
      using False f \<open>t \<noteq> []\<close> by (simp add: check_token_at_eq [OF t])
    note clr = clear_slot [OF sessions_inv_nth [OF inv i(1)]]
    have inv': "sessions_inv (ss[i := ?s])"
      by (rule sessions_inv_update [OF inv i(1)]) (simp_all add: clr)
    have "session_expiry (ss[i := ?s]) u = ((session_expiry ss)(t := None)) u" for u
      using session_expiry_update [OF inv inv' i(1), of u] clr(1) i(2) by simp
    with c inv' show ?thesis by auto
  qed
qed

section \<open>The open sessions\<close>

text \<open>
  What a table holds without any assumption on its contents but the sizes of its arrays: the
  tokens with their expiry times. A check only removes from it, and a store adds one pair.
\<close>

definition sessions_typed :: "web_session_t list \<Rightarrow> bool" where
  "sessions_typed ss \<longleftrightarrow> length ss = MAX_SESSIONS \<and> (\<forall>s \<in> set ss. length (ss_token s) = SESSION_TOKEN_SIZE)"

definition open_sessions :: "web_session_t list \<Rightarrow> (string \<times> u32) set" where
  "open_sessions ss = {(slot_name s, ss_expires s) | s. s \<in> set ss \<and> slot_name s \<noteq> []}"

lemma sessions_inv_typed: "sessions_inv ss \<Longrightarrow> sessions_typed ss"
  by (simp add: sessions_inv_def sessions_typed_def slot_wf_def)

lemma store_typed: "sessions_typed ss \<Longrightarrow> sessions_typed (store_session_at now t ss)"
proof -
  assume ss: "sessions_typed ss"
  have "sessions_typed (store_in_slot ss i now t)" for i
  proof (cases "i < length ss")
    case True
    then have "length (ss_token (ss ! i)) = SESSION_TOKEN_SIZE" using ss by (simp add: sessions_typed_def)
    then show ?thesis using ss by (auto simp: sessions_typed_def store_in_slot_def dest!: set_update_subset_insert [THEN subsetD])
  next
    case False
    then show ?thesis using ss by (simp add: store_in_slot_def list_update_beyond)
  qed
  then show ?thesis by (simp add: store_session_at_def split: option.split)
qed

lemma check_typed: "sessions_typed ss \<Longrightarrow> sessions_typed (snd (check_token_at now t ss))"
proof -
  assume ss: "sessions_typed ss"
  have "sessions_typed (ss[i := (ss ! i)\<lparr>ss_token := (ss_token (ss ! i))[0 := NUL]\<rparr>])" for i
    using ss by (cases "i < length ss")
      (auto simp: sessions_typed_def list_update_beyond dest!: set_update_subset_insert [THEN subsetD])
  with ss show ?thesis by (simp add: check_token_at_def split: option.split)
qed

lemma check_accepts_open:
  assumes "nul_free t" and "fst (check_token_at now t ss)"
  shows "\<exists>e. (t, e) \<in> open_sessions ss \<and> now < e"
  using check_token_result [OF assms(1), of now ss] assms(2)
  by (auto simp: open_sessions_def in_set_conv_nth dest!: session_expiry_SomeD)

lemma open_sessions_update:
  "open_sessions (ss[i := s]) \<subseteq> open_sessions ss \<union> (if slot_name s = [] then {} else {(slot_name s, ss_expires s)})"
  by (auto simp: open_sessions_def dest!: set_update_subset_insert [THEN subsetD])

lemma check_only_removes: "open_sessions (snd (check_token_at now t ss)) \<subseteq> open_sessions ss"
proof -
  have "slot_name (s\<lparr>ss_token := (ss_token s)[0 := NUL]\<rparr>) = []" for s
    by (cases "ss_token s") (simp_all add: slot_name_def)
  then have "open_sessions (ss[i := (ss ! i)\<lparr>ss_token := (ss_token (ss ! i))[0 := NUL]\<rparr>]) \<subseteq> open_sessions ss" for i
    using open_sessions_update [of ss i "(ss ! i)\<lparr>ss_token := (ss_token (ss ! i))[0 := NUL]\<rparr>"] by simp
  then show ?thesis by (simp add: check_token_at_def split: option.split)
qed

lemma store_opens_one:
  assumes "sessions_typed ss" and "session_name t"
  shows "(t, now + SESSION_LIFETIME_SEC) \<in> open_sessions (store_session_at now t ss)"
    and "open_sessions (store_session_at now t ss) \<subseteq> insert (t, now + SESSION_LIFETIME_SEC) (open_sessions ss)"
proof -
  have "\<exists>i < length ss. store_session_at now t ss = store_in_slot ss i now t"
  proof (cases "find_index (\<lambda>s. ss_token s ! 0 = NUL) ss")
    case (Some i)
    then show ?thesis by (auto simp: store_session_at_def dest: find_index_SomeD)
  next
    case None
    from assms(1) have "ss \<noteq> []" by (auto simp: sessions_typed_def MAX_SESSIONS_def)
    then obtain x xs where "ss = x # xs" by (cases ss) auto
    with None oldest_from_min [of 0 "[x]" "ss_expires x" xs] show ?thesis
      by (intro exI [of _ "oldest_from xs 1 0 (ss_expires x)"]) (simp add: store_session_at_def)
  qed
  then obtain i where i: "i < length ss" "store_session_at now t ss = store_in_slot ss i now t" by blast
  let ?s = "\<lparr>ss_expires = now + SESSION_LIFETIME_SEC, ss_token = strncpy (ss_token (ss ! i)) t SESSION_TOKEN_SIZE\<rparr>"
  have "length (ss_token (ss ! i)) = SESSION_TOKEN_SIZE" using assms(1) i(1) by (simp add: sessions_typed_def)
  then have name: "slot_name ?s = t" "t \<noteq> []"
    using assms(2) by (simp_all add: slot_name_def session_name_def cstr_strncpy cstr_id)
  have "?s \<in> set (ss[i := ?s])" using i(1) by (rule set_update_memI)
  with i(2) name show "(t, now + SESSION_LIFETIME_SEC) \<in> open_sessions (store_session_at now t ss)"
    unfolding open_sessions_def store_in_slot_def by force
  show "open_sessions (store_session_at now t ss) \<subseteq> insert (t, now + SESSION_LIFETIME_SEC) (open_sessions ss)"
    using open_sessions_update [of ss i ?s] i(2) name by (simp add: store_in_slot_def)
qed

section \<open>The contract of a session store\<close>

text \<open>
  What the request code relies on: a token stored at time \<open>now\<close> is known with expiry
  \<open>now + lifetime\<close>; storing creates no other token and changes no other expiry (it may
  drop one); a check accepts exactly the known tokens that have not expired, and
  changes nothing but that a rejected token is forgotten. The lemmas are about a
  store under any later traffic of checks.
\<close>

locale session_store =
  fixes inv :: "'s \<Rightarrow> bool"
    and expiry :: "'s \<Rightarrow> string \<Rightarrow> u32 option"
    and store :: "u32 \<Rightarrow> string \<Rightarrow> 's \<Rightarrow> 's"
    and check :: "u32 \<Rightarrow> string \<Rightarrow> 's \<Rightarrow> bool \<times> 's"
    and lifetime :: u32
  assumes inv_store: "inv s \<Longrightarrow> session_name t \<Longrightarrow> expiry s t = None \<Longrightarrow> inv (store now t s)"
    and store_new: "inv s \<Longrightarrow> session_name t \<Longrightarrow> expiry s t = None \<Longrightarrow>
      expiry (store now t s) t = Some (now + lifetime)"
    and store_other: "inv s \<Longrightarrow> session_name t \<Longrightarrow> expiry s t = None \<Longrightarrow> u \<noteq> t \<Longrightarrow>
      expiry (store now t s) u = Some e \<Longrightarrow> expiry s u = Some e"
    and check_iff: "inv s \<Longrightarrow> nul_free t \<Longrightarrow> fst (check now t s) \<longleftrightarrow> (\<exists>e. expiry s t = Some e \<and> now < e)"
    and check_inv: "inv s \<Longrightarrow> nul_free t \<Longrightarrow> inv (snd (check now t s))"
    and check_expiry: "inv s \<Longrightarrow> nul_free t \<Longrightarrow>
      expiry (snd (check now t s)) = (if fst (check now t s) then expiry s else (expiry s)(t := None))"
begin

text \<open>A sequence of checks, each at its own time, run from a store.\<close>

lemma checks_inv:
  "inv s \<Longrightarrow> \<forall>(now, t) \<in> set qs. nul_free t \<Longrightarrow> inv (foldl (\<lambda>s (now, t). snd (check now t s)) s qs)"
  by (induction qs arbitrary: s) (auto simp: check_inv)

lemma checks_keep:
  assumes "inv s" and "expiry s t = Some e"
    and "\<forall>(now, u) \<in> set qs. nul_free u \<and> (u = t \<longrightarrow> now < e)"
  shows "expiry (foldl (\<lambda>s (now, t). snd (check now t s)) s qs) t = Some e"
  using assms
proof (induction qs arbitrary: s)
  case Nil
  then show ?case by simp
next
  case (Cons q qs)
  obtain now u where q: "q = (now, u)" by (cases q)
  with Cons.prems have u: "nul_free u" "u = t \<longrightarrow> now < e" by auto
  have "expiry (snd (check now u s)) t = Some e"
    using Cons.prems(1,2) u check_iff [OF Cons.prems(1) u(1), of now]
    by (auto simp: check_expiry)
  with Cons.IH [of "snd (check now u s)"] Cons.prems u q show ?case by (auto simp: check_inv)
qed

lemma checks_only_forget:
  assumes "inv s" and "\<forall>(now, u) \<in> set qs. nul_free u"
    and "expiry (foldl (\<lambda>s (now, t). snd (check now t s)) s qs) t = Some e"
  shows "expiry s t = Some e"
  using assms
proof (induction qs arbitrary: s)
  case Nil
  then show ?case by simp
next
  case (Cons q qs)
  obtain now u where q: "q = (now, u)" by (cases q)
  with Cons have "expiry (snd (check now u s)) t = Some e" by (auto simp: check_inv)
  with Cons.prems(1,2) q show ?case by (auto simp: check_expiry split: if_splits)
qed

text \<open>
  A stored session is accepted at every time before its expiry, after any traffic of
  checks that stays within its lifetime, and a token that was not in the store is
  never accepted after checks alone.
\<close>

lemma stored_session_accepted:
  assumes "inv s" and "session_name t" and "expiry s t = None"
    and "\<forall>(n, u) \<in> set qs. nul_free u \<and> (u = t \<longrightarrow> n < now + lifetime)"
    and "later < now + lifetime"
  shows "fst (check later t (foldl (\<lambda>s (now, t). snd (check now t s)) (store now t s) qs))"
proof -
  let ?s = "store now t s"
  have inv: "inv ?s" and e: "expiry ?s t = Some (now + lifetime)"
    using assms(1-3) by (rule inv_store, rule store_new)
  have "inv (foldl (\<lambda>s (now, t). snd (check now t s)) ?s qs)"
    using assms(4) by (intro checks_inv [OF inv]) auto
  moreover have "nul_free t" using assms(2) by (simp add: session_name_def)
  ultimately show ?thesis
    using checks_keep [OF inv e assms(4)] assms(5) by (auto simp: check_iff)
qed

lemma unknown_token_rejected:
  assumes "inv s" and "nul_free t" and "expiry s t = None" and "\<forall>(n, u) \<in> set qs. nul_free u"
  shows "\<not> fst (check later t (foldl (\<lambda>s (now, t). snd (check now t s)) s qs))"
  using assms checks_only_forget [OF assms(1,4), of t] checks_inv [OF assms(1,4)]
  by (auto simp: check_iff)

end

interpretation table: session_store sessions_inv session_expiry store_session_at check_token_at SESSION_LIFETIME_SEC
proof unfold_locales
  fix ss t now
  assume "sessions_inv ss" and "session_name t" and "session_expiry ss t = None"
  note a = this
  show "sessions_inv (store_session_at now t ss)" by (rule store_session_inv [OF a])
  show "session_expiry (store_session_at now t ss) t = Some (now + SESSION_LIFETIME_SEC)"
    by (rule store_session_expiry [OF a, of now]) simp
  fix u e assume "u \<noteq> t" and "session_expiry (store_session_at now t ss) u = Some e"
  then show "session_expiry ss u = Some e"
    by (rule_tac store_session_expiry [OF a, of now]) (auto split: if_splits)
next
  fix ss t now
  assume "sessions_inv ss" and "nul_free t"
  then show "fst (check_token_at now t ss) \<longleftrightarrow> (\<exists>e. session_expiry ss t = Some e \<and> now < e)"
    and "sessions_inv (snd (check_token_at now t ss))"
    and "session_expiry (snd (check_token_at now t ss)) =
      (if fst (check_token_at now t ss) then session_expiry ss else (session_expiry ss)(t := None))"
    using check_token_state by (simp_all add: check_token_result)
qed

lemma sessions_inv_empty [simp]: "sessions_inv (replicate MAX_SESSIONS web_session_zero)"
  by (auto simp: sessions_inv_def slot_wf_def slot_name_def web_session_zero_def SESSION_TOKEN_SIZE_def)

lemma session_expiry_empty [simp]: "session_expiry (replicate MAX_SESSIONS web_session_zero) t = None"
  by (auto simp: session_expiry_None_iff slot_name_def web_session_zero_def)

section \<open>Properties\<close>

text \<open>
  C19. A session lasts: a token stored at time \<open>now\<close> passes the check at every later time
  before \<open>now\<close> plus the lifetime, whatever checks of this or other tokens come between,
  as long as those of this token also fall within its lifetime.
\<close>

theorem stored_session_lasts:
  assumes "sessions_inv ss" and "session_name t" and "session_expiry ss t = None"
    and "\<forall>(n, u) \<in> set qs. nul_free u \<and> (u = t \<longrightarrow> n < now + SESSION_LIFETIME_SEC)"
    and "later < now + SESSION_LIFETIME_SEC"
  shows "fst (check_token_at later t (foldl (\<lambda>s (n, u). snd (check_token_at n u s)) (store_session_at now t ss) qs))"
  using assms by (rule table.stored_session_accepted)

theorem stored_session_lasts_witness:
  "fst (check_token_at 4599 ''abc'' (foldl (\<lambda>s (n, u). snd (check_token_at n u s))
     (store_session_at 1000 ''abc'' (replicate MAX_SESSIONS web_session_zero)) [(2000, ''zz''), (3000, ''abc'')]))"
  by (rule stored_session_lasts)
    (simp_all add: session_name_def SESSION_TOKEN_SIZE_def SESSION_LIFETIME_SEC_def)

text \<open>
  C20. A new session costs at most one old one, and that is one that would have expired
  first: when every slot is taken, exactly one session is dropped, no session expires
  before it, and all the others keep their expiry; when a slot is free nothing is dropped.
\<close>

theorem store_drops_first_to_expire:
  assumes "sessions_inv ss" and "session_name t" and "session_expiry ss t = None"
  shows "\<exists>old. session_expiry (store_session_at now t ss) =
      (session_expiry ss)(old := None, t := Some (now + SESSION_LIFETIME_SEC)) \<and>
    (if \<exists>s \<in> set ss. slot_name s = [] then old = []
     else \<exists>e. session_expiry ss old = Some e \<and> (\<forall>u e'. session_expiry ss u = Some e' \<longrightarrow> e \<le> e'))"
proof -
  obtain i where i: "i < length ss"
    and old: "slot_name (ss ! i) = [] \<or>
      (\<forall>j < length ss. slot_name (ss ! j) \<noteq> [] \<and> ss_expires (ss ! i) \<le> ss_expires (ss ! j))"
    and upd: "session_expiry (store_session_at now t ss) =
      (session_expiry ss)(slot_name (ss ! i) := None, t := Some (now + SESSION_LIFETIME_SEC))"
    using store_session_expiry [OF assms] .
  have "if \<exists>s \<in> set ss. slot_name s = [] then slot_name (ss ! i) = []
     else \<exists>e. session_expiry ss (slot_name (ss ! i)) = Some e \<and> (\<forall>u e'. session_expiry ss u = Some e' \<longrightarrow> e \<le> e')"
  proof (cases "\<exists>s \<in> set ss. slot_name s = []")
    case True
    then obtain j where "j < length ss" "slot_name (ss ! j) = []" by (auto simp: in_set_conv_nth)
    with old True show ?thesis by auto
  next
    case False
    then have ne: "slot_name (ss ! i) \<noteq> []" using i by auto
    then have "session_expiry ss (slot_name (ss ! i)) = Some (ss_expires (ss ! i))"
      using session_expiry_nth [OF assms(1) i] by simp
    moreover have "ss_expires (ss ! i) \<le> e'" if "session_expiry ss u = Some e'" for u e'
      using session_expiry_SomeD [OF that] old ne by auto
    ultimately show ?thesis using False by auto
  qed
  with upd show ?thesis by blast
qed

theorem store_drops_first_to_expire_witness:
  "\<exists>old. session_expiry (store_session_at 1000 ''abc'' (replicate MAX_SESSIONS web_session_zero)) =
     (session_expiry (replicate MAX_SESSIONS web_session_zero))(old := None, ''abc'' := Some (1000 + SESSION_LIFETIME_SEC))"
  using store_drops_first_to_expire [OF sessions_inv_empty, of "''abc''" 1000]
  by (auto simp: session_name_def SESSION_TOKEN_SIZE_def)


end
