(* ===== verification/Authentication.thy ===== *)
theory Authentication
  imports User_List Session_Table
begin

text \<open>
  \<open>web/authentication.c\<close>, the request side: token generation, the operations on the
  session table with the clock reads, and \<open>authentication\<close>, which decides a request from
  its headers. The two static variables of the file are the record \<open>auth_state\<close>; a function
  that changes them returns the new state, with the world after the services it called.
\<close>

section \<open>State\<close>

record auth_state =
  as_users :: web_users_list_t
  as_sessions :: "web_session_t list"

text \<open>
  \<open>authentication_init\<close> loads or creates the user list and forgets every session.
\<close>

definition authentication_init :: "'w sys_api \<Rightarrow> 'w \<Rightarrow> auth_state \<Rightarrow> auth_state \<times> 'w" where
  "authentication_init sys w st =
     (let (l, w') = users_init sys w (as_users st)
      in (st\<lparr>as_users := l, as_sessions := replicate MAX_SESSIONS web_session_zero\<rparr>, w'))"

section \<open>Tokens and the clock\<close>

definition token_input :: "string \<Rightarrow> u32 \<Rightarrow> byte list \<Rightarrow> string" where
  "token_input username t rb =
     username @ ''_'' @ nat_dec (unat t) @ ''_'' @ concat (map hex2_lower (take 4 rb))"

fun token_hex_loop :: "buffer \<Rightarrow> nat \<Rightarrow> nat \<Rightarrow> byte list \<Rightarrow> buffer" where
  "token_hex_loop buf sz i [] = buf"
| "token_hex_loop buf sz i (b # bs) =
     (if i < 16 \<and> i * 2 + 1 < sz
      then token_hex_loop
             (take (i * 2) buf @ snprintf_into (drop (i * 2) buf) (sz - i * 2) (hex2_lower b)) sz (Suc i) bs
      else buf)"

definition generate_token ::
  "'w sys_api \<Rightarrow> 'w \<Rightarrow> string \<Rightarrow> buffer \<Rightarrow> nat \<Rightarrow> buffer \<times> 'w" where
  "generate_token sys w username token_out token_size =
     (let (rb, w1) = sys_csrand_get sys w 8;
          (t, w2) = time_now sys w1;
          input = snprintf_into (uninit sys w 128) 128 (token_input (cstr username) t rb);
          hash_bin = snd (mbedtls_sha256 sys (cstr input))
      in ((token_hex_loop token_out token_size 0 hash_bin)[32 := NUL], w2))"

definition store_session_token ::
  "'w sys_api \<Rightarrow> 'w \<Rightarrow> auth_state \<Rightarrow> string \<Rightarrow> auth_state \<times> 'w" where
  "store_session_token sys w st token =
     (let (now, w') = time_now sys w
      in (st\<lparr>as_sessions := store_session_at now token (as_sessions st)\<rparr>, w'))"

definition check_token_valid ::
  "'w sys_api \<Rightarrow> 'w \<Rightarrow> auth_state \<Rightarrow> string \<Rightarrow> bool \<times> auth_state \<times> 'w" where
  "check_token_valid sys w st token =
     (let (now, w') = time_now sys w;
          (ok, ss) = check_token_at now token (as_sessions st)
      in (ok, st\<lparr>as_sessions := ss\<rparr>, w'))"

section \<open>Deciding a request\<close>

definition cookie_token :: "string \<Rightarrow> string option" where
  "cookie_token header_value =
     (case strstr header_value ''session_token='' of
        None \<Rightarrow> None
      | Some p \<Rightarrow>
          let pos = drop (length ''session_token='') p;
              len = (case strchr pos (CHR '';'') of Some e \<Rightarrow> length pos - length e | None \<Rightarrow> length pos)
          in if len < SESSION_TOKEN_SIZE then Some (take len pos) else None)"

definition basic_credentials :: "'w sys_api \<Rightarrow> string \<Rightarrow> (string \<times> string) option" where
  "basic_credentials sys encoded =
     (let (rc, out) = base64_decode sys 256 encoded in
      if rc \<noteq> 0 then None
      else let decoded = cstr (take (min (length out) 255) out)
           in case strchr decoded (CHR '':'') of
                None \<Rightarrow> None
              | Some colon \<Rightarrow> Some (take (length decoded - length colon) decoded, drop 1 colon))"

definition bearer_token :: "string \<Rightarrow> string" where
  "bearer_token header_value =
     cstr ((strncpy (zeros SESSION_TOKEN_SIZE) (drop 7 header_value) SESSION_TOKEN_SIZE)
             [SESSION_TOKEN_SIZE - 1 := NUL])"

definition login_user ::
  "'w sys_api \<Rightarrow> 'w \<Rightarrow> auth_state \<Rightarrow> string \<Rightarrow> buffer \<Rightarrow> nat \<Rightarrow> auth_state \<times> 'w \<times> buffer" where
  "login_user sys w st username token_buf token_buf_size =
     (let (new_token, w1) = generate_token sys w username (uninit sys w SESSION_TOKEN_SIZE) SESSION_TOKEN_SIZE;
          (st', w2) = store_session_token sys w1 st new_token
      in (st', w2, (strncpy token_buf new_token (token_buf_size - 1))[token_buf_size - 1 := NUL]))"

text \<open>
  The loop over the headers. The token buffer is \<open>None\<close> for a NULL pointer; a request with
  no buffer (or a zero size) is a check only, for which Basic credentials are skipped.
\<close>

fun authentication ::
  "'w sys_api \<Rightarrow> 'w \<Rightarrow> auth_state \<Rightarrow> http_header list \<Rightarrow> buffer option \<Rightarrow> nat
     \<Rightarrow> int \<times> auth_state \<times> 'w \<times> buffer option" where
  "authentication sys w st [] token_buf sz = (- EACCES, st, w, token_buf)"
| "authentication sys w st (h # hs) token_buf sz =
     (let value = cstr (hdr_value h) in
      if strcasecmp_eq (hdr_name h) ''Cookie'' then
        (case cookie_token value of
           None \<Rightarrow> authentication sys w st hs token_buf sz
         | Some local_token \<Rightarrow>
             let (ok, st', w') = check_token_valid sys w st local_token
             in if ok then (0, st', w', token_buf) else authentication sys w' st' hs token_buf sz)
      else if strcasecmp_eq (hdr_name h) ''Authorization'' then
        (if strncasecmp_eq value ''Basic '' 6 then
           (case token_buf of
              None \<Rightarrow> authentication sys w st hs token_buf sz
            | Some tb \<Rightarrow>
                if sz = 0 then authentication sys w st hs token_buf sz
                else (case basic_credentials sys (drop 6 value) of
                        None \<Rightarrow> authentication sys w st hs token_buf sz
                      | Some (username, password) \<Rightarrow>
                          if check_user_credentials sys w (as_users st) username password
                          then let (st', w', tb') = login_user sys w st username tb sz
                               in (0, st', w', Some tb')
                          else (- EACCES, st, w, token_buf)))
         else if strncasecmp_eq value ''Bearer '' 7 then
           let (ok, st', w') = check_token_valid sys w st (bearer_token value)
           in if ok then (0, st', w', token_buf) else authentication sys w' st' hs token_buf sz
         else authentication sys w st hs token_buf sz)
      else authentication sys w st hs token_buf sz)"

section \<open>Generated tokens\<close>

lemma token_hex_loop_take16: "token_hex_loop buf sz i bs = token_hex_loop buf sz i (take (16 - i) bs)"
proof (induction bs arbitrary: buf i)
  case Nil
  then show ?case by simp
next
  case (Cons b bs)
  show ?case
  proof (cases "i < 16")
    case True
    then have "16 - i = Suc (16 - Suc i)" by simp
    with Cons.IH [of _ "Suc i"] True show ?thesis by simp
  next
    case False
    then show ?thesis by simp
  qed
qed

lemma token_hex_loop_spec:
  assumes "length buf = sz" and "i + length bs \<le> 16" and "2 * (i + length bs) < sz"
  shows "length (token_hex_loop buf sz i bs) = sz \<and>
    take (2 * (i + length bs)) (token_hex_loop buf sz i bs) =
      take (2 * i) buf @ concat (map hex2_lower bs)"
  using assms
proof (induction bs arbitrary: buf i)
  case Nil
  then show ?case by simp
next
  case (Cons b bs)
  let ?buf = "take (2 * i) buf @ hex2_lower b @ NUL # drop (Suc (Suc (Suc (i * 2)))) buf"
  have step: "take (i * 2) buf @ snprintf_into (drop (i * 2) buf) (sz - i * 2) (hex2_lower b) = ?buf"
    using Cons.prems by (simp add: snprintf_into_def Let_def mult.commute add.commute)
  have len: "length ?buf = sz" using Cons.prems by simp
  have tk: "take (2 * Suc i) ?buf = take (2 * i) buf @ hex2_lower b" using Cons.prems by simp
  have "token_hex_loop buf sz i (b # bs) = token_hex_loop ?buf sz (Suc i) bs"
    using Cons.prems step by simp
  moreover have "length (token_hex_loop ?buf sz (Suc i) bs) = sz \<and>
      take (2 * (Suc i + length bs)) (token_hex_loop ?buf sz (Suc i) bs) =
        take (2 * Suc i) ?buf @ concat (map hex2_lower bs)"
    using Cons.prems by (intro Cons.IH [OF len]) auto
  ultimately show ?case using tk by (simp del: token_hex_loop.simps)
qed

lemma length_concat_hex2: "length (concat (map hex2_lower bs)) = 2 * length bs"
  by (induction bs) simp_all

lemma nul_free_concat_hex2: "nul_free (concat (map hex2_lower bs))"
  by (induction bs) simp_all

text \<open>A generated token is the first 16 bytes of the hash in hexadecimal.\<close>

lemma generate_token_text:
  assumes "sha256_lawful sys" and "length token_out = SESSION_TOKEN_SIZE"
  shows "\<exists>h. length h = 32 \<and>
    cstr (fst (generate_token sys w username token_out SESSION_TOKEN_SIZE)) =
      concat (map hex2_lower (take 16 h))"
proof -
  obtain h where gen: "fst (generate_token sys w username token_out SESSION_TOKEN_SIZE) =
      (token_hex_loop token_out SESSION_TOKEN_SIZE 0 h)[32 := NUL]" and h: "length h = 32"
  proof -
    obtain rb w1 where r: "sys_csrand_get sys w 8 = (rb, w1)" by (cases "sys_csrand_get sys w 8")
    obtain t w2 where n: "time_now sys w1 = (t, w2)" by (cases "time_now sys w1")
    show ?thesis
      using assms(1) r n
      by (intro that [of "snd (mbedtls_sha256 sys (cstr (snprintf_into (uninit sys w 128) 128
              (token_input (cstr username) t rb))))"])
        (simp_all add: generate_token_def sha256_lawful_def)
  qed
  let ?b = "token_hex_loop token_out SESSION_TOKEN_SIZE 0 h"
  have b: "length ?b = 128 \<and> take 32 ?b = concat (map hex2_lower (take 16 h))"
    using token_hex_loop_spec [of token_out SESSION_TOKEN_SIZE 0 "take 16 h"] assms(2) h
      token_hex_loop_take16 [of token_out SESSION_TOKEN_SIZE 0 h]
    by (simp add: SESSION_TOKEN_SIZE_def)
  then have "?b[32 := NUL] = concat (map hex2_lower (take 16 h)) @ NUL # drop 33 ?b"
    by (simp add: upd_conv_take_nth_drop)
  with gen h show ?thesis by (auto simp: cstr_append_NUL nul_free_concat_hex2)
qed

text \<open>The shape of a token: 32 hexadecimal digits.\<close>

definition hex_token :: "string \<Rightarrow> bool" where
  "hex_token t \<longleftrightarrow> length t = 32 \<and>
     list_all (\<lambda>c. is_digit c \<or> (97 \<le> char_code c \<and> char_code c \<le> 102)) t"

lemma hex_token_chars: "hex_token t \<Longrightarrow> c \<in> set t \<Longrightarrow> 48 \<le> char_code c \<and> char_code c \<noteq> 59"
  by (auto simp: hex_token_def list_all_iff is_digit_def)

lemma hex_token_name: "hex_token t \<Longrightarrow> session_name t"
  using hex_token_chars [of t NUL]
  by (auto simp: hex_token_def session_name_def nul_free_def SESSION_TOKEN_SIZE_def char_code_def)

lemma generate_token_name:
  assumes "sha256_lawful sys" and "length token_out = SESSION_TOKEN_SIZE"
  shows "hex_token (cstr (fst (generate_token sys w username token_out SESSION_TOKEN_SIZE)))"
proof -
  obtain h :: "byte list" where "length h = 32"
    and "cstr (fst (generate_token sys w username token_out SESSION_TOKEN_SIZE)) =
      concat (map hex2_lower (take 16 h))"
    using generate_token_text [OF assms] by blast
  then show ?thesis
    by (auto simp: hex_token_def length_concat_hex2 list_all_iff dest: hex2_code)
qed

lemma store_session_cstr: "store_session_at now t ss = store_session_at now (cstr t) ss"
  by (simp add: store_session_at_def store_in_slot_def strncpy_def split: option.split)

text \<open>The token a login for a user gets in a world.\<close>

definition login_token :: "'w sys_api \<Rightarrow> 'w \<Rightarrow> string \<Rightarrow> string" where
  "login_token sys w u = cstr (fst (generate_token sys w u (uninit sys w SESSION_TOKEN_SIZE) SESSION_TOKEN_SIZE))"

lemma login_user_result:
  assumes laws: "sha256_lawful sys" "uninit_lawful sys"
    and tb: "length tb = SESSION_TOKEN_SIZE"
    and res: "login_user sys w st username tb SESSION_TOKEN_SIZE = (st', w', tb')"
  obtains w1 where "hex_token (login_token sys w username)" and "cstr tb' = login_token sys w username"
    and "st' = st\<lparr>as_sessions := store_session_at (fst (time_now sys w1)) (login_token sys w username) (as_sessions st)\<rparr>"
proof -
  let ?b = "uninit sys w SESSION_TOKEN_SIZE"
  obtain tok w1 where g: "generate_token sys w username ?b SESSION_TOKEN_SIZE = (tok, w1)"
    by (cases "generate_token sys w username ?b SESSION_TOKEN_SIZE")
  then have t: "login_token sys w username = cstr tok" by (simp add: login_token_def)
  have b: "length ?b = SESSION_TOKEN_SIZE" using laws(2) by (simp add: uninit_lawful_def)
  have name: "hex_token (cstr tok)"
    using generate_token_name [OF laws(1) b, of w username] g by simp
  have "tb' = (strncpy tb tok (SESSION_TOKEN_SIZE - 1))[SESSION_TOKEN_SIZE - 1 := NUL]"
    using res g by (auto simp: login_user_def Let_def split: prod.splits)
  moreover have "length (cstr tok) < SESSION_TOKEN_SIZE - 1"
  proof -
    obtain h :: "byte list" where "length h = 32" "cstr tok = concat (map hex2_lower (take 16 h))"
      using generate_token_text [OF laws(1) b, of w username] g by auto
    then show ?thesis by (simp add: length_concat_hex2 SESSION_TOKEN_SIZE_def)
  qed
  ultimately have buf: "tb' = (cstr tok @ zeros (127 - length (cstr tok)) @ drop 127 tb)[127 := NUL]"
    by (simp add: SESSION_TOKEN_SIZE_def strncpy_def)
  obtain k where k: "127 - length (cstr tok) = Suc k"
    using \<open>length (cstr tok) < SESSION_TOKEN_SIZE - 1\<close>
    by (cases "127 - length (cstr tok)") (auto simp: SESSION_TOKEN_SIZE_def)
  have "cstr tb' = cstr tok"
  proof -
    have "tb' = cstr tok @ (NUL # zeros k @ drop 127 tb)[127 - length (cstr tok) := NUL]"
      using k by (auto simp: buf list_update_append)
    then show ?thesis using k by (simp add: cstr_append_NUL)
  qed
  moreover have "st' = st\<lparr>as_sessions := store_session_at (fst (time_now sys w1)) (cstr tok) (as_sessions st)\<rparr>"
    using res g store_session_cstr [of _ tok]
    by (auto simp: login_user_def store_session_token_def Let_def split: prod.splits)
  ultimately show ?thesis using name t by (intro that [of w1]) auto
qed

section \<open>What a request presents\<close>

text \<open>
  The tokens and the credentials that one header offers, and those of a whole request;
  \<open>after_reads\<close> is the world after so many readings of the clock.
\<close>

definition header_token :: "http_header \<Rightarrow> string option" where
  "header_token h =
     (let value = cstr (hdr_value h) in
      if strcasecmp_eq (hdr_name h) ''Cookie'' then cookie_token value
      else if strcasecmp_eq (hdr_name h) ''Authorization'' \<and> \<not> strncasecmp_eq value ''Basic '' 6 \<and>
              strncasecmp_eq value ''Bearer '' 7
      then Some (bearer_token value) else None)"

definition header_credentials :: "'w sys_api \<Rightarrow> http_header \<Rightarrow> (string \<times> string) option" where
  "header_credentials sys h =
     (let value = cstr (hdr_value h) in
      if \<not> strcasecmp_eq (hdr_name h) ''Cookie'' \<and> strcasecmp_eq (hdr_name h) ''Authorization'' \<and>
         strncasecmp_eq value ''Basic '' 6
      then basic_credentials sys (drop 6 value) else None)"

definition after_reads :: "'w sys_api \<Rightarrow> nat \<Rightarrow> 'w \<Rightarrow> 'w" where
  "after_reads sys k = (\<lambda>w. snd (time_now sys w)) ^^ k"

text \<open>One round of the loop in terms of them.\<close>

lemma authentication_step:
  "authentication sys w st (h # hs) tb sz =
    (case header_token h of
       Some t \<Rightarrow>
         (let (ok, st', w') = check_token_valid sys w st t
          in if ok then (0, st', w', tb) else authentication sys w' st' hs tb sz)
     | None \<Rightarrow>
         (case (header_credentials sys h, tb) of
            (Some (u, p), Some b) \<Rightarrow>
              if sz = 0 then authentication sys w st hs tb sz
              else if check_user_credentials sys w (as_users st) u p
              then (let (st', w', b') = login_user sys w st u b sz in (0, st', w', Some b'))
              else (- EACCES, st, w, tb)
          | _ \<Rightarrow> authentication sys w st hs tb sz))"
  by (auto simp: header_token_def header_credentials_def Let_def split: option.split prod.split)

lemma nul_free_cookie_token:
  assumes "nul_free v" and "cookie_token v = Some t"
  shows "nul_free t"
proof (cases "strstr v ''session_token=''")
  case None
  with assms(2) show ?thesis by (simp add: cookie_token_def)
next
  case (Some p)
  with assms(1) have "nul_free p" by (auto dest!: strstr_SomeD)
  define pos where "pos = drop (length ''session_token='') p"
  define len where "len = (case strchr pos (CHR '';'') of Some e \<Rightarrow> length pos - length e | None \<Rightarrow> length pos)"
  have "cookie_token v = (if len < SESSION_TOKEN_SIZE then Some (take len pos) else None)"
    by (simp only: cookie_token_def Let_def Some option.case len_def pos_def)
  with assms(2) have "t = take len pos" by (simp split: if_splits)
  with \<open>nul_free p\<close> show ?thesis unfolding pos_def by (simp only: nul_free_take nul_free_drop)
qed

lemma nul_free_header_token: "header_token h = Some t \<Longrightarrow> nul_free t"
  by (auto simp: header_token_def Let_def bearer_token_def split: if_splits
      dest: nul_free_cookie_token [OF nul_free_cstr])

text \<open>A check in terms of the table's contract.\<close>

lemma check_token_valid_eq:
  "check_token_valid sys w st t =
     (let c = check_token_at (fst (time_now sys w)) t (as_sessions st)
      in (fst c, st\<lparr>as_sessions := snd c\<rparr>, snd (time_now sys w)))"
  by (simp add: check_token_valid_def Let_def split: prod.split)

lemma check_token_valid_result:
  assumes "sessions_inv (as_sessions st)" and "nul_free t"
    and "check_token_valid sys w st t = (ok, st', w')"
  shows "ok \<longleftrightarrow> (\<exists>e. session_expiry (as_sessions st) t = Some e \<and> fst (time_now sys w) < e)"
    and "w' = snd (time_now sys w)" and "as_users st' = as_users st" and "sessions_inv (as_sessions st')"
    and "session_expiry (as_sessions st') =
      (if ok then session_expiry (as_sessions st) else (session_expiry (as_sessions st))(t := None))"
  using assms(3) table.check_iff [OF assms(1,2)] table.check_inv [OF assms(1,2)]
    table.check_expiry [OF assms(1,2)]
  by (auto simp: check_token_valid_eq Let_def simp del: fun_upd_apply)

text \<open>
  The whole loop: the users do not change; what is known afterwards was known before or is
  the one new session, and a request that is accepted presented a live token or valid
  credentials.
\<close>

lemma authentication_users: "as_users (fst (snd (authentication sys w st hs tb sz))) = as_users st"
proof (induction hs arbitrary: w st)
  case Nil
  then show ?case by simp
next
  case (Cons h hs)
  then show ?case
    unfolding authentication_step
    by (auto simp: check_token_valid_def login_user_def store_session_token_def Let_def
        split: option.split prod.split)
qed

lemma authentication_rc: "fst (authentication sys w st hs tb sz) \<in> {0, - EACCES}"
proof (induction hs arbitrary: w st)
  case (Cons h hs)
  then show ?case
    unfolding authentication_step by (auto split: option.split prod.split)
qed simp

text \<open>
  What the loop decides. A request is accepted because it presents a token that is known
  and not expired at one of the readings of the clock, or because it presents credentials
  of a user and a buffer for the new token, which is then the only new session.
\<close>

definition presents_live_token ::
  "'w sys_api \<Rightarrow> 'w \<Rightarrow> web_session_t list \<Rightarrow> http_header list \<Rightarrow> bool" where
  "presents_live_token sys w ss hs \<longleftrightarrow>
     (\<exists>h \<in> set hs. \<exists>t e k. header_token h = Some t \<and> (t, e) \<in> open_sessions ss \<and>
        k < length hs \<and> fst (time_now sys (after_reads sys k w)) < e)"

definition presents_credentials ::
  "'w sys_api \<Rightarrow> web_users_list_t \<Rightarrow> http_header list \<Rightarrow> bool" where
  "presents_credentials sys l hs \<longleftrightarrow>
     (\<exists>h \<in> set hs. \<exists>u p. header_credentials sys h = Some (u, p) \<and>
        (\<exists>r \<in> set (wl_user l). user_name r = u \<and> wu_pass_hash r = digest sys p))"

lemma nul_free_basic: "basic_credentials sys e = Some (u, p) \<Longrightarrow> nul_free u"
  by (auto simp: basic_credentials_def Let_def split: prod.splits if_splits option.splits)

lemma nul_free_header_credentials: "header_credentials sys h = Some (u, p) \<Longrightarrow> nul_free u"
  by (auto simp: header_credentials_def Let_def split: if_splits dest: nul_free_basic)

lemma presents_live_token_Cons:
  assumes "presents_live_token sys (snd (time_now sys w)) ss hs" and "open_sessions ss \<subseteq> open_sessions ss'"
  shows "presents_live_token sys w ss' (h # hs)"
proof -
  from assms(1) obtain g t e k where *: "g \<in> set hs" "header_token g = Some t" "(t, e) \<in> open_sessions ss"
    "k < length hs" "fst (time_now sys (after_reads sys k (snd (time_now sys w)))) < e"
    unfolding presents_live_token_def by blast
  have "after_reads sys (Suc k) w = after_reads sys k (snd (time_now sys w))"
    unfolding after_reads_def by (simp only: funpow_Suc_right o_apply)
  with * assms(2) show ?thesis unfolding presents_live_token_def
    by (intro bexI [of _ g] exI [of _ t] exI [of _ e] exI [of _ "Suc k"]) auto
qed

lemma presents_live_token_skip:
  "presents_live_token sys w ss hs \<Longrightarrow> presents_live_token sys w ss (h # hs)"
  unfolding presents_live_token_def by (metis length_Cons less_Suc_eq list.set_intros(2))

lemma presents_credentials_Cons: "presents_credentials sys l hs \<Longrightarrow> presents_credentials sys l (h # hs)"
  by (auto simp: presents_credentials_def)

text \<open>
  The three outcomes: accepted with the sessions as they were (less the expired ones that
  were presented), accepted with one new session, or rejected.
\<close>

inductive auth_outcome ::
  "'w sys_api \<Rightarrow> 'w \<Rightarrow> auth_state \<Rightarrow> http_header list \<Rightarrow> buffer option \<Rightarrow> nat
     \<Rightarrow> int \<Rightarrow> auth_state \<Rightarrow> buffer option \<Rightarrow> bool"
  for sys w st hs tb sz
where
  by_token:
    "presents_live_token sys w (as_sessions st) hs \<Longrightarrow>
     open_sessions (as_sessions st') \<subseteq> open_sessions (as_sessions st) \<Longrightarrow>
     auth_outcome sys w st hs tb sz 0 st' tb"
| by_login:
    "presents_credentials sys (as_users st) hs \<Longrightarrow> tb \<noteq> None \<Longrightarrow> sz \<noteq> 0 \<Longrightarrow> hex_token (cstr b') \<Longrightarrow>
     s = (cstr b', fst (time_now sys w1) + SESSION_LIFETIME_SEC) \<Longrightarrow> s \<in> open_sessions (as_sessions st') \<Longrightarrow>
     open_sessions (as_sessions st') \<subseteq> insert s (open_sessions (as_sessions st)) \<Longrightarrow>
     auth_outcome sys w st hs tb sz 0 st' (Some b')"
| rejected:
    "open_sessions (as_sessions st') \<subseteq> open_sessions (as_sessions st) \<Longrightarrow>
     auth_outcome sys w st hs tb sz (- EACCES) st' tb"

inductive_cases auth_outcomeE: "auth_outcome sys w st hs tb sz rc st' tb'"

lemma auth_outcome_skip:
  "auth_outcome sys w st hs tb sz rc st' tb' \<Longrightarrow> auth_outcome sys w st (h # hs) tb sz rc st' tb'"
  by (erule auth_outcomeE)
    (auto intro: auth_outcome.intros dest: presents_live_token_skip presents_credentials_Cons)

lemma auth_outcome_after_check:
  assumes out: "auth_outcome sys (snd (time_now sys w)) st1 hs tb sz rc st' tb'"
    and le: "open_sessions (as_sessions st1) \<subseteq> open_sessions (as_sessions st)"
    and names: "as_users st1 = as_users st"
  shows "auth_outcome sys w st (h # hs) tb sz rc st' tb'"
  using out
proof cases
  case by_token
  then show ?thesis
    using presents_live_token_Cons [OF _ le, of sys w hs h] subset_trans [OF _ le] auth_outcome.by_token by metis
next
  case (by_login b' s w1)
  then have "open_sessions (as_sessions st') \<subseteq> insert s (open_sessions (as_sessions st))" using le by blast
  with by_login show ?thesis
    using presents_credentials_Cons [of sys "as_users st" hs h] names auth_outcome.by_login [of sys st "h # hs" tb sz b' s w1 st' w]
    by simp
next
  case rejected
  then show ?thesis using subset_trans [OF _ le] auth_outcome.rejected by metis
qed

text \<open>The buffer a caller passes: none, of size 0, or as large as a session token.\<close>

definition token_buf_ok :: "buffer option \<Rightarrow> nat \<Rightarrow> bool" where
  "token_buf_ok tb sz \<longleftrightarrow>
     (case tb of None \<Rightarrow> True | Some b \<Rightarrow> sz = 0 \<or> (sz = SESSION_TOKEN_SIZE \<and> length b = SESSION_TOKEN_SIZE))"

lemma authentication_result:
  assumes laws: "sha256_lawful sys" "uninit_lawful sys" and tb: "token_buf_ok tb sz"
    and "web_users_wf (as_users st)" and "sessions_typed (as_sessions st)"
    and "authentication sys w st hs tb sz = (rc, st', w', tb')"
  shows "sessions_typed (as_sessions st') \<and> auth_outcome sys w st hs tb sz rc st' tb'"
  using assms(4-)
proof (induction hs arbitrary: w st)
  case Nil
  then show ?case by (auto intro: auth_outcome.rejected)
next
  case (Cons h hs)
  note typed = \<open>sessions_typed (as_sessions st)\<close> and users = \<open>web_users_wf (as_users st)\<close>
  have skip: ?case if "authentication sys w st (h # hs) tb sz = authentication sys w st hs tb sz"
    using Cons.IH [OF users typed] Cons.prems(3) that by (auto intro: auth_outcome_skip)
  show ?case
  proof (cases "header_token h")
    case (Some t)
    let ?c = "check_token_at (fst (time_now sys w)) t (as_sessions st)"
    obtain ok st1 w1 where c: "check_token_valid sys w st t = (ok, st1, w1)"
      by (cases "check_token_valid sys w st t")
    then have st1: "st1 = st\<lparr>as_sessions := snd ?c\<rparr>" "ok = fst ?c" "w1 = snd (time_now sys w)"
      by (auto simp: check_token_valid_eq Let_def)
    have t1: "sessions_typed (as_sessions st1)" and u1: "as_users st1 = as_users st"
      and le: "open_sessions (as_sessions st1) \<subseteq> open_sessions (as_sessions st)"
      using check_typed [OF typed] check_only_removes st1(1) by simp_all
    show ?thesis
    proof (cases ok)
      case True
      with check_accepts_open [OF nul_free_header_token [OF Some]] st1(2)
      obtain e where "(t, e) \<in> open_sessions (as_sessions st)" "fst (time_now sys w) < e" by blast
      with Some have "presents_live_token sys w (as_sessions st) (h # hs)"
        unfolding presents_live_token_def after_reads_def by force
      with True Some c Cons.prems(3) t1 le show ?thesis
        unfolding authentication_step by (auto intro: auth_outcome.by_token)
    next
      case False
      with Some c Cons.prems(3) have "authentication sys w1 st1 hs tb sz = (rc, st', w', tb')"
        unfolding authentication_step by simp
      from Cons.IH [OF _ t1 this] users u1 st1(3)
      show ?thesis using auth_outcome_after_check [OF _ le u1] by auto
    qed
  next
    case None
    show ?thesis
    proof (cases "header_credentials sys h = None \<or> tb = None \<or> sz = 0")
      case True
      with None have "authentication sys w st (h # hs) tb sz = authentication sys w st hs tb sz"
        unfolding authentication_step by (auto split: option.split)
      then show ?thesis by (rule skip)
    next
      case False
      then obtain u p b where h: "header_credentials sys h = Some (u, p)" "tb = Some b" "sz \<noteq> 0" by auto
      show ?thesis
      proof (cases "check_user_credentials sys w (as_users st) u p")
        case True
        have cred: "presents_credentials sys (as_users st) (h # hs)"
          using True h(1) check_user_credentials_wf [OF laws(1) users nul_free_header_credentials [OF h(1)]]
          unfolding presents_credentials_def by fastforce
        obtain st1 w1 b' where l: "login_user sys w st u b sz = (st1, w1, b')"
          by (cases "login_user sys w st u b sz")
        with True h None Cons.prems(3) have r: "rc = 0" "st' = st1" "tb' = Some b'"
          unfolding authentication_step by auto
        from tb h have "sz = SESSION_TOKEN_SIZE" "length b = SESSION_TOKEN_SIZE"
          by (auto simp: token_buf_ok_def)
        with l login_user_result [OF laws, of b w st u st1 w1 b'] obtain w2 where x: "hex_token (cstr b')"
          and s: "st1 = st\<lparr>as_sessions := store_session_at (fst (time_now sys w2)) (cstr b') (as_sessions st)\<rparr>"
          by metis
        have "auth_outcome sys w st (h # hs) tb sz 0 st1 (Some b')"
          by (rule auth_outcome.by_login [where ?w1.0 = w2, OF cred _ h(3) x refl])
            (use h(2) s store_opens_one [OF typed hex_token_name [OF x]] in simp_all)
        then show ?thesis unfolding r using s store_typed [OF typed] by simp
      next
        case False
        with h None Cons.prems show ?thesis
          unfolding authentication_step by (auto intro: auth_outcome.rejected)
      qed
    qed
  qed
qed

text \<open>A request that presents no token is accepted by a login, in the world it came in.\<close>

lemma accepted_by_login:
  assumes "authentication sys w st hs tb sz = (0, st', w', tb')" and "\<forall>h \<in> set hs. header_token h = None"
  obtains h u p b b' where "h \<in> set hs" and "header_credentials sys h = Some (u, p)" and "tb = Some b" and "sz \<noteq> 0"
    and "login_user sys w st u b sz = (st', w', b')" and "tb' = Some b'"
  using assms
proof (induction hs arbitrary: thesis)
  case Nil
  then show ?case by (simp add: errno)
next
  case (Cons h hs)
  have none: "header_token h = None" "\<forall>h \<in> set hs. header_token h = None" using Cons.prems(3) by simp_all
  show ?case
  proof (cases "header_credentials sys h = None \<or> tb = None \<or> sz = 0")
    case True
    then have "authentication sys w st (h # hs) tb sz = authentication sys w st hs tb sz"
      using none(1) unfolding authentication_step by (auto split: option.split)
    with Cons.IH [OF _ _ none(2)] Cons.prems(1,2) show ?thesis by (metis list.set_intros(2))
  next
    case False
    then obtain u p b where "header_credentials sys h = Some (u, p)" "tb = Some b" "sz \<noteq> 0" by auto
    moreover from this none(1) Cons.prems(2) obtain b' where "login_user sys w st u b sz = (st', w', b')" "tb' = Some b'"
      unfolding authentication_step by (auto simp: errno split: if_splits prod.splits)
    ultimately show ?thesis using Cons.prems(1) [of h] by auto
  qed
qed

section \<open>Sending a token back\<close>

definition cookie_header :: "string \<Rightarrow> http_header" where
  "cookie_header t = \<lparr>hdr_name = ''Cookie'', hdr_value = ''session_token='' @ t\<rparr>"

definition bearer_header :: "string \<Rightarrow> http_header" where
  "bearer_header t = \<lparr>hdr_name = ''Authorization'', hdr_value = ''Bearer '' @ t\<rparr>"

lemma hex_token_facts:
  assumes "hex_token t"
  shows "nul_free t" and "CHR '';'' \<notin> set t" and "length t = 32"
  using assms hex_token_name [OF assms] hex_token_chars [of t "CHR '';''"]
  by (auto simp: session_name_def hex_token_def char_code_def)

lemma cookie_token_of:
  assumes "hex_token t"
  shows "cookie_token (''session_token='' @ t) = Some t"
proof -
  have "strchr t (CHR '';'') = None" and "length t = 32" using hex_token_facts [OF assms] by simp_all
  then show ?thesis by (simp add: cookie_token_def Let_def SESSION_TOKEN_SIZE_def del: strchr_None_iff)
qed

lemma bearer_token_of:
  assumes "hex_token t"
  shows "bearer_token (''Bearer '' @ t) = t"
proof -
  have "cstr t = t" and "length t = 32" using hex_token_facts [OF assms] by (simp_all add: cstr_id)
  then show ?thesis
    unfolding bearer_token_def by (subst strncpy_terminated) (simp_all add: SESSION_TOKEN_SIZE_def)
qed

lemma header_token_cookie: "hex_token t \<Longrightarrow> header_token (cookie_header t) = Some t"
  using hex_token_facts [of t] cookie_token_of [of t]
  by (simp add: header_token_def cookie_header_def cstr_id strcasecmp_eq_def)

lemma header_token_bearer:
  assumes "hex_token t"
  shows "header_token (bearer_header t) = Some t"
proof -
  have "\<not> strcasecmp_eq ''Authorization'' ''Cookie''" "strcasecmp_eq ''Authorization'' ''Authorization''"
    by code_simp+
  moreover have "cstr (''Bearer '' @ t) = ''Bearer '' @ t"
    using hex_token_facts(1) [OF assms] by (simp add: cstr_id)
  moreover have "map tolower ''Bearer'' \<noteq> map tolower ''Basic ''" by code_simp
  then have "\<not> strncasecmp_eq (''Bearer '' @ t) ''Basic '' 6" "strncasecmp_eq (''Bearer '' @ t) ''Bearer '' 7"
    using hex_token_facts(1) [OF assms] by (simp_all add: strncasecmp_eq_def cstr_id)
  ultimately show ?thesis
    using bearer_token_of [OF assms] by (simp add: header_token_def bearer_header_def)
qed

text \<open>A request with one header that carries a token is decided by the table.\<close>

lemma single_token_request:
  assumes "sessions_inv (as_sessions st)" and "header_token h = Some t"
  shows "fst (authentication sys w st [h] tb sz) =
    (if \<exists>e. session_expiry (as_sessions st) t = Some e \<and> fst (time_now sys w) < e then 0 else - EACCES)"
proof -
  obtain ok st1 w1 where c: "check_token_valid sys w st t = (ok, st1, w1)"
    by (cases "check_token_valid sys w st t")
  with assms check_token_valid_result(1) [OF assms(1) nul_free_header_token [OF assms(2)] c]
  show ?thesis unfolding authentication_step by auto
qed

text \<open>The header a browser sends for a name and a password, and a login with it alone.\<close>

definition basic_header :: "string \<Rightarrow> http_header" where
  "basic_header encoded = \<lparr>hdr_name = ''Authorization'', hdr_value = ''Basic '' @ encoded\<rparr>"

lemma header_credentials_basic:
  assumes "nul_free encoded" and "base64_decode sys 256 encoded = (0, name @ '':'' @ pass)"
    and "nul_free name" and "CHR '':'' \<notin> set name" and "nul_free pass" and "length name + length pass < 255"
  shows "header_token (basic_header encoded) = None"
    and "header_credentials sys (basic_header encoded) = Some (name, pass)"
proof -
  have n: "\<not> strcasecmp_eq ''Authorization'' ''Cookie''" "strcasecmp_eq ''Authorization'' ''Authorization''"
    by code_simp+
  have v: "cstr (''Basic '' @ encoded) = ''Basic '' @ encoded" using assms(1) by (simp add: cstr_id)
  have b: "strncasecmp_eq (''Basic '' @ encoded) ''Basic '' 6" using assms(1) by (simp add: strncasecmp_eq_def cstr_id)
  have "strchr (name @ CHR '':'' # pass) (CHR '':'') = Some (CHR '':'' # pass)"
    using assms(4) by (simp add: strchr_hit)
  moreover have "cstr (name @ CHR '':'' # pass) = name @ CHR '':'' # pass"
    using assms(3,5) by (simp add: cstr_id)
  moreover have "min (Suc (length name + length pass)) 255 = Suc (length name + length pass)" using assms(6) by simp
  ultimately have "basic_credentials sys encoded = Some (name, pass)"
    using assms(2) by (simp add: basic_credentials_def)
  then show "header_token (basic_header encoded) = None"
    and "header_credentials sys (basic_header encoded) = Some (name, pass)"
    using n v b by (simp_all add: header_token_def header_credentials_def basic_header_def)
qed

lemma credentials_accepted:
  assumes "header_token h = None" and "header_credentials sys h = Some (u, p)"
    and "check_user_credentials sys w (as_users st) u p" and "sz \<noteq> 0"
  shows "fst (authentication sys w st [h] (Some b) sz) = 0"
  using assms unfolding authentication_step by (auto split: prod.split)

text \<open>
  The firmware relies on the hash, the random bytes and the clock for a token that is not in
  use: none of the tokens this request could be given now is that of an open session.
\<close>

definition login_token_new :: "'w sys_api \<Rightarrow> 'w \<Rightarrow> web_session_t list \<Rightarrow> http_header list \<Rightarrow> bool" where
  "login_token_new sys w ss hs \<longleftrightarrow>
     (\<forall>h \<in> set hs. \<forall>u p. header_credentials sys h = Some (u, p) \<longrightarrow> session_expiry ss (login_token sys w u) = None)"

lemma login_gives_token:
  assumes laws: "sha256_lawful sys" "uninit_lawful sys" and tb: "token_buf_ok tb sz"
    and inv: "sessions_inv (as_sessions st)" and new: "login_token_new sys w (as_sessions st) hs"
    and run: "authentication sys w st hs tb sz = (0, st', w', tb')"
    and none: "\<forall>h \<in> set hs. header_token h = None"
  obtains b' w1 where "tb' = Some b'" and "hex_token (cstr b')" and "sessions_inv (as_sessions st')"
    and "session_expiry (as_sessions st') (cstr b') = Some (fst (time_now sys w1) + SESSION_LIFETIME_SEC)"
proof -
  from accepted_by_login [OF run none] obtain h u p b b' where h: "h \<in> set hs" "header_credentials sys h = Some (u, p)"
    and b: "tb = Some b" "sz \<noteq> 0" "tb' = Some b'" and l: "login_user sys w st u b sz = (st', w', b')" by metis
  have sz: "length b = SESSION_TOKEN_SIZE" "sz = SESSION_TOKEN_SIZE" using tb b by (auto simp: token_buf_ok_def)
  with login_user_result [OF laws sz(1)] l obtain w1 where x: "hex_token (cstr b')" "cstr b' = login_token sys w u"
    and s: "st' = st\<lparr>as_sessions := store_session_at (fst (time_now sys w1)) (cstr b') (as_sessions st)\<rparr>" by metis
  note n = hex_token_name [OF x(1)]
  have "session_expiry (as_sessions st) (cstr b') = None" using new h x(2) by (simp add: login_token_new_def)
  from table.inv_store [OF inv n this] table.store_new [OF inv n this] b(3) x(1)
  show thesis by (intro that [of b' w1]) (simp_all add: s)
qed

section \<open>Concrete requests\<close>

definition demo_auth :: auth_state where
  "demo_auth = \<lparr>as_users = demo_users2, as_sessions = replicate MAX_SESSIONS web_session_zero\<rparr>"

definition demo_basic :: http_header where
  "demo_basic = \<lparr>hdr_name = ''authorization'', hdr_value = ''basic bob:pw''\<rparr>"

lemma demo_auth_ok [simp]: "users_inv (as_users demo_auth)" "sessions_inv (as_sessions demo_auth)"
  by (simp_all add: demo_auth_def demo_users_inv)

text \<open>The state with the session of a first login, and a world five seconds later.\<close>

definition demo_auth_open :: auth_state where
  "demo_auth_open = fst (snd (authentication demo_sys demo_init demo_auth [demo_basic] (Some (zeros 128)) 128))"

definition demo_later :: demo_world where
  "demo_later = demo_init\<lparr>dw_clock := 1005\<rparr>"

lemma demo_auth_open_ok:
  "users_inv (as_users demo_auth_open)" "sessions_inv (as_sessions demo_auth_open)"
  "login_token_new demo_sys demo_later (as_sessions demo_auth_open) [demo_basic]"
proof -
  have ok: "fst (authentication demo_sys demo_init demo_auth [demo_basic] (Some (zeros 128)) 128) = 0"
    and none: "header_token demo_basic = None"
    and cred: "header_credentials demo_sys demo_basic = Some (''bob'', ''pw'')"
    and new: "session_expiry (as_sessions demo_auth_open) (login_token demo_sys demo_later ''bob'') = None" by code_simp+
  then obtain w' tb' where r: "authentication demo_sys demo_init demo_auth [demo_basic] (Some (zeros 128)) 128 =
      (0, demo_auth_open, w', tb')" unfolding demo_auth_open_def by (metis prod.collapse)
  have "login_token_new demo_sys demo_init (as_sessions demo_auth) [demo_basic]"
    by (simp add: login_token_new_def demo_auth_def)
  from login_gives_token [OF demo_sha256_lawful demo_uninit_lawful _ demo_auth_ok(2) this r] none
  show "sessions_inv (as_sessions demo_auth_open)" by (auto simp: token_buf_ok_def SESSION_TOKEN_SIZE_def)
  show "users_inv (as_users demo_auth_open)" unfolding demo_auth_open_def authentication_users by simp
  show "login_token_new demo_sys demo_later (as_sessions demo_auth_open) [demo_basic]"
    using cred new by (simp add: login_token_new_def)
qed

section \<open>Properties\<close>

text \<open>
  C5. A request is accepted only for a reason: it presents the token of an open session that
  has not expired when the clock is read for it, or it passes a token buffer and presents, in
  a Basic header, the name of a user with a password that has the user's digest. Nothing is
  assumed of the sessions in the table but the sizes of its arrays.
\<close>

theorem authentication_sound:
  assumes "sha256_lawful sys" and "uninit_lawful sys" and "token_buf_ok tb sz"
    and "web_users_wf (as_users st)" and "sessions_typed (as_sessions st)"
    and "authentication sys w st hs tb sz = (rc, st', w', tb')" and "rc = 0"
  shows "presents_live_token sys w (as_sessions st) hs \<or>
    presents_credentials sys (as_users st) hs \<and> tb \<noteq> None \<and> sz \<noteq> 0"
  using authentication_result [OF assms(1-6)] assms(7)
  by (auto elim!: auth_outcomeE simp: errno)

theorem authentication_sound_witness:
  "presents_live_token demo_sys demo_later (as_sessions demo_auth_open)
     [cookie_header (login_token demo_sys demo_init ''bob'')]"
proof -
  let ?h = "cookie_header (login_token demo_sys demo_init ''bob'')"
  have "fst (authentication demo_sys demo_later demo_auth_open [?h] None 0) = 0" by code_simp
  moreover obtain rc st' w' tb' where r: "authentication demo_sys demo_later demo_auth_open [?h] None 0 = (rc, st', w', tb')"
    by (metis prod.collapse)
  ultimately have "rc = 0" by simp
  from authentication_sound [OF demo_sha256_lawful demo_uninit_lawful _ users_inv_wf [OF demo_auth_open_ok(1)]
      sessions_inv_typed [OF demo_auth_open_ok(2)] r this]
  show ?thesis by (simp add: token_buf_ok_def)
qed

text \<open>
  C6. A login ends the way the client needs it, whatever sessions are open: when a request
  without tokens is accepted, and the token generated for it is not that of an open session,
  the buffer holds a token with which later requests are accepted, as a cookie and as a
  bearer token, exactly until \<open>SESSION_LIFETIME_SEC\<close> after the clock reading of the login;
  and the open sessions still have different tokens, so that the next login can follow.
\<close>

theorem login_then_token:
  assumes "sha256_lawful sys" and "uninit_lawful sys" and "token_buf_ok tb sz"
    and "sessions_inv (as_sessions st)" and "login_token_new sys w (as_sessions st) hs"
    and "authentication sys w st hs tb sz = (0, st', w', tb')"
    and "\<forall>h \<in> set hs. header_token h = None"
  shows "sessions_inv (as_sessions st') \<and>
    (\<exists>token w1. tb' \<noteq> None \<and> token = cstr (the tb') \<and> length token = 32 \<and>
      (\<forall>w2. \<forall>h \<in> {cookie_header token, bearer_header token}.
         fst (authentication sys w2 st' [h] None 0) =
           (if fst (time_now sys w2) < fst (time_now sys w1) + SESSION_LIFETIME_SEC then 0 else - EACCES)))"
proof -
  obtain b' w1 where b: "tb' = Some b'" and tok: "hex_token (cstr b')" and inv: "sessions_inv (as_sessions st')"
    and e: "session_expiry (as_sessions st') (cstr b') = Some (fst (time_now sys w1) + SESSION_LIFETIME_SEC)"
    using login_gives_token [OF assms] .
  show ?thesis
    using single_token_request [OF inv header_token_cookie [OF tok], of sys] e b hex_token_facts(3) [OF tok]
      single_token_request [OF inv header_token_bearer [OF tok], of sys] inv
    by (intro conjI exI [of _ "cstr b'"] exI [of _ w1]) (simp_all del: authentication.simps)
qed

theorem login_then_token_witness:
  "\<exists>token limit. length token = 32 \<and>
     (\<forall>w2. fst (authentication demo_sys w2
         (fst (snd (authentication demo_sys demo_later demo_auth_open [demo_basic] (Some (zeros 128)) 128)))
         [cookie_header token] None 0) = (if fst (time_now demo_sys w2) < limit then 0 else - EACCES))"
proof -
  let ?r = "authentication demo_sys demo_later demo_auth_open [demo_basic] (Some (zeros 128)) 128"
  have ok: "fst ?r = 0" and none: "header_token demo_basic = None" by code_simp+
  from ok have "?r = (0, fst (snd ?r), fst (snd (snd ?r)), snd (snd (snd ?r)))" by (metis prod.collapse)
  from login_then_token [OF demo_sha256_lawful demo_uninit_lawful _ demo_auth_open_ok(2,3) this] none
  obtain token w1 where "length token = 32 \<and> (\<forall>w2. \<forall>h \<in> {cookie_header token, bearer_header token}.
      fst (authentication demo_sys w2 (fst (snd ?r)) [h] None 0) =
        (if fst (time_now demo_sys w2) < fst (time_now demo_sys w1) + SESSION_LIFETIME_SEC then 0 else - EACCES))"
    by (auto simp: token_buf_ok_def SESSION_TOKEN_SIZE_def simp del: authentication.simps)
  then show ?thesis by blast
qed

text \<open>
  A request that passes no token buffer only checks: it creates no session and renews
  none, changes no user and returns 0 or \<open>-EACCES\<close>; the only change is that expired
  sessions it presented are forgotten. In particular a Basic header is ignored.
\<close>

lemma check_only_creates_nothing:
  assumes "sha256_lawful sys" and "uninit_lawful sys" and "web_users_wf (as_users st)"
    and "sessions_typed (as_sessions st)" and "authentication sys w st hs None sz = (rc, st', w', tb')"
  shows "as_users st' = as_users st \<and> tb' = None \<and> rc \<in> {0, - EACCES} \<and>
    sessions_typed (as_sessions st') \<and> open_sessions (as_sessions st') \<subseteq> open_sessions (as_sessions st) \<and>
    (rc = 0 \<longrightarrow> presents_live_token sys w (as_sessions st) hs)"
  using authentication_result [OF assms(1,2) _ assms(3-5)] assms(5)
    authentication_users [of sys w st hs None sz]
  by (auto elim!: auth_outcomeE simp: token_buf_ok_def errno)

text \<open>
  C26. Wrong credentials end a login: when the first header is a Basic header whose user or
  password does not match, and the caller passes a token buffer, the result is \<open>-EACCES\<close>
  whatever valid token a later header carries, and no session changes. In check-only mode,
  without a buffer or with size 0, the header is passed over, and the later ones decide.
\<close>

theorem wrong_password_is_final:
  assumes "sha256_lawful sys" and "web_users_wf (as_users st)"
    and "header_credentials sys h = Some (u, p)"
    and "\<forall>r \<in> set (wl_user (as_users st)). user_name r = u \<longrightarrow> wu_pass_hash r \<noteq> digest sys p"
  shows "authentication sys w st (h # hs) tb sz =
    (if tb \<noteq> None \<and> sz \<noteq> 0 then (- EACCES, st, w, tb) else authentication sys w st hs tb sz)"
proof -
  have "header_token h = None"
    using assms(3) by (auto simp: header_token_def header_credentials_def Let_def split: if_splits)
  moreover have "\<not> check_user_credentials sys w (as_users st) u p"
    using assms(4) check_user_credentials_wf [OF assms(1,2) nul_free_header_credentials [OF assms(3)]] by blast
  ultimately show ?thesis unfolding authentication_step using assms(3) by (auto split: option.split)
qed

theorem wrong_password_is_final_witness:
  "authentication demo_sys demo_later demo_auth_open
     [\<lparr>hdr_name = ''Authorization'', hdr_value = ''Basic bob:no''\<rparr>, cookie_header (login_token demo_sys demo_init ''bob'')]
     (Some (zeros 128)) 128 = (- EACCES, demo_auth_open, demo_later, Some (zeros 128))"
proof -
  let ?h = "\<lparr>hdr_name = ''Authorization'', hdr_value = ''Basic bob:no''\<rparr>"
  have "header_credentials demo_sys ?h = Some (''bob'', ''no'')"
    and "\<forall>r \<in> set (wl_user (as_users demo_auth_open)). user_name r = ''bob'' \<longrightarrow> wu_pass_hash r \<noteq> digest demo_sys ''no''"
    by code_simp+
  from wrong_password_is_final [OF demo_sha256_lawful users_inv_wf [OF demo_auth_open_ok(1)] this]
  show ?thesis by (simp del: authentication.simps)
qed

end
