(* ===== verification/Post_Buffer.thy ===== *)
theory Post_Buffer
  imports Platform
begin

text \<open>
  How the REST handlers collect a POST body. The HTTP server calls a handler once per piece
  of data, with the status of the transfer; each handler keeps a static array and a cursor
  and repeats the same lines: an aborted transfer resets the cursor, a piece that does not
  fit resets it and fails with \<open>-ENOMEM\<close>, any other piece is appended, and the final one
  makes the body complete. Those lines are \<open>post_receive\<close>. The handlers that parse the body
  as JSON reset the cursor before they look at the result (\<open>post_step\<close>, with what they do
  with a body as its argument); the upload handler does not.

  The locale \<open>body_receiver\<close> is the contract of a handler towards the server: the answer
  depends on the body alone, not on how it was cut into pieces nor on earlier requests.
\<close>

section \<open>The static buffer\<close>

record post_ctx =
  pc_buff :: buffer
  pc_cursor :: nat

definition post_ctx_init :: "nat \<Rightarrow> post_ctx" where
  "post_ctx_init n = \<lparr>pc_buff = zeros n, pc_cursor = 0\<rparr>"

datatype post_result = Post_Return int | Post_More | Post_Body "byte list"

definition post_receive :: "http_data_status \<Rightarrow> byte list \<Rightarrow> post_ctx \<Rightarrow> post_result \<times> post_ctx" where
  "post_receive status data pc =
     (if status = HTTP_SERVER_DATA_ABORTED then (Post_Return 0, pc\<lparr>pc_cursor := 0\<rparr>)
      else if length data + pc_cursor pc > length (pc_buff pc)
      then (Post_Return (- ENOMEM), pc\<lparr>pc_cursor := 0\<rparr>)
      else let pc' = \<lparr>pc_buff = memcpy_at (pc_buff pc) (pc_cursor pc) data,
                      pc_cursor = pc_cursor pc + length data\<rparr>
           in (if status = HTTP_SERVER_DATA_FINAL
               then Post_Body (take (pc_cursor pc') (pc_buff pc')) else Post_More, pc'))"

text \<open>The body so far; the array has its declared size and the cursor is inside it.\<close>

definition post_pending :: "post_ctx \<Rightarrow> byte list" where
  "post_pending pc = take (pc_cursor pc) (pc_buff pc)"

definition post_inv :: "nat \<Rightarrow> post_ctx \<Rightarrow> bool" where
  "post_inv cap pc \<longleftrightarrow> length (pc_buff pc) = cap \<and> pc_cursor pc \<le> cap"

lemma post_pending_reset [simp]: "post_pending (pc\<lparr>pc_cursor := 0\<rparr>) = []"
  by (simp add: post_pending_def)

lemma post_inv_reset [simp]: "post_inv cap pc \<Longrightarrow> post_inv cap (pc\<lparr>pc_cursor := 0\<rparr>)"
  by (simp add: post_inv_def)

lemma post_inv_init [simp]: "post_inv n (post_ctx_init n)"
  by (simp add: post_inv_def post_ctx_init_def)

lemma post_pending_init [simp]: "post_pending (post_ctx_init n) = []"
  by (simp add: post_pending_def post_ctx_init_def)

lemma length_post_pending: "post_inv cap pc \<Longrightarrow> length (post_pending pc) = pc_cursor pc"
  by (simp add: post_inv_def post_pending_def)

text \<open>What a piece of data does, in terms of the body so far.\<close>

lemma post_receive_abort: "post_receive HTTP_SERVER_DATA_ABORTED d pc = (Post_Return 0, pc\<lparr>pc_cursor := 0\<rparr>)"
  by (simp add: post_receive_def)

lemma post_receive_overflow:
  "post_inv cap pc \<Longrightarrow> status \<noteq> HTTP_SERVER_DATA_ABORTED \<Longrightarrow> cap < length (post_pending pc) + length d \<Longrightarrow>
     post_receive status d pc = (Post_Return (- ENOMEM), pc\<lparr>pc_cursor := 0\<rparr>)"
  by (auto simp: post_receive_def post_inv_def post_pending_def)

lemma post_receive_fits:
  assumes "post_inv cap pc" and "status \<noteq> HTTP_SERVER_DATA_ABORTED" and "length (post_pending pc) + length d \<le> cap"
  obtains pc' where "post_inv cap pc'" and "post_pending pc' = post_pending pc @ d"
    and "post_receive status d pc =
      (if status = HTTP_SERVER_DATA_FINAL then Post_Body (post_pending pc @ d) else Post_More, pc')"
proof -
  have len: "length (pc_buff pc) = cap" "pc_cursor pc + length d \<le> cap" "length d + pc_cursor pc \<le> cap"
    using assms by (simp_all add: post_inv_def post_pending_def)
  let ?pc = "\<lparr>pc_buff = memcpy_at (pc_buff pc) (pc_cursor pc) d, pc_cursor = pc_cursor pc + length d\<rparr>"
  have p: "post_pending ?pc = post_pending pc @ d" and "post_inv cap ?pc"
    using len by (simp_all add: post_pending_def post_inv_def)
  moreover have "post_receive status d pc =
      (if status = HTTP_SERVER_DATA_FINAL then Post_Body (post_pending pc @ d) else Post_More, ?pc)"
    using assms(2) len p by (simp add: post_receive_def post_pending_def Let_def)
  ultimately show ?thesis by (intro that) auto
qed

section \<open>The contract of a handler\<close>

text \<open>
  Calls of a handler one after the other; the pieces of a body but the last; a history
  whose last call ended or aborted a request.
\<close>

fun calls :: "(http_data_status \<Rightarrow> byte list \<Rightarrow> 's \<Rightarrow> 'r \<times> 's) \<Rightarrow> (http_data_status \<times> byte list) list \<Rightarrow> 's \<Rightarrow> 's" where
  "calls step [] s = s"
| "calls step ((status, d) # es) s = calls step es (snd (step status d s))"

definition pieces :: "byte list list \<Rightarrow> (http_data_status \<times> byte list) list" where
  "pieces ds = map (Pair HTTP_SERVER_DATA_MORE) ds"

definition ended :: "(http_data_status \<times> byte list) list \<Rightarrow> bool" where
  "ended es \<longleftrightarrow> es = [] \<or> fst (last es) \<noteq> HTTP_SERVER_DATA_MORE"

lemma calls_append: "calls step (es @ fs) s = calls step fs (calls step es s)"
  by (induction step es s rule: calls.induct) simp_all

lemma ended_Nil [simp]: "ended []"
  by (simp add: ended_def)

text \<open>
  \<open>step\<close> is one call of the handler, \<open>pending\<close> the part of a body it holds, \<open>core\<close> the rest
  of its state (the world, the response buffer), and \<open>act\<close> what it does with a body.
\<close>

locale body_receiver =
  fixes step :: "http_data_status \<Rightarrow> byte list \<Rightarrow> 's \<Rightarrow> 'r \<times> 's"
    and inv :: "'s \<Rightarrow> bool"
    and pending :: "'s \<Rightarrow> byte list"
    and core :: "'s \<Rightarrow> 'c"
    and act :: "byte list \<Rightarrow> 'c \<Rightarrow> 'r \<times> 'c"
    and cap :: nat
  assumes step_inv: "inv s \<Longrightarrow> inv (snd (step status d s))"
    and abort: "inv s \<Longrightarrow> pending (snd (step HTTP_SERVER_DATA_ABORTED d s)) = [] \<and>
      core (snd (step HTTP_SERVER_DATA_ABORTED d s)) = core s"
    and overflow: "inv s \<Longrightarrow> status \<noteq> HTTP_SERVER_DATA_ABORTED \<Longrightarrow> cap < length (pending s) + length d \<Longrightarrow>
      pending (snd (step status d s)) = [] \<and> core (snd (step status d s)) = core s"
    and more: "inv s \<Longrightarrow> length (pending s) + length d \<le> cap \<Longrightarrow>
      pending (snd (step HTTP_SERVER_DATA_MORE d s)) = pending s @ d \<and>
      core (snd (step HTTP_SERVER_DATA_MORE d s)) = core s"
    and final: "inv s \<Longrightarrow> length (pending s) + length d \<le> cap \<Longrightarrow>
      fst (step HTTP_SERVER_DATA_FINAL d s) = fst (act (pending s @ d) (core s)) \<and>
      core (snd (step HTTP_SERVER_DATA_FINAL d s)) = snd (act (pending s @ d) (core s)) \<and>
      pending (snd (step HTTP_SERVER_DATA_FINAL d s)) = []"
begin

lemma calls_pieces:
  "inv s \<Longrightarrow> length (pending s) + length (concat ds) \<le> cap \<Longrightarrow>
     inv (calls step (pieces ds) s) \<and> pending (calls step (pieces ds) s) = pending s @ concat ds \<and>
     core (calls step (pieces ds) s) = core s"
proof (induction ds arbitrary: s)
  case Nil
  then show ?case by (simp add: pieces_def)
next
  case (Cons d ds)
  let ?s = "snd (step HTTP_SERVER_DATA_MORE d s)"
  have "pending ?s = pending s @ d \<and> core ?s = core s" and "inv ?s"
    using Cons.prems by (simp_all add: more step_inv)
  with Cons.IH [of ?s] Cons.prems show ?case by (simp add: pieces_def)
qed

lemma chunked_body:
  assumes "inv s" and "pending s = []" and "length (concat ds @ d) \<le> cap"
  shows "fst (step HTTP_SERVER_DATA_FINAL d (calls step (pieces ds) s)) = fst (act (concat ds @ d) (core s)) \<and>
    core (snd (step HTTP_SERVER_DATA_FINAL d (calls step (pieces ds) s))) = snd (act (concat ds @ d) (core s)) \<and>
    pending (snd (step HTTP_SERVER_DATA_FINAL d (calls step (pieces ds) s))) = []"
  using calls_pieces [OF assms(1), of ds] assms(2,3) final [of "calls step (pieces ds) s" d] by simp

lemma calls_inv: "inv s \<Longrightarrow> inv (calls step es s)"
  by (induction es arbitrary: s) (auto simp: step_inv)

lemma request_end:
  assumes "inv s" and "status \<noteq> HTTP_SERVER_DATA_MORE"
  shows "pending (snd (step status d s)) = []"
proof (cases "status = HTTP_SERVER_DATA_ABORTED")
  case True
  with assms show ?thesis by (simp add: abort)
next
  case False
  with assms(2) have "status = HTTP_SERVER_DATA_FINAL" by (cases status) auto
  with assms(1) overflow [of s status d] final [of s d] show ?thesis
    by (cases "cap < length (pending s) + length d") auto
qed

text \<open>
  After any calls of which the last ended or aborted a request, a body that fits is
  answered as if it had come alone and in one piece.
\<close>

lemma calls_ended:
  assumes "inv s" and "pending s = []" and "ended es"
  shows "pending (calls step es s) = []"
proof (cases es rule: rev_cases)
  case Nil
  with assms(2) show ?thesis by simp
next
  case (snoc fs e)
  obtain status x where "e = (status, x)" by (cases e)
  with assms(1,3) snoc show ?thesis by (simp add: request_end calls_inv calls_append ended_def)
qed

lemma request_after_history:
  assumes "inv s" and "pending s = []" and "ended es" and "length (concat ds @ d) \<le> cap"
  shows "fst (step HTTP_SERVER_DATA_FINAL d (calls step (es @ pieces ds) s)) =
      fst (act (concat ds @ d) (core (calls step es s))) \<and>
    core (snd (step HTTP_SERVER_DATA_FINAL d (calls step (es @ pieces ds) s))) =
      snd (act (concat ds @ d) (core (calls step es s)))"
  using chunked_body [OF calls_inv [OF assms(1)] calls_ended [OF assms(1-3)] assms(4)]
  by (simp add: calls_append)

end

section \<open>Handlers that reset the cursor\<close>

text \<open>
  \<open>act\<close> is the code from the parse on, over the handler's other state; \<open>ret\<close> gives what is
  answered when the call ends without a body (the return code, and for one handler a
  response too).
\<close>

definition post_step ::
  "(byte list \<Rightarrow> 'c \<Rightarrow> 'r \<times> 'c) \<Rightarrow> (int \<Rightarrow> 'r) \<Rightarrow> http_data_status \<Rightarrow> byte list \<Rightarrow> 'c \<times> post_ctx
     \<Rightarrow> 'r \<times> ('c \<times> post_ctx)" where
  "post_step act ret status data s =
     (let (c, pc) = s in
      case post_receive status data pc of
        (Post_Return rc, pc') \<Rightarrow> (ret rc, c, pc')
      | (Post_More, pc') \<Rightarrow> (ret 0, c, pc')
      | (Post_Body body, pc') \<Rightarrow> let (r, c') = act body c in (r, c', pc'\<lparr>pc_cursor := 0\<rparr>))"

lemma post_step_receiver:
  fixes act :: "byte list \<Rightarrow> 'c \<Rightarrow> 'r \<times> 'c"
  shows "body_receiver (post_step act ret) (\<lambda>s. post_inv cap (snd s)) (\<lambda>s. post_pending (snd s)) fst act cap"
proof
  fix s :: "'c \<times> post_ctx" and d status
  obtain c pc where s: "s = (c, pc)" by (cases s)
  assume "post_inv cap (snd s)"
  then have inv: "post_inv cap pc" by (simp add: s)
  show "post_pending (snd (snd (post_step act ret HTTP_SERVER_DATA_ABORTED d s))) = [] \<and>
      fst (snd (post_step act ret HTTP_SERVER_DATA_ABORTED d s)) = fst s"
    by (simp add: post_step_def s post_receive_abort)
  have over: "post_step act ret status d s = (ret (- ENOMEM), c, pc\<lparr>pc_cursor := 0\<rparr>)"
    if "status \<noteq> HTTP_SERVER_DATA_ABORTED" "cap < length (post_pending pc) + length d" for status
    using post_receive_overflow [OF inv that] by (simp add: post_step_def s)
  have fits: "\<exists>pc'. post_inv cap pc' \<and> post_pending pc' = post_pending pc @ d \<and>
      post_step act ret status d s =
        (if status = HTTP_SERVER_DATA_FINAL
         then (fst (act (post_pending pc @ d) c), snd (act (post_pending pc @ d) c), pc'\<lparr>pc_cursor := 0\<rparr>)
         else (ret 0, c, pc'))"
    if a: "status \<noteq> HTTP_SERVER_DATA_ABORTED" "length (post_pending pc) + length d \<le> cap" for status
    by (rule post_receive_fits [OF inv a])
      (auto simp: post_step_def s Let_def split: prod.split)
  show "post_inv cap (snd (snd (post_step act ret status d s)))"
  proof (cases "status = HTTP_SERVER_DATA_ABORTED")
    case True
    then show ?thesis using inv by (simp add: post_step_def s post_receive_abort)
  next
    case False
    then show ?thesis
      using over [of status] fits [of status] inv
      by (cases "cap < length (post_pending pc) + length d") auto
  qed
  show "post_pending (snd (snd (post_step act ret status d s))) = [] \<and>
      fst (snd (post_step act ret status d s)) = fst s"
    if "status \<noteq> HTTP_SERVER_DATA_ABORTED" "cap < length (post_pending (snd s)) + length d"
    using over [of status] that by (simp add: s)
  assume fit: "length (post_pending (snd s)) + length d \<le> cap"
  then show "post_pending (snd (snd (post_step act ret HTTP_SERVER_DATA_MORE d s))) = post_pending (snd s) @ d \<and>
      fst (snd (post_step act ret HTTP_SERVER_DATA_MORE d s)) = fst s"
    using fits [of HTTP_SERVER_DATA_MORE] by (auto simp: s)
  show "fst (post_step act ret HTTP_SERVER_DATA_FINAL d s) = fst (act (post_pending (snd s) @ d) (fst s)) \<and>
      fst (snd (post_step act ret HTTP_SERVER_DATA_FINAL d s)) = snd (act (post_pending (snd s) @ d) (fst s)) \<and>
      post_pending (snd (snd (post_step act ret HTTP_SERVER_DATA_FINAL d s))) = []"
    using fits [of HTTP_SERVER_DATA_FINAL] fit by (auto simp: s)
qed

lemma calls_post_step_core:
  assumes "\<And>b c. P c \<Longrightarrow> P (snd (act b c))" and "P (fst s)"
  shows "P (fst (calls (post_step act ret) es s))"
  using assms(2)
proof (induction es arbitrary: s)
  case Nil
  then show ?case by simp
next
  case (Cons e es)
  obtain status d where e: "e = (status, d)" by (cases e)
  have "P (fst (snd (post_step act ret status d s)))"
    using Cons.prems assms(1) [of "fst s"]
    by (auto simp: post_step_def Let_def split: prod.split post_result.split) (metis snd_conv)
  with Cons.IH show ?case by (simp add: e)
qed

end
