(* ===== verification/Relay_Bits.thy ===== *)
theory Relay_Bits
  imports Platform
begin

text \<open>
  The relay byte that travels on the outputs channel: bit \<open>i\<close> is relay \<open>i + 1\<close>. The REST
  handler and the safe state of \<open>io.c\<close> build it with shifts (\<open>pack_relays\<close>), the
  io task and the REST answer take it apart with the masks 1, 2 and 4
  (\<open>relay_pins\<close>), and the Home Assistant task reads and sets single bits of it
  (\<open>get_bit\<close>, \<open>set_relay_bit\<close>). The locale \<open>relay_codec\<close> states how a writer and a reader of
  the byte fit together.
\<close>

unbundle bit_operations_syntax

definition pack_relays :: "bool \<Rightarrow> bool \<Rightarrow> bool \<Rightarrow> u8" where
  "pack_relays r1 r2 r3 =
     (push_bit 0 (of_bool r1) OR push_bit 1 (of_bool r2)) OR push_bit 2 (of_bool r3)"

definition relay_pins :: "u8 \<Rightarrow> bool list" where
  "relay_pins state = [state AND 1 \<noteq> 0, state AND 2 \<noteq> 0, state AND 4 \<noteq> 0]"

definition get_bit :: "u32 \<Rightarrow> u8 \<Rightarrow> u8" where
  "get_bit state index = ucast (drop_bit (unat index) state AND 1)"

text \<open>
  The mask is computed as \<open>1u << (tmp_sensor_number - 1)\<close> and stored in a byte. The source
  leaves the shift undefined when the number is 0 or above 32; the model gives it the value
  0 there, and the theorems about it ask for a number from 1 to 8.
\<close>

definition relay_mask :: "u8 \<Rightarrow> u8" where
  "relay_mask n = (if n = 0 then 0 else ucast (push_bit (unat n - 1) (1 :: u32)))"

definition set_relay_bit :: "u8 \<Rightarrow> u8 \<Rightarrow> bool \<Rightarrow> u8" where
  "set_relay_bit state n on = (if on then state OR relay_mask n else state AND NOT (relay_mask n))"

section \<open>Bits\<close>

lemma bit_pack_relays:
  "bit (pack_relays r1 r2 r3) i \<longleftrightarrow> (i = 0 \<and> r1) \<or> (i = 1 \<and> r2) \<or> (i = 2 \<and> r3)"
  unfolding pack_relays_def by (auto simp: bit_simps simp del: of_bool_eq)

lemma and_mask_bit:
  "(s :: u8) AND 1 \<noteq> 0 \<longleftrightarrow> bit s 0" "(s :: u8) AND 2 \<noteq> 0 \<longleftrightarrow> bit s 1" "(s :: u8) AND 4 \<noteq> 0 \<longleftrightarrow> bit s 2"
proof -
  have *: "(s AND push_bit n 1 \<noteq> 0) = bit s n" if "n < 8" for n
  proof (cases "bit s n")
    case True
    with that have "bit (s AND push_bit n 1) n" by (simp add: bit_simps)
    moreover have "\<not> bit (0 :: u8) n" by simp
    ultimately show ?thesis using True by metis
  next
    case False
    then have "s AND push_bit n 1 = 0" by (intro bit_word_eqI) (auto simp: bit_simps)
    with False show ?thesis by simp
  qed
  show "s AND 1 \<noteq> 0 \<longleftrightarrow> bit s 0" "s AND 2 \<noteq> 0 \<longleftrightarrow> bit s 1" "s AND 4 \<noteq> 0 \<longleftrightarrow> bit s 2"
    using * [of 0] * [of 1] * [of 2] by (simp_all add: push_bit_eq_mult)
qed

lemma relay_pins_bits: "relay_pins s = [bit s 0, bit s 1, bit s 2]"
  by (simp add: relay_pins_def and_mask_bit)

lemma bit_relay_mask: "1 \<le> unat n \<Longrightarrow> bit (relay_mask n) i \<longleftrightarrow> i = unat n - 1 \<and> i < 8"
  by (auto simp: relay_mask_def bit_simps)

lemma bit_set_relay_bit:
  assumes "1 \<le> unat n" and "unat n \<le> 8"
  shows "bit (set_relay_bit s n on) i \<longleftrightarrow> (if i = unat n - 1 then on else bit s i)"
proof (cases "i < 8")
  case True
  with assms show ?thesis by (auto simp: set_relay_bit_def bit_simps bit_relay_mask)
next
  case False
  then have "\<not> bit (x :: u8) i" for x by (simp add: bit_word.rep_eq)
  with False assms show ?thesis by auto
qed

section \<open>Writers and readers\<close>

locale relay_codec =
  fixes pack :: "bool \<Rightarrow> bool \<Rightarrow> bool \<Rightarrow> 'b"
    and pins :: "'b \<Rightarrow> bool list"
    and set_one :: "'b \<Rightarrow> nat \<Rightarrow> bool \<Rightarrow> 'b"
  assumes pins_pack: "pins (pack r1 r2 r3) = [r1, r2, r3]"
    and pins_set: "i < 3 \<Longrightarrow> pins (set_one b i on) = (pins b)[i := on]"
begin

text \<open>Any sequence of single settings acts on the three relays independently.\<close>

lemma pins_sets:
  "\<forall>(i, on) \<in> set ops. i < 3 \<Longrightarrow>
     pins (foldl (\<lambda>b (i, on). set_one b i on) b ops) = foldl (\<lambda>ps (i, on). ps[i := on]) (pins b) ops"
  by (induction ops arbitrary: b) (auto simp: pins_set)

lemma set_set: "i < 3 \<Longrightarrow> pins (set_one (set_one b i x) i y) = (pins b)[i := y]"
  by (simp add: pins_set)

end

interpretation relay: relay_codec pack_relays relay_pins "\<lambda>s i. set_relay_bit s (of_nat (Suc i))"
proof
  fix r1 r2 r3 show "relay_pins (pack_relays r1 r2 r3) = [r1, r2, r3]"
    by (simp add: relay_pins_bits bit_pack_relays)
next
  fix i :: nat and b on assume i: "i < 3"
  then have "unat (of_nat (Suc i) :: u8) = Suc i" by (simp add: unat_of_nat del: of_nat_Suc)
  then have "bit (set_relay_bit b (of_nat (Suc i)) on) k = (if k = i then on else bit b k)" for k
    using i by (subst bit_set_relay_bit) auto
  then have "relay_pins (set_relay_bit b (of_nat (Suc i)) on) =
      map (\<lambda>k. if k = i then on else bit b k) [0, 1, 2]"
    by (simp add: relay_pins_bits del: of_nat_Suc)
  moreover from i have "i = 0 \<or> i = 1 \<or> i = 2" by auto
  ultimately show "relay_pins (set_relay_bit b (of_nat (Suc i)) on) = (relay_pins b)[i := on]"
    by (elim disjE) (simp_all add: relay_pins_bits numeral_2_eq_2)
qed

lemma relay_pins_pack [simp]: "relay_pins (pack_relays r1 r2 r3) = [r1, r2, r3]"
  by (rule relay.pins_pack)

end
