(* ===== verification/Rest_Relays.thy ===== *)
theory Rest_Relays
  imports Post_Buffer Relay_Bits Demo_Platform
begin

text \<open>
  \<open>web/REST_endpoints/relays_state.c\<close>: \<open>GET /api/relays/state\<close> prints the relay byte of the
  outputs channel, \<open>POST\<close> parses three booleans and publishes them with the next sequence
  number. The state of the handler is the world and its statics, the response buffer and
  the POST buffer (\<open>rest_state\<close>, the same for the handlers of the other theories). A handler
  returns its code and the response context, and the new state.
\<close>

section \<open>The handler\<close>

type_synonym 'w rest_state = "('w \<times> buffer) \<times> post_ctx"

definition rest_init :: "'w \<Rightarrow> 'w rest_state" where
  "rest_init w = ((w, zeros 256), post_ctx_init 256)"

definition invalid_json :: "http_response_ctx \<Rightarrow> http_response_ctx" where
  "invalid_json resp =
     respond resp HTTP_400_BAD_REQUEST ''{\"error\":\"invalid json or missing fields\"}''"

definition format_error :: "http_response_ctx \<Rightarrow> http_response_ctx" where
  "format_error resp = respond resp HTTP_500_INTERNAL_SERVER_ERROR ''{\"error\":\"format\"}''"

record relays_state_t =
  rl_relay1 :: bool
  rl_relay2 :: bool
  rl_relay3 :: bool

definition relays_state_update :: "'w zbus_api \<Rightarrow> 'w \<Rightarrow> relays_state_t \<Rightarrow> 'w" where
  "relays_state_update zb w state =
     (let m = chan_read (zbus_read_outputs zb w) \<lparr>om_seq = 0, om_state = 0\<rparr>
      in snd (zbus_pub_outputs zb w
           \<lparr>om_seq = om_seq m + 1, om_state = pack_relays (rl_relay1 state) (rl_relay2 state) (rl_relay3 state)\<rparr>))"

definition relays_state_get :: "'w zbus_api \<Rightarrow> 'w \<Rightarrow> u8" where
  "relays_state_get zb w = om_state (chan_read (zbus_read_outputs zb w) \<lparr>om_seq = 0, om_state = 0\<rparr>)"

definition relays_state_descr :: json_descr where
  "relays_state_descr = [(''relay1'', JSON_TOK_TRUE), (''relay2'', JSON_TOK_TRUE), (''relay3'', JSON_TOK_TRUE)]"

definition relays_get_text :: "u8 \<Rightarrow> string" where
  "relays_get_text s =
     ''{\"relay1\": '' @ json_bool (s AND 1 \<noteq> 0) @ '', \"relay2\": '' @ json_bool (s AND 2 \<noteq> 0) @
     '', \"relay3\": '' @ json_bool (s AND 4 \<noteq> 0) @ '' }''"

definition relays_post_text :: "relays_state_t \<Rightarrow> string" where
  "relays_post_text s =
     ''{\"relay1\":'' @ json_bool (rl_relay1 s) @ '', \"relay2\": '' @ json_bool (rl_relay2 s) @
     '', \"relay3\": '' @ json_bool (rl_relay3 s) @ '' }''"

definition relays_state_post ::
  "'w sys_api \<Rightarrow> 'w zbus_api \<Rightarrow> http_response_ctx \<Rightarrow> byte list \<Rightarrow> 'w \<times> buffer
     \<Rightarrow> (int \<times> http_response_ctx) \<times> ('w \<times> buffer)" where
  "relays_state_post sys zb resp body c =
     (let (w, resp_buf) = c;
          (ret, vs) = json_obj_parse sys relays_state_descr body
      in if ret \<noteq> bit_mask (length relays_state_descr) then ((0, invalid_json resp), c)
         else let tmp = \<lparr>rl_relay1 = field_bool (vs ! 0) False, rl_relay2 = field_bool (vs ! 1) False,
                         rl_relay3 = field_bool (vs ! 2) False\<rparr>;
                  w' = relays_state_update zb w tmp;
                  text = relays_post_text tmp;
                  buf = snprintf_into resp_buf 256 text
              in ((0, respond_buf resp HTTP_200_OK buf (length text)), (w', buf)))"

definition relays_state_handler ::
  "'w sys_api \<Rightarrow> 'w zbus_api \<Rightarrow> http_client_ctx \<Rightarrow> http_data_status \<Rightarrow> http_request_ctx
     \<Rightarrow> http_response_ctx \<Rightarrow> 'w rest_state \<Rightarrow> (int \<times> http_response_ctx) \<times> 'w rest_state" where
  "relays_state_handler sys zb client status req resp s =
     (if req_method client = HTTP_GET then
        (if status = HTTP_SERVER_DATA_FINAL then
           let ((w, resp_buf), pc) = s;
               relays_state = relays_state_get zb w;
               text = relays_get_text relays_state;
               buf = snprintf_into resp_buf 256 text
           in if 256 \<le> length text then ((0, format_error resp), ((w, buf), pc))
              else ((0, respond_buf resp HTTP_200_OK buf (strlen buf)), ((w, buf), pc))
         else ((0, resp), s))
      else if req_method client = HTTP_POST then
        post_step (relays_state_post sys zb resp) (\<lambda>rc. (rc, resp)) status (req_data req) s
      else ((- 1, resp), s))"

section \<open>Texts\<close>

lemma relays_get_text_props: "nul_free (relays_get_text s)" "length (relays_get_text s) < 256"
  by (simp_all add: relays_get_text_def json_bool_def)

lemma relays_post_text_props: "nul_free (relays_post_text s)" "length (relays_post_text s) < 256"
  by (simp_all add: relays_post_text_def json_bool_def)

lemma resp_text_printed:
  "nul_free t \<Longrightarrow> length t < 256 \<Longrightarrow> length buf = 256 \<Longrightarrow>
     resp_text (respond_buf resp st (snprintf_into buf 256 t) (length t)) = t \<and>
     strlen (snprintf_into buf 256 t) = length t"
  by (simp add: strlen_def cstr_snprintf_fits) (simp add: snprintf_into_def)

section \<open>The POST side as a receiver of bodies\<close>

text \<open>The handler's calls for POST requests; the handler reads nothing else of the request.\<close>

definition post_client :: http_client_ctx where
  "post_client = \<lparr>req_method = HTTP_POST, url_buffer = []\<rparr>"

definition get_client :: http_client_ctx where
  "get_client = \<lparr>req_method = HTTP_GET, url_buffer = []\<rparr>"

definition with_body :: "byte list \<Rightarrow> http_request_ctx" where
  "with_body d = \<lparr>req_data = d, req_headers = []\<rparr>"

lemma request_simps [simp]:
  "req_method post_client = HTTP_POST" "req_method get_client = HTTP_GET" "req_data (with_body d) = d"
  by (simp_all add: post_client_def get_client_def with_body_def)

definition relays_step ::
  "'w sys_api \<Rightarrow> 'w zbus_api \<Rightarrow> http_response_ctx \<Rightarrow> http_data_status \<Rightarrow> byte list \<Rightarrow> 'w rest_state
     \<Rightarrow> (int \<times> http_response_ctx) \<times> 'w rest_state" where
  "relays_step sys zb resp status d = relays_state_handler sys zb post_client status (with_body d) resp"

lemma relays_step_eq:
  "relays_step sys zb resp = post_step (relays_state_post sys zb resp) (\<lambda>rc. (rc, resp))"
  by (intro ext) (simp add: relays_step_def relays_state_handler_def)

interpretation relays: body_receiver "relays_step sys zb resp" "\<lambda>s. post_inv 256 (snd s)"
    "\<lambda>s. post_pending (snd s)" fst "relays_state_post sys zb resp" 256 for sys zb resp
  unfolding relays_step_eq by (rule post_step_receiver)

section \<open>The response buffer and the channel\<close>

lemma relays_state_post_buf:
  "length (snd c) = 256 \<Longrightarrow> length (snd (snd (relays_state_post sys zb resp body c))) = 256"
  by (auto simp: relays_state_post_def Let_def split: prod.split)

lemma relays_calls_buf:
  "length (snd (fst s)) = 256 \<Longrightarrow> length (snd (fst (calls (relays_step sys zb resp) es s))) = 256"
  unfolding relays_step_eq
  by (rule calls_post_step_core [where P = "\<lambda>c. length (snd c) = 256"]) (simp_all add: relays_state_post_buf)

lemma rest_init_props [simp]:
  "post_inv 256 (snd (rest_init w))" "post_pending (snd (rest_init w)) = []"
  "length (snd (fst (rest_init w))) = 256" "fst (fst (rest_init w)) = w"
  by (simp_all add: rest_init_def)

lemma relays_update_get:
  assumes "zbus_outputs_lawful zb" and "\<And>m. fst (zbus_pub_outputs zb w m) = 0"
  shows "relays_state_get zb (relays_state_update zb w s) = pack_relays (rl_relay1 s) (rl_relay2 s) (rl_relay3 s)"
proof -
  have "zbus_read_outputs zb (snd (zbus_pub_outputs zb w m)) = (0, m)" for m
    using assms unfolding zbus_outputs_lawful_def by (metis prod.collapse)
  then show ?thesis by (simp add: relays_state_get_def relays_state_update_def Let_def)
qed

lemma relays_get_text_pack:
  "relays_get_text (pack_relays r1 r2 r3) =
     ''{\"relay1\": '' @ json_bool r1 @ '', \"relay2\": '' @ json_bool r2 @ '', \"relay3\": '' @ json_bool r3 @ '' }''"
  using relay_pins_pack [of r1 r2 r3] by (simp add: relays_get_text_def relay_pins_def)

lemma relays_get_response:
  assumes "length (snd (fst s)) = 256"
  shows "\<exists>r s'. relays_state_handler sys zb get_client HTTP_SERVER_DATA_FINAL req resp s = ((0, r), s') \<and>
    resp_status r = HTTP_200_OK \<and> resp_text r = relays_get_text (relays_state_get zb (fst (fst s))) \<and>
    fst (fst s') = fst (fst s)"
  using assms resp_text_printed [OF relays_get_text_props, of "snd (fst s)"]
    relays_get_text_props(2) [of "relays_state_get zb (fst (fst s))"]
  by (auto simp: relays_state_handler_def Let_def not_le split: prod.splits)

text \<open>The state after a complete body of three booleans.\<close>

lemma relays_posted:
  assumes "ended es" and "length (concat ds @ d) \<le> 256"
    and "json_obj_parse sys relays_state_descr (concat ds @ d) =
      (bit_mask (length relays_state_descr), [Some (JBool r1), Some (JBool r2), Some (JBool r3)])"
    and "relays_step sys zb resp HTTP_SERVER_DATA_FINAL d
        (calls (relays_step sys zb resp) (es @ pieces ds) (rest_init w)) = ((rc, r), s2)"
  shows "rc = 0" and "resp_status r = HTTP_200_OK" and "length (snd (fst s2)) = 256"
    and "\<exists>w0. fst (fst s2) = relays_state_update zb w0 \<lparr>rl_relay1 = r1, rl_relay2 = r2, rl_relay3 = r3\<rparr>"
proof -
  let ?c = "fst (calls (relays_step sys zb resp) es (rest_init w))"
  let ?t = "\<lparr>rl_relay1 = r1, rl_relay2 = r2, rl_relay3 = r3\<rparr>"
  have act: "relays_state_post sys zb resp (concat ds @ d) ?c =
      ((0, respond_buf resp HTTP_200_OK (snprintf_into (snd ?c) 256 (relays_post_text ?t))
          (length (relays_post_text ?t))),
       (relays_state_update zb (fst ?c) ?t, snprintf_into (snd ?c) 256 (relays_post_text ?t)))"
    using assms(3) by (simp add: relays_state_post_def field_bool_def Let_def split: prod.split)
  have len: "length (snd ?c) = 256" by (simp add: relays_calls_buf)
  have "fst (relays_state_post sys zb resp (concat ds @ d) ?c) = (rc, r)"
    "snd (relays_state_post sys zb resp (concat ds @ d) ?c) = fst s2"
    using relays.request_after_history [of "rest_init w" es ds d sys zb resp] assms(1,2,4) by simp_all
  then have e: "rc = 0" "resp_status r = HTTP_200_OK"
    and s2: "fst s2 = (relays_state_update zb (fst ?c) ?t, snprintf_into (snd ?c) 256 (relays_post_text ?t))"
    using act by auto
  show "rc = 0" and "resp_status r = HTTP_200_OK" by (fact e)+
  show "length (snd (fst s2)) = 256" using s2 len by simp
  show "\<exists>w0. fst (fst s2) = relays_state_update zb w0 ?t" using s2 by auto
qed

section \<open>Properties\<close>

text \<open>
  C15. A relay request takes effect however it was delivered: after any earlier calls of the
  handler of which the last ended or aborted a request, a body that parses to three
  booleans, sent in any pieces of at most 256 bytes in all, is answered with 200, and a
  following GET prints exactly these three values (when the channel accepts the message).
\<close>

theorem relays_post_then_get:
  assumes "zbus_outputs_lawful zb" and "\<forall>w m. fst (zbus_pub_outputs zb w m) = 0"
    and "ended es" and "length (concat ds @ d) \<le> 256"
    and "json_obj_parse sys relays_state_descr (concat ds @ d) =
      (bit_mask (length relays_state_descr), [Some (JBool r1), Some (JBool r2), Some (JBool r3)])"
    and "s1 = calls (relays_step sys zb resp) (es @ pieces ds) (rest_init w)"
    and "relays_step sys zb resp HTTP_SERVER_DATA_FINAL d s1 = ((rc, r), s2)"
    and "relays_state_handler sys zb get_client HTTP_SERVER_DATA_FINAL (with_body []) resp s2 = ((rc', r'), s3)"
  shows "rc = 0 \<and> resp_status r = HTTP_200_OK \<and> rc' = 0 \<and> resp_status r' = HTTP_200_OK \<and>
    resp_text r' = ''{\"relay1\": '' @ json_bool r1 @ '', \"relay2\": '' @ json_bool r2 @
      '', \"relay3\": '' @ json_bool r3 @ '' }''"
proof -
  note p = relays_posted [OF assms(3-5), of zb resp w rc r s2]
  have s2: "relays_step sys zb resp HTTP_SERVER_DATA_FINAL d
      (calls (relays_step sys zb resp) (es @ pieces ds) (rest_init w)) = ((rc, r), s2)"
    using assms(6,7) by simp
  obtain w0 where "fst (fst s2) = relays_state_update zb w0 \<lparr>rl_relay1 = r1, rl_relay2 = r2, rl_relay3 = r3\<rparr>"
    using p(4) [OF s2] by blast
  then have "relays_state_get zb (fst (fst s2)) = pack_relays r1 r2 r3"
    using relays_update_get [OF assms(1), of w0] assms(2) by simp
  then show ?thesis
    using relays_get_response [OF p(3) [OF s2], of sys zb "with_body []" resp] p(1,2) [OF s2] assms(8)
    by (simp add: relays_get_text_pack)
qed

theorem relays_post_then_get_witness:
  "\<exists>rc' r' s3. relays_state_handler demo_sys demo_zbus get_client HTTP_SERVER_DATA_FINAL (with_body []) demo_resp
      (snd (relays_step demo_sys demo_zbus demo_resp HTTP_SERVER_DATA_FINAL ''01''
        (calls (relays_step demo_sys demo_zbus demo_resp) (pieces [''1'']) (rest_init demo_init)))) = ((rc', r'), s3) \<and>
    resp_text r' = ''{\"relay1\": true, \"relay2\": false, \"relay3\": true }''"
proof -
  let ?s1 = "calls (relays_step demo_sys demo_zbus demo_resp) ([] @ pieces [''1'']) (rest_init demo_init)"
  obtain rc r s2 where s2: "relays_step demo_sys demo_zbus demo_resp HTTP_SERVER_DATA_FINAL ''01'' ?s1 = ((rc, r), s2)"
    by (metis prod.collapse)
  obtain rc' r' s3 where s3: "relays_state_handler demo_sys demo_zbus get_client HTTP_SERVER_DATA_FINAL
      (with_body []) demo_resp s2 = ((rc', r'), s3)" by (metis prod.collapse)
  have pub: "\<forall>w m. fst (zbus_pub_outputs demo_zbus w m) = 0" by (simp add: demo_zbus_def)
  have js: "json_obj_parse demo_sys relays_state_descr (concat [''1''] @ ''01'') =
      (bit_mask (length relays_state_descr), [Some (JBool True), Some (JBool False), Some (JBool True)])"
    by code_simp
  show ?thesis
    using relays_post_then_get [OF demo_zbus_outputs_lawful pub ended_Nil _ js refl s2 s3] s2 s3
    by (simp add: json_bool_def)
qed

text \<open>
  A body that does not parse to all three fields is answered with 400 and touches
  nothing: no message is published and the next request starts with an empty buffer.
\<close>

lemma relays_rejects_incomplete:
  assumes "ended es" and "length (concat ds @ d) \<le> 256"
    and "fst (json_obj_parse sys relays_state_descr (concat ds @ d)) \<noteq> bit_mask (length relays_state_descr)"
    and "s0 = calls (relays_step sys zb resp) es (rest_init w)"
    and "relays_step sys zb resp HTTP_SERVER_DATA_FINAL d (calls (relays_step sys zb resp) (pieces ds) s0) =
      ((rc, r), s2)"
  shows "rc = 0 \<and> resp_status r = HTTP_400_BAD_REQUEST \<and> fst s2 = fst s0 \<and> post_pending (snd s2) = []"
proof -
  have inv: "post_inv 256 (snd s0)" and pend: "post_pending (snd s0) = []"
    using relays.calls_inv [of "rest_init w" sys zb resp es] relays.calls_ended [OF _ _ assms(1), of "rest_init w"]
    by (simp_all add: assms(4))
  have "relays_state_post sys zb resp (concat ds @ d) (fst s0) = ((0, invalid_json resp), fst s0)"
    using assms(3) by (auto simp: relays_state_post_def split: prod.splits)
  with relays.chunked_body [OF inv pend, of ds d sys zb resp] assms(2,5) show ?thesis
    by (simp add: invalid_json_def)
qed

lemma relays_rejects_incomplete_witness:
  "fst (snd (relays_step demo_sys demo_zbus demo_resp HTTP_SERVER_DATA_FINAL ''1'' (rest_init demo_init))) =
     fst (rest_init demo_init)"
proof -
  obtain rc r s2 where s2: "relays_step demo_sys demo_zbus demo_resp HTTP_SERVER_DATA_FINAL ''1''
      (calls (relays_step demo_sys demo_zbus demo_resp) (pieces []) (rest_init demo_init)) = ((rc, r), s2)"
    by (metis prod.collapse)
  have "fst (json_obj_parse demo_sys relays_state_descr (concat [] @ ''1'')) \<noteq> bit_mask (length relays_state_descr)"
    by code_simp
  from relays_rejects_incomplete [OF ended_Nil _ this, of "rest_init demo_init" demo_zbus demo_resp demo_init rc r s2] s2
  show ?thesis by (simp add: pieces_def)
qed

end
