(* ===== verification/Rest_Users.thy ===== *)
theory Rest_Users
  imports Authentication Rest_Relays
begin

text \<open>
  The endpoints that use \<open>web/authentication.c\<close>: \<open>login.c\<close>, the only handler that calls
  \<open>authentication\<close>, and \<open>web_user_mgmt.c\<close>, which lists, adds and deletes users.
\<close>

section \<open>Login\<close>

definition RESPONSE_TOKEN_VALID_MESSAGE :: string where
  "RESPONSE_TOKEN_VALID_MESSAGE = ''Session token or username password valid''"

definition RESPONSE_TOKEN_INVALID_MESSAGE :: string where
  "RESPONSE_TOKEN_INVALID_MESSAGE = ''Session token or username password invalid''"

definition set_cookie_text :: "buffer \<Rightarrow> string" where
  "set_cookie_text session_token =
     ''session_token='' @ cstr session_token @ ''; Path=/; HttpOnly; Max-Age=86400''"

type_synonym 'w login_state = "'w \<times> auth_state \<times> buffer"
  \<comment> \<open>the world, the statics of \<open>authentication.c\<close>, the array \<open>cookie_header\<close>\<close>

definition login_handler ::
  "'w sys_api \<Rightarrow> http_client_ctx \<Rightarrow> http_data_status \<Rightarrow> http_request_ctx \<Rightarrow> http_response_ctx
     \<Rightarrow> 'w login_state \<Rightarrow> (int \<times> http_response_ctx) \<times> 'w login_state" where
  "login_handler sys client status req resp s =
     (let (w, st, cookie_header) = s in
      if req_method client = HTTP_GET then
        let (rc, st', w', _) = authentication sys w st (req_headers req) None 0
        in if 0 \<le> rc then ((0, respond resp HTTP_200_OK RESPONSE_TOKEN_VALID_MESSAGE), (w', st', cookie_header))
           else ((0, respond resp HTTP_401_UNAUTHORIZED RESPONSE_TOKEN_INVALID_MESSAGE), (w', st', cookie_header))
      else if req_method client = HTTP_POST then
        let session_token = uninit sys w SESSION_TOKEN_SIZE;
            (rc, st', w', tb) = authentication sys w st (req_headers req) (Some session_token) SESSION_TOKEN_SIZE
        in if 0 \<le> rc then
             let cookie' = snprintf_into cookie_header 256 (set_cookie_text (the tb));
                 hdr = \<lparr>hdr_name = ''Set-Cookie'', hdr_value = cookie'\<rparr>
             in ((0, respond (resp\<lparr>resp_headers := [hdr]\<rparr>) HTTP_200_OK RESPONSE_TOKEN_VALID_MESSAGE),
                 (w', st', cookie'))
           else ((0, respond resp HTTP_401_UNAUTHORIZED RESPONSE_TOKEN_INVALID_MESSAGE), (w', st', cookie_header))
      else ((0, resp), s))"

section \<open>User management\<close>

definition JSON_BUF_SIZE :: nat where
  "JSON_BUF_SIZE = (MAX_USERNAME_LEN + MAX_PASS_HASH_LEN) * MAX_USERS * 2"

definition MAX_PASS_TEXT_LEN :: nat where "MAX_PASS_TEXT_LEN = MAX_USERNAME_LEN"

definition web_user_cred_descr :: json_descr where
  "web_user_cred_descr =
     [(''username'', JSON_TOK_STRING_BUF MAX_USERNAME_LEN), (''password'', JSON_TOK_STRING_BUF MAX_PASS_TEXT_LEN)]"

type_synonym 'w users_core = "'w \<times> web_users_list_t \<times> buffer"
  \<comment> \<open>the world, the list of \<open>authentication.c\<close>, the array \<open>json_buff\<close>\<close>

text \<open>\<open>snprintf (buf + offset, sizeof buf - offset, ...)\<close> with the text it prints.\<close>

definition print_at :: "buffer \<Rightarrow> nat \<Rightarrow> string \<Rightarrow> buffer" where
  "print_at buf off text = take off buf @ snprintf_into (drop off buf) (JSON_BUF_SIZE - off) text"

definition user_json :: "nat \<Rightarrow> web_user_t \<Rightarrow> string" where
  "user_json off u = (if off > 10 then '','' else []) @ ''{\"name\": \"'' @ cstr (wu_user u) @ ''\"}''"

fun users_json_loop :: "web_user_t list \<Rightarrow> buffer \<Rightarrow> nat \<Rightarrow> buffer \<times> nat" where
  "users_json_loop [] buf off = (buf, off)"
| "users_json_loop (u # us) buf off =
     (if wu_user u ! 0 = NUL then users_json_loop us buf off
      else let buf' = print_at buf off (user_json off u);
               off' = off + length (user_json off u)
           in if off' \<ge> JSON_BUF_SIZE - 1 then (buf', off') else users_json_loop us buf' off')"

definition users_json :: "web_users_list_t \<Rightarrow> buffer \<Rightarrow> buffer" where
  "users_json l json_buff =
     (let head = ''{ \"users\": ['';
          buf0 = print_at json_buff 0 head;
          (buf1, off) = users_json_loop (wl_user l) buf0 (length head)
      in print_at buf1 off ''] }'')"

definition web_user_get ::
  "'w sys_api \<Rightarrow> http_response_ctx \<Rightarrow> 'w users_core \<Rightarrow> (int \<times> http_response_ctx) \<times> 'w users_core" where
  "web_user_get sys resp c =
     (let (w, l, json_buff) = c;
          (rc, l') = get_web_users sys w (Some web_users_zero)
      in if rc = 0 then
           let buf = users_json (the l') json_buff
           in ((0, respond_buf resp HTTP_200_OK buf (strlen buf)), (w, l, buf))
         else ((0, respond resp HTTP_500_INTERNAL_SERVER_ERROR ''Internal server error''), c))"

definition web_user_post ::
  "'w sys_api \<Rightarrow> http_response_ctx \<Rightarrow> byte list \<Rightarrow> 'w users_core
     \<Rightarrow> (int \<times> http_response_ctx) \<times> 'w users_core" where
  "web_user_post sys resp body c =
     (let (w, l, json_buff) = c;
          (ret, vs) = json_obj_parse sys web_user_cred_descr body
      in if ret \<noteq> bit_mask (length web_user_cred_descr) then ((0, invalid_json resp), c)
         else let username = field_str (vs ! 0) (zeros MAX_USERNAME_LEN);
                  password = field_str (vs ! 1) (zeros MAX_PASS_TEXT_LEN);
                  (result, l', w') = add_web_user sys w l (Some (cstr username)) (Some (cstr password));
                  r = (if result = 0 then respond resp HTTP_200_OK ''{\"success\":\"user added\"}''
                       else if result = - EEXIST
                       then respond resp HTTP_400_BAD_REQUEST ''{\"error\":\"user already exists\"}''
                       else if result = - ENOSPC
                       then respond resp HTTP_500_INTERNAL_SERVER_ERROR ''{\"error\":\"no space left, max number of users.\"}''
                       else respond resp HTTP_500_INTERNAL_SERVER_ERROR ''{\"error\":\"unknown error\"}'')
              in ((0, r), (w', l', json_buff)))"

definition url_username :: "string \<Rightarrow> string" where
  "url_username value = take (MAX_USERNAME_LEN - 1) (takeWhile (\<lambda>c. c \<noteq> CHR ''&'') value)"

definition web_user_delete ::
  "'w sys_api \<Rightarrow> string \<Rightarrow> http_response_ctx \<Rightarrow> 'w users_core \<Rightarrow> (int \<times> http_response_ctx) \<times> 'w users_core" where
  "web_user_delete sys url resp c =
     (let (w, l, json_buff) = c in
      case strstr url ''?'' of
        None \<Rightarrow> ((0, respond resp HTTP_400_BAD_REQUEST ''{\"error\":\"missing parameters\"}''), c)
      | Some param \<Rightarrow>
          (case strstr (drop 1 param) ''username='' of
             None \<Rightarrow> ((0, respond resp HTTP_400_BAD_REQUEST ''{\"error\":\"username parameter required\"}''), c)
           | Some value \<Rightarrow>
               let username = url_username (drop (length ''username='') value);
                   (res, l', w') = delete_web_user sys w l (Some username);
                   r = (if res = 0 then respond resp HTTP_200_OK ''{\"success\":\"user deleted\"}''
                        else if res = - ENOENT then respond resp HTTP_404_NOT_FOUND ''{\"error\":\"user not found\"}''
                        else if res = - EPERM then respond resp HTTP_403_FORBIDDEN ''{\"error\":\"can't delete last user\"}''
                        else respond resp HTTP_500_INTERNAL_SERVER_ERROR ''{\"error\":\"internal error\"}'')
               in ((0, r), (w', l', json_buff))))"

text \<open>A body that does not fit is answered with 413, and with the return code \<open>-ENOMEM\<close>.\<close>

definition web_user_early :: "http_response_ctx \<Rightarrow> int \<Rightarrow> int \<times> http_response_ctx" where
  "web_user_early resp rc =
     (rc, if rc = - ENOMEM then respond resp HTTP_413_PAYLOAD_TOO_LARGE ''{\"error\":\"payload too large\"}'' else resp)"

definition web_user_mgmt_handler ::
  "'w sys_api \<Rightarrow> http_client_ctx \<Rightarrow> http_data_status \<Rightarrow> http_request_ctx \<Rightarrow> http_response_ctx
     \<Rightarrow> 'w users_core \<times> post_ctx \<Rightarrow> (int \<times> http_response_ctx) \<times> ('w users_core \<times> post_ctx)" where
  "web_user_mgmt_handler sys client status req resp s =
     (case req_method client of
        HTTP_GET \<Rightarrow> (let (c, pc) = s; (r, c') = web_user_get sys resp c in (r, (c', pc)))
      | HTTP_POST \<Rightarrow> post_step (web_user_post sys resp) (web_user_early resp) status (req_data req) s
      | HTTP_DELETE \<Rightarrow>
          (let (c, pc) = s; (r, c') = web_user_delete sys (url_buffer client) resp c in (r, (c', pc)))
      | HTTP_OTHER \<Rightarrow> ((- 1, resp), s))"

definition users_step ::
  "'w sys_api \<Rightarrow> http_response_ctx \<Rightarrow> http_data_status \<Rightarrow> byte list \<Rightarrow> 'w users_core \<times> post_ctx
     \<Rightarrow> (int \<times> http_response_ctx) \<times> ('w users_core \<times> post_ctx)" where
  "users_step sys resp status d = web_user_mgmt_handler sys post_client status (with_body d) resp"

lemma users_step_eq: "users_step sys resp = post_step (web_user_post sys resp) (web_user_early resp)"
  by (intro ext) (simp add: users_step_def web_user_mgmt_handler_def)

interpretation users: body_receiver "users_step sys resp" "\<lambda>s. post_inv 256 (snd s)"
    "\<lambda>s. post_pending (snd s)" fst "web_user_post sys resp" 256 for sys resp
  unfolding users_step_eq by (rule post_step_receiver)

definition users_state :: "'w \<Rightarrow> web_users_list_t \<Rightarrow> 'w users_core \<times> post_ctx" where
  "users_state w l = ((w, l, zeros JSON_BUF_SIZE), post_ctx_init JSON_BUF_SIZE)"

lemma JSON_BUF_SIZE_eq: "JSON_BUF_SIZE = 256"
  by (simp add: JSON_BUF_SIZE_def user_sizes)

lemma users_state_props [simp]:
  "post_inv 256 (snd (users_state w l))" "post_pending (snd (users_state w l)) = []"
  "fst (users_state w l) = (w, l, zeros 256)"
  by (simp_all add: users_state_def JSON_BUF_SIZE_eq)

section \<open>The printed list\<close>

text \<open>What the buffer holds from the start: the text printed so far and its NUL.\<close>

definition printed :: "buffer \<Rightarrow> string \<Rightarrow> bool" where
  "printed buf t \<longleftrightarrow> length buf = 256 \<and> (\<exists>r. buf = t @ NUL # r)"

lemma print_at_printed:
  assumes "printed buf t" and "length t + length s < 256"
  shows "printed (print_at buf (length t) s) (t @ s)"
proof -
  obtain r where "buf = t @ NUL # r" "length buf = 256" using assms(1) by (auto simp: printed_def)
  moreover from this have "Suc (length t + length r) = 256" by simp
  ultimately show ?thesis
    using assms(2) by (auto simp: printed_def print_at_def snprintf_into_def JSON_BUF_SIZE_eq Let_def)
qed

lemma printed_cstr: "printed buf t \<Longrightarrow> nul_free t \<Longrightarrow> cstr buf = t"
  by (auto simp: printed_def cstr_append_NUL)

definition user_entry :: "string \<Rightarrow> string" where
  "user_entry n = '',{\"name\": \"'' @ n @ ''\"}''"

lemma users_json_loop_printed:
  assumes "printed buf t" and "10 < length t" and "\<forall>u \<in> set us. length (wu_user u) = 32"
    and "length t + (\<Sum>u\<leftarrow>us. 13 + length (user_name u)) < 255"
  shows "\<exists>buf'. users_json_loop us buf (length t) =
      (buf', length (t @ concat (map user_entry (filter (\<lambda>n. n \<noteq> []) (map user_name us))))) \<and>
    printed buf' (t @ concat (map user_entry (filter (\<lambda>n. n \<noteq> []) (map user_name us))))"
  using assms
proof (induction us arbitrary: buf t)
  case Nil
  then show ?case by simp
next
  case (Cons u us)
  have z: "wu_user u ! 0 = NUL \<longleftrightarrow> user_name u = []"
    using Cons.prems(3) nth0_NUL_iff [of "wu_user u"] by (simp add: user_name_def)
  show ?case
  proof (cases "user_name u = []")
    case True
    with z Cons.IH [OF Cons.prems(1,2)] Cons.prems(3,4) show ?thesis by simp
  next
    case False
    have e: "user_json (length t) u = user_entry (user_name u)"
      using Cons.prems(2) by (simp add: user_json_def user_entry_def user_name_def)
    have len: "length (user_entry (user_name u)) = 13 + length (user_name u)" by (simp add: user_entry_def)
    have "printed (print_at buf (length t) (user_entry (user_name u))) (t @ user_entry (user_name u))"
      by (rule print_at_printed [OF Cons.prems(1)]) (use Cons.prems(4) len in simp)
    from Cons.IH [OF this] Cons.prems(2-4) len False z e show ?thesis
      by (simp add: JSON_BUF_SIZE_eq Let_def add.assoc)
  qed
qed

lemma users_inv_lengths:
  "users_inv l \<Longrightarrow> \<forall>u \<in> set (wl_user l). length (wu_user u) = 32 \<and> length (user_name u) \<le> 31"
  by (fastforce simp: users_inv_def web_users_wf_def web_user_wf_def user_sizes)

lemma user_entries_bound:
  "users_inv l \<Longrightarrow> (\<Sum>u\<leftarrow>wl_user l. 13 + length (user_name u)) \<le> 88"
  by (elim users_inv_cases) (simp add: user_name_def)

lemma user_entries_length:
  "length (concat (map user_entry (filter (\<lambda>n. n \<noteq> []) (map user_name us)))) \<le>
     (\<Sum>u\<leftarrow>us. 13 + length (user_name u))"
  by (induction us) (simp_all add: user_entry_def)

lemma nul_free_user_entries:
  "\<forall>u \<in> set us. nul_free (user_name u) \<Longrightarrow>
     nul_free (concat (map user_entry (filter (\<lambda>n. n \<noteq> []) (map user_name us))))"
  by (induction us) (auto simp: user_entry_def)

lemma user_name_cong: "map wu_user us = map wu_user vs \<Longrightarrow> map user_name us = map user_name vs"
  by (metis (no_types, lifting) list.map_comp map_eq_conv comp_apply user_name_def)

lemma users_json_text:
  assumes "users_inv l" and "map wu_user (wl_user l') = map wu_user (wl_user l)" and "length buf = 256"
  shows "length (users_json l' buf) = 256 \<and>
    cstr (users_json l' buf) = ''{ \"users\": ['' @ concat (map user_entry (user_names l)) @ ''] }''"
proof -
  let ?head = "''{ \"users\": [''" and ?es = "concat (map user_entry (user_names l))"
  have names: "map user_name (wl_user l') = map user_name (wl_user l)" by (rule user_name_cong [OF assms(2)])
  then have es: "concat (map user_entry (filter (\<lambda>n. n \<noteq> []) (map user_name (wl_user l')))) = ?es"
    by (simp add: user_names_def)
  have len32: "\<forall>u \<in> set (wl_user l'). length (wu_user u) = 32"
    using users_inv_lengths [OF assms(1)] arg_cong [OF assms(2), of set]
    by (metis (no_types, lifting) imageE image_eqI image_set)
  have "(\<Sum>u\<leftarrow>wl_user l'. 13 + length (user_name u)) = (\<Sum>n\<leftarrow>map user_name (wl_user l'). 13 + length n)"
    by (simp add: comp_def)
  also have "\<dots> = (\<Sum>u\<leftarrow>wl_user l. 13 + length (user_name u))" by (simp only: names) (simp add: comp_def)
  finally have sum: "(\<Sum>u\<leftarrow>wl_user l'. 13 + length (user_name u)) \<le> 88"
    using user_entries_bound [OF assms(1)] by simp
  have bound: "length ?es \<le> 88"
    using user_entries_length [of "wl_user l'"] sum es by simp
  have "printed (print_at buf 0 ?head) ?head"
    using assms(3) by (simp add: printed_def print_at_def snprintf_into_def JSON_BUF_SIZE_eq Let_def)
  from users_json_loop_printed [OF this _ len32] sum obtain buf' where
    loop: "users_json_loop (wl_user l') (print_at buf 0 ?head) (length ?head) = (buf', length (?head @ ?es))"
    and p: "printed buf' (?head @ ?es)" unfolding es by auto
  have pr: "printed (print_at buf' (length (?head @ ?es)) ''] }'') ((?head @ ?es) @ ''] }'')"
    by (rule print_at_printed [OF p]) (use bound in simp)
  have "nul_free ?es"
    unfolding user_names_def by (rule nul_free_user_entries) (auto simp: user_name_def)
  moreover have "users_json l' buf = print_at buf' (length (?head @ ?es)) ''] }''"
    by (simp only: users_json_def Let_def loop prod.case)
  ultimately show ?thesis using printed_cstr [OF pr] pr by (simp add: printed_def)
qed

section \<open>Properties\<close>

text \<open>
  The user list is printed with every name and without any digest; the text starts
  with \<open>[,\<close> whenever there is a user (the test \<open>offset > 10\<close>, meant for the first entry, is
  always true), so it is not JSON.
\<close>

lemma users_get_text:
  assumes "users_inv l"
    and "settings_load_one sys w web_users_settings sizeof_web_users_list =
      (int sizeof_web_users_list, web_users_bytes l)"
    and "length buf = 256"
    and "web_user_mgmt_handler sys get_client status req resp ((w, l0, buf), pc) = ((rc, r), s')"
  shows "rc = 0 \<and> resp_status r = HTTP_200_OK \<and>
    resp_text r = ''{ \"users\": ['' @ concat (map (\<lambda>n. '',{\"name\": \"'' @ n @ ''\"}'') (user_names l)) @ ''] }'' \<and>
    fst (snd (fst s')) = l0 \<and> fst (fst s') = w"
proof -
  obtain l' where l': "get_web_users sys w (Some web_users_zero) = (0, Some l')"
    "map wu_user (wl_user l') = map wu_user (wl_user l)"
    using get_web_users_saved [OF assms(1,2)] by auto
  let ?b = "users_json l' buf"
  have t: "cstr ?b = ''{ \"users\": ['' @ concat (map (\<lambda>n. '',{\"name\": \"'' @ n @ ''\"}'') (user_names l)) @ ''] }''"
    using users_json_text [OF assms(1) l'(2) assms(3)] unfolding user_entry_def by simp
  moreover have "take (strlen ?b) ?b = cstr ?b"
    unfolding strlen_def cstr_def by (rule takeWhile_eq_take [symmetric])
  ultimately show ?thesis
    using assms(4) l'(1) by (auto simp: web_user_mgmt_handler_def web_user_get_def Let_def)
qed

lemma users_get_text_witness:
  "\<exists>r. fst (web_user_mgmt_handler demo_sys get_client HTTP_SERVER_DATA_FINAL (with_body []) demo_resp
      (users_state (demo_init\<lparr>dw_settings := [(web_users_settings, web_users_bytes demo_users2)]\<rparr>) demo_users2)) = (0, r) \<and>
    resp_text r = ''{ \"users\": [,{\"name\": \"admin\"},{\"name\": \"bob\"}] }''"
proof -
  let ?w = "demo_init\<lparr>dw_settings := [(web_users_settings, web_users_bytes demo_users2)]\<rparr>"
  obtain rc r s' where s: "web_user_mgmt_handler demo_sys get_client HTTP_SERVER_DATA_FINAL (with_body []) demo_resp
      ((?w, demo_users2, zeros 256), post_ctx_init 256) = ((rc, r), s')" by (metis prod.collapse)
  have load: "settings_load_one demo_sys ?w web_users_settings sizeof_web_users_list =
      (int sizeof_web_users_list, web_users_bytes demo_users2)"
    using length_web_users_bytes [OF users_inv_wf [OF demo_users_inv(2)]]
    by (simp add: demo_sys_def demo_load_def)
  have "user_names demo_users2 = [''admin'', ''bob'']" by code_simp
  with users_get_text [OF demo_users_inv(2) load _ s] s show ?thesis
    by (simp add: users_state_def JSON_BUF_SIZE_eq)
qed

text \<open>
  C24. A user created over REST can log in: once a body with a name and a password, however
  it was cut, has been answered with 200, a POST to the login endpoint whose only header is
  the Basic authorization of that name and password is answered with 200 too, whatever the
  sessions and the clock are by then. The name must not have a colon, at which the decoded
  header is split.
\<close>

theorem users_post_then_login:
  assumes "sha256_lawful sys" and "users_inv l" and "user_name_ok name" and "nul_free pass" and "length pass < 32"
    and "length (concat ds @ d) \<le> 256"
    and "json_obj_parse sys web_user_cred_descr (concat ds @ d) =
      (bit_mask (length web_user_cred_descr), [Some (JStr name), Some (JStr pass)])"
    and "users_step sys resp HTTP_SERVER_DATA_FINAL d (calls (users_step sys resp) (pieces ds) (users_state w l)) =
      ((rc, r), ((w', l', b'), pc'))"
    and "resp_status r = HTTP_200_OK"
    and "CHR '':'' \<notin> set name" and "nul_free encoded"
    and "base64_decode sys 256 encoded = (0, name @ '':'' @ pass)"
    and "as_users st = l'" and "req_headers req = [basic_header encoded]"
  shows "resp_status (snd (fst (login_handler sys post_client status req resp2 (w2, st, cb)))) = HTTP_200_OK"
proof -
  have act: "fst (web_user_post sys resp (concat ds @ d) (w, l, zeros 256)) = (rc, r)"
    "snd (web_user_post sys resp (concat ds @ d) (w, l, zeros 256)) = (w', l', b')"
    using users.chunked_body [of "users_state w l" ds d sys resp] assms(6,8) by simp_all
  have n: "cstr (field_str (Some (JStr name)) (zeros MAX_USERNAME_LEN)) = name"
    and p: "cstr (field_str (Some (JStr pass)) (zeros MAX_PASS_TEXT_LEN)) = pass"
    using assms(3,4) by (simp_all add: field_str_def user_name_ok_def cstr_append_NUL)
  have "add_web_user sys w l (Some name) (Some pass) = (0, l', w')"
    using act assms(7,9)
    by (auto simp: web_user_post_def n p http_status Let_def split: prod.splits if_splits)
  then have "check_user_credentials sys w2 (as_users st) name pass"
    unfolding assms(13) by (rule add_web_user_credentials [OF assms(1-3)])
  with header_credentials_basic [OF assms(11,12) _ assms(10,4)] assms(3,5)
  have "fst (authentication sys w2 st (req_headers req) (Some b) SESSION_TOKEN_SIZE) = 0" for b
    unfolding assms(14) user_name_ok_def
    by (intro credentials_accepted) (auto simp: user_sizes SESSION_TOKEN_SIZE_def)
  then show ?thesis
    by (auto simp: login_handler_def post_client_def http_status Let_def simp del: authentication.simps
        split: prod.split dest: arg_cong [of _ _ fst])
qed

theorem users_post_then_login_witness:
  "resp_status (snd (fst (login_handler demo_sys post_client HTTP_SERVER_DATA_FINAL
     \<lparr>req_data = [], req_headers = [basic_header ''c:p'']\<rparr> demo_resp
     (demo_init, \<lparr>as_users = fst (snd (fst (snd (users_step demo_sys demo_resp HTTP_SERVER_DATA_FINAL ''p''
         (calls (users_step demo_sys demo_resp) (pieces [''c'']) (users_state demo_init demo_users1)))))),
       as_sessions = replicate MAX_SESSIONS web_session_zero\<rparr>, zeros 256)))) = HTTP_200_OK"
proof -
  obtain rc r w' l' b' pc' where s: "users_step demo_sys demo_resp HTTP_SERVER_DATA_FINAL ''p''
      (calls (users_step demo_sys demo_resp) (pieces [''c'']) (users_state demo_init demo_users1)) =
      ((rc, r), ((w', l', b'), pc'))" by (metis prod.collapse)
  have js: "json_obj_parse demo_sys web_user_cred_descr (concat [''c''] @ ''p'') =
      (bit_mask (length web_user_cred_descr), [Some (JStr ''c''), Some (JStr ''p'')])" by code_simp
  have "fst (users_step demo_sys demo_resp HTTP_SERVER_DATA_FINAL ''p''
      (calls (users_step demo_sys demo_resp) (pieces [''c'']) (users_state demo_init demo_users1))) =
      (0, respond demo_resp HTTP_200_OK ''{\"success\":\"user added\"}'')" by code_simp
  with s have ok: "resp_status r = HTTP_200_OK" by simp
  have n: "user_name_ok ''c''" by code_simp
  have b: "base64_decode demo_sys 256 ''c:p'' = (0, ''c'' @ '':'' @ ''p'')" by code_simp
  show ?thesis
    using users_post_then_login [OF demo_sha256_lawful demo_users_inv(1) n _ _ _ js s ok _ _ b,
        where st = "\<lparr>as_users = l', as_sessions = replicate MAX_SESSIONS web_session_zero\<rparr>"] s by simp
qed

text \<open>
  The last user cannot be deleted over REST: a DELETE that names the only user is
  answered with 403, and neither the list (but for its \<open>changed\<close> mark) nor the settings change.
\<close>

lemma delete_last_user_forbidden:
  assumes "users_inv l" and "user_names l = [name]" and "CHR ''&'' \<notin> set name"
    and "req_method client = HTTP_DELETE" and "url_buffer client = ''/api/auth/users?username='' @ name"
  shows "web_user_mgmt_handler sys client status req resp ((w, l, b), pc) =
    ((0, respond resp HTTP_403_FORBIDDEN ''{\"error\":\"can't delete last user\"}''),
     ((w, l\<lparr>wl_changed := False\<rparr>, b), pc))"
proof -
  have "name \<in> set (user_names l)" by (simp add: assms(2))
  then have "name \<in> user_name ` set (wl_user l)" by (auto simp: user_names_def)
  then obtain u where u: "u \<in> set (wl_user l)" "user_name u = name" by auto
  then have nf: "nul_free name" and "length name \<le> 31"
    using users_inv_lengths [OF assms(1)] by (auto simp: user_name_def)
  have tw: "takeWhile (\<lambda>c. c \<noteq> CHR ''&'') name = name"
    using assms(3) by (auto simp: takeWhile_eq_all_conv)
  have "url_username name = name"
    using \<open>length name \<le> 31\<close> unfolding url_username_def tw by (simp add: user_sizes)
  moreover obtain i where "find_index (\<lambda>u. user_name u = name) (wl_user l) = Some i"
    using find_index_exists [OF u(1), of "\<lambda>u. user_name u = name"] u(2) by auto
  moreover have "num_users l = 1" using assms(2) num_users_names [OF assms(1)] by simp
  ultimately have "delete_web_user sys w l (Some name) = (- EPERM, l\<lparr>wl_changed := False\<rparr>, w)"
    by (simp add: delete_web_user_eq [OF assms(1) nf])
  moreover have "strstr (''/api/auth/users?username='' @ name) ''?'' = Some (''?username='' @ name)" by simp
  moreover have "strstr (''username='' @ name) ''username='' = Some (''username='' @ name)" by (rule strstr_prefix)
  ultimately show ?thesis
    using assms(4,5) \<open>url_username name = name\<close>
    by (simp add: web_user_mgmt_handler_def web_user_delete_def errno Let_def)
qed

lemma delete_last_user_forbidden_witness:
  "fst (fst (web_user_mgmt_handler demo_sys \<lparr>req_method = HTTP_DELETE, url_buffer = ''/api/auth/users?username=admin''\<rparr>
      HTTP_SERVER_DATA_FINAL (with_body []) demo_resp (users_state demo_init demo_users1))) = 0"
proof -
  have "user_names demo_users1 = [''admin'']" by code_simp
  from delete_last_user_forbidden [OF demo_users_inv(1) this,
      of "\<lparr>req_method = HTTP_DELETE, url_buffer = ''/api/auth/users?username=admin''\<rparr>" demo_sys]
  show ?thesis by (simp add: users_state_def)
qed

text \<open>
  C28. The login endpoint hands out a working session, whatever sessions are open: a POST
  without tokens that is answered with 200, and whose token is not that of an open session,
  sets exactly one header, \<open>Set-Cookie\<close>, and a GET that sends the token of this
  header back as the cookie \<open>session_token\<close> is answered with 200 until
  \<open>SESSION_LIFETIME_SEC\<close> after the login and with 401 from then on.
\<close>

theorem login_sets_session_cookie:
  assumes "sha256_lawful sys" and "uninit_lawful sys"
    and "sessions_inv (as_sessions st)" and "login_token_new sys w (as_sessions st) (req_headers req)"
    and "\<forall>h \<in> set (req_headers req). header_token h = None"
    and "login_handler sys post_client status req resp (w, st, cb) = ((rc, r), (w', st', cb'))"
    and "resp_status r = HTTP_200_OK"
  shows "sessions_inv (as_sessions st') \<and>
   (\<exists>token w1. resp_headers r = [\<lparr>hdr_name = ''Set-Cookie'', hdr_value = cb'\<rparr>] \<and>
    cstr cb' = ''session_token='' @ token @ ''; Path=/; HttpOnly; Max-Age=86400'' \<and>
    (\<forall>w2 client2 req2. req_method client2 = HTTP_GET \<longrightarrow> req_headers req2 = [cookie_header token] \<longrightarrow>
       resp_status (snd (fst (login_handler sys client2 status req2 resp (w2, st', cb')))) =
         (if fst (time_now sys w2) < fst (time_now sys w1) + SESSION_LIFETIME_SEC
          then HTTP_200_OK else HTTP_401_UNAUTHORIZED)))"
proof -
  let ?b = "uninit sys w SESSION_TOKEN_SIZE"
  obtain rc1 st1 w1 tb where a: "authentication sys w st (req_headers req) (Some ?b) SESSION_TOKEN_SIZE =
      (rc1, st1, w1, tb)" by (metis prod.collapse)
  have ok: "token_buf_ok (Some ?b) SESSION_TOKEN_SIZE"
    using assms(2) by (simp add: token_buf_ok_def uninit_lawful_def)
  have "0 \<le> rc1" using assms(6,7) a by (auto simp: login_handler_def http_status Let_def split: if_splits)
  then have "rc1 = 0" using authentication_rc [of sys w st "req_headers req" "Some ?b" SESSION_TOKEN_SIZE] a by (auto simp: errno)
  with a have a0: "authentication sys w st (req_headers req) (Some ?b) SESSION_TOKEN_SIZE = (0, st1, w1, tb)" by simp
  obtain b' w3 where b: "tb = Some b'" and tok: "hex_token (cstr b')" and inv: "sessions_inv (as_sessions st1)"
    and e: "session_expiry (as_sessions st1) (cstr b') = Some (fst (time_now sys w3) + SESSION_LIFETIME_SEC)"
    using login_gives_token [OF assms(1,2) ok assms(3,4) a0 assms(5)] .
  have st': "st' = st1" "cb' = snprintf_into cb 256 (set_cookie_text b')"
    "resp_headers r = [\<lparr>hdr_name = ''Set-Cookie'', hdr_value = cb'\<rparr>]"
    using assms(6) a0 b by (auto simp: login_handler_def Let_def)
  have "nul_free (set_cookie_text b')" "length (set_cookie_text b') < 256"
    using hex_token_facts [OF tok] by (simp_all add: set_cookie_text_def)
  then have "cstr cb' = set_cookie_text b'" unfolding st' by (rule cstr_snprintf_fits)
  moreover have "resp_status (snd (fst (login_handler sys client2 status req2 resp (w2, st', cb')))) =
      (if fst (time_now sys w2) < fst (time_now sys w3) + SESSION_LIFETIME_SEC then HTTP_200_OK else HTTP_401_UNAUTHORIZED)"
    if "req_method client2 = HTTP_GET" "req_headers req2 = [cookie_header (cstr b')]" for w2 client2 req2
    using that e single_token_request [OF inv header_token_cookie [OF tok], of sys w2 None 0]
    by (auto simp: login_handler_def st' errno Let_def simp del: authentication.simps split: prod.split if_splits)
  ultimately show ?thesis
    using st'(1,3) inv unfolding set_cookie_text_def by (intro conjI exI [of _ "cstr b'"] exI [of _ w3]) auto
qed

theorem login_sets_session_cookie_witness:
  "\<exists>token cb'. resp_headers (snd (fst (login_handler demo_sys post_client HTTP_SERVER_DATA_FINAL
       \<lparr>req_data = [], req_headers = [demo_basic]\<rparr> demo_resp (demo_later, demo_auth_open, zeros 256)))) =
      [\<lparr>hdr_name = ''Set-Cookie'', hdr_value = cb'\<rparr>] \<and>
    cstr cb' = ''session_token='' @ token @ ''; Path=/; HttpOnly; Max-Age=86400''"
proof -
  let ?req = "\<lparr>req_data = [], req_headers = [demo_basic]\<rparr>"
  obtain rc r w' st' cb' where s: "login_handler demo_sys post_client HTTP_SERVER_DATA_FINAL ?req demo_resp
      (demo_later, demo_auth_open, zeros 256) = ((rc, r), (w', st', cb'))" by (metis prod.collapse)
  have "fst (authentication demo_sys demo_later demo_auth_open [demo_basic]
      (Some (uninit demo_sys demo_later SESSION_TOKEN_SIZE)) SESSION_TOKEN_SIZE) = 0" by code_simp
  with s have ok: "resp_status r = HTTP_200_OK"
    by (auto simp: login_handler_def Let_def simp del: authentication.simps split: prod.splits)
  have "header_token demo_basic = None" by code_simp
  then have none: "\<forall>h \<in> set (req_headers ?req). header_token h = None" by simp
  have new: "login_token_new demo_sys demo_later (as_sessions demo_auth_open) (req_headers ?req)"
    using demo_auth_open_ok(3) by simp
  from login_sets_session_cookie [OF demo_sha256_lawful demo_uninit_lawful demo_auth_open_ok(2) new none s ok] s
  show ?thesis by auto
qed

text \<open>
  C36. Logging in while a session is already valid answers 200 too, but the cookie it sets
  is not the session: the token buffer was never written, so the header carries what the
  stack held.
\<close>

theorem login_with_session_sends_stack:
  assumes "uninit_lawful sys" and "sessions_inv (as_sessions st)"
    and "req_headers req = h # hs" and "header_token h = Some t"
    and "session_expiry (as_sessions st) t = Some e" and "fst (time_now sys w) < e"
  shows "\<exists>r s'. login_handler sys post_client status req resp (w, st, cb) = ((0, r), s') \<and>
    resp_status r = HTTP_200_OK \<and>
    map (\<lambda>h. cstr (hdr_value h)) (resp_headers r) =
      [''session_token='' @ cstr (uninit sys w SESSION_TOKEN_SIZE) @ ''; Path=/; HttpOnly; Max-Age=86400'']"
proof -
  let ?b = "uninit sys w SESSION_TOKEN_SIZE"
  obtain ok st1 w1 where c: "check_token_valid sys w st t = (ok, st1, w1)" by (metis prod.collapse)
  have "ok" using check_token_valid_result(1) [OF assms(2) nul_free_header_token [OF assms(4)] c] assms(5,6) by auto
  with c assms(3,4) have "authentication sys w st (req_headers req) (Some ?b) SESSION_TOKEN_SIZE =
      (0, st1, w1, Some ?b)"
    unfolding assms(3) authentication_step by simp
  moreover have "nul_free (set_cookie_text ?b)" "length (set_cookie_text ?b) < 256"
    using length_cstr_le [of ?b] assms(1)
    by (simp_all add: set_cookie_text_def uninit_lawful_def SESSION_TOKEN_SIZE_def)
  then have "cstr (snprintf_into cb 256 (set_cookie_text ?b)) = set_cookie_text ?b"
    by (rule cstr_snprintf_fits)
  ultimately show ?thesis
    unfolding set_cookie_text_def
    by (simp add: login_handler_def set_cookie_text_def Let_def del: authentication.simps)
qed

theorem login_with_session_sends_stack_witness:
  "\<exists>st r s'. login_handler demo_sys post_client HTTP_SERVER_DATA_FINAL
      \<lparr>req_data = [], req_headers = [cookie_header ''t'']\<rparr> demo_resp (demo_init, st, zeros 256) = ((0, r), s') \<and>
    resp_status r = HTTP_200_OK"
proof -
  let ?st = "demo_auth\<lparr>as_sessions := store_session_at 1000 ''t'' (as_sessions demo_auth)\<rparr>"
  have n: "session_name ''t''" by code_simp
  have none: "session_expiry (as_sessions demo_auth) ''t'' = None" by (simp add: demo_auth_def)
  have inv: "sessions_inv (as_sessions ?st)"
    using table.inv_store [OF demo_auth_ok(2) n none] by simp
  have e: "session_expiry (as_sessions ?st) ''t'' = Some (1000 + SESSION_LIFETIME_SEC)"
    using table.store_new [OF demo_auth_ok(2) n none] by simp
  have lt: "fst (time_now demo_sys demo_init) < 1000 + SESSION_LIFETIME_SEC" by code_simp
  have tk: "header_token (cookie_header ''t'') = Some ''t''" by code_simp
  have h: "req_headers \<lparr>req_data = [], req_headers = [cookie_header ''t'']\<rparr> = [cookie_header ''t'']" by simp
  from login_with_session_sends_stack [OF demo_uninit_lawful inv h tk e lt, of HTTP_SERVER_DATA_FINAL demo_resp "zeros 256"]
  show ?thesis by blast
qed

end
