(* ===== verification/User_Machine.thy ===== *)
theory User_Machine
  imports User_List
begin

text \<open>
  The user list under any sequence of requests: a step relation with the operations of
  \<open>User_List\<close>, called with any arguments, between which the other threads may change the
  world, and the same with restarts in between, which load what the settings hold. The arrays
  keep their sizes, whatever the settings held at first, and the names stay terminated when
  the firmware itself has filled the settings.
\<close>

inductive users_op :: "'w sys_api \<Rightarrow> web_users_list_t \<times> 'w \<Rightarrow> web_users_list_t \<times> 'w \<Rightarrow> bool" for sys where
  add: "add_web_user sys w l name pass = (rc, l', w') \<Longrightarrow> users_op sys (l, w) (l', w')"
| delete: "delete_web_user sys w l name = (rc, l', w') \<Longrightarrow> users_op sys (l, w) (l', w')"
| others: "users_op sys (l, w) (l, w')"

inductive_cases users_opE: "users_op sys (l, w) (l', w')"

text \<open>\<open>P\<close> holds of every user record the operations write.\<close>

definition users_sat :: "(web_user_t \<Rightarrow> bool) \<Rightarrow> web_users_list_t \<Rightarrow> bool" where
  "users_sat P l \<longleftrightarrow> web_users_wf l \<and> (\<forall>u \<in> set (wl_user l). P u)"

abbreviation terminated :: "web_user_t \<Rightarrow> bool" where
  "terminated u \<equiv> length (user_name u) < MAX_USERNAME_LEN"

lemma users_sat_wf: "users_sat (\<lambda>u. True) l = web_users_wf l"
  and users_sat_inv: "users_sat terminated l = users_inv l"
  by (simp_all add: users_sat_def users_inv_def)

lemma users_sat_set_slot:
  assumes "users_sat P l" and "web_user_wf u" and "P u"
  shows "users_sat P (l\<lparr>wl_user := (wl_user l)[i := u]\<rparr>)"
  using assms set_update_subset_insert [of "wl_user l" i u] by (auto simp: users_sat_def web_users_wf_def)

lemma users_sat_changed [simp]: "users_sat P (l\<lparr>wl_changed := c\<rparr>) = users_sat P l"
  by (simp add: users_sat_def web_users_wf_def)

lemma added_slot:
  fixes name :: string
  assumes "web_user_wf u" and "length h = 32"
  defines "u' \<equiv> u\<lparr>wu_user := (strncpy (wu_user u) name MAX_USERNAME_LEN)[MAX_USERNAME_LEN - 1 := NUL],
                  wu_pass_hash := memcpy_at (wu_pass_hash u) 0 h\<rparr>"
  shows "web_user_wf u'" and "terminated u'"
proof -
  have len: "length (wu_user u) = 32" "length (wu_pass_hash u) = 32" using assms(1) by (simp_all add: web_user_wf_def user_sizes)
  then show "web_user_wf u'" using assms(2) by (simp add: u'_def web_user_wf_def user_sizes)
  have "cstr ((strncpy (wu_user u) name 32)[32 - 1 := NUL]) = take (32 - 1) (cstr name)"
    by (rule strncpy_terminated) (simp_all add: len)
  then show "terminated u'" by (simp add: u'_def user_name_def user_sizes)
qed

lemma deleted_slot:
  assumes "web_user_wf u"
  shows "u\<lparr>wu_user := memset_zero (wu_user u) MAX_USERNAME_LEN, wu_pass_hash := memset_zero (wu_pass_hash u) MAX_PASS_HASH_LEN\<rparr> =
    free_slot"
  using assms by (simp add: web_user_wf_def free_slot_def memset_zero_def user_sizes)

lemma add_keeps:
  assumes sha: "sha256_lawful sys" and sat: "users_sat P l" and P: "\<And>u. terminated u \<Longrightarrow> P u"
    and a: "add_web_user sys w l username password = (rc, l', w')"
  shows "users_sat P l'"
proof (cases "l' = l")
  case False
  then obtain name pass i where n: "username = Some name" "password = Some pass"
    and i: "find_index (\<lambda>u. strcmp_eq (wu_user u) name \<or> wu_user u ! 0 = NUL) (wl_user l) = Some i"
    using a by (auto simp: add_web_user_def split: option.splits)
  let ?u = "wl_user l ! i"
  let ?h = "take 32 (snd (calc_password_hash sys pass (uninit sys w MAX_PASS_HASH_LEN) MAX_PASS_HASH_LEN))"
  have "web_user_wf ?u" using sat find_index_SomeD [OF i] by (simp add: users_sat_def web_users_wf_def)
  moreover have "length ?h = 32"
    using calc_password_hash_lawful [OF sha, of pass "uninit sys w 32"] length_digest [OF sha]
    by (simp add: user_sizes)
  ultimately have slot: "web_user_wf (?u\<lparr>wu_user := (strncpy (wu_user ?u) name MAX_USERNAME_LEN)[MAX_USERNAME_LEN - 1 := NUL],
      wu_pass_hash := memcpy_at (wu_pass_hash ?u) 0 ?h\<rparr>)" "terminated (?u\<lparr>wu_user := (strncpy (wu_user ?u) name MAX_USERNAME_LEN)[MAX_USERNAME_LEN - 1 := NUL],
      wu_pass_hash := memcpy_at (wu_pass_hash ?u) 0 ?h\<rparr>)"
    by (rule added_slot)+
  have "l' = l\<lparr>wl_user := (wl_user l)[i := ?u\<lparr>wu_user := (strncpy (wu_user ?u) name MAX_USERNAME_LEN)[MAX_USERNAME_LEN - 1 := NUL],
      wu_pass_hash := memcpy_at (wu_pass_hash ?u) 0 ?h\<rparr>]\<rparr>"
    using a False n i by (auto simp: add_web_user_def Let_def split: if_splits prod.splits)
  then show ?thesis using users_sat_set_slot [OF sat slot(1) P [OF slot(2)]] by simp
qed (use sat in simp)

lemma delete_keeps:
  assumes sat: "users_sat P l" and P: "\<And>u. terminated u \<Longrightarrow> P u"
    and d: "delete_web_user sys w l username = (rc, l', w')"
  shows "users_sat P l'"
proof (cases "l' = l\<lparr>wl_changed := False\<rparr>")
  case False
  then obtain name i where n: "username = Some name" and i: "find_index (\<lambda>u. strcmp_eq (wu_user u) name) (wl_user l) = Some i"
    using d by (auto simp: delete_web_user_def Let_def split: option.splits)
  have "web_user_wf (wl_user l ! i)" using sat find_index_SomeD [OF i] by (simp add: users_sat_def web_users_wf_def)
  then have "l' = l\<lparr>wl_changed := True, wl_user := (wl_user l)[i := free_slot]\<rparr>"
    using d False n i by (auto simp: delete_web_user_def Let_def deleted_slot split: if_splits prod.splits)
  moreover have "users_sat P (l\<lparr>wl_changed := True\<rparr>)" using sat by simp
  from users_sat_set_slot [OF this free_slot_wf(1) P [OF free_slot_wf(2)], of i]
  have "users_sat P (l\<lparr>wl_changed := True, wl_user := (wl_user l)[i := free_slot]\<rparr>)" by simp
  ultimately show ?thesis by simp
qed (use sat in simp)

lemma users_ops_keep:
  assumes "sha256_lawful sys" and "\<And>u. terminated u \<Longrightarrow> P u"
  shows "(users_op sys)\<^sup>*\<^sup>* s s' \<Longrightarrow> users_sat P (fst s) \<Longrightarrow> users_sat P (fst s')"
proof (induction rule: rtranclp_induct)
  case (step s1 s2)
  obtain l1 w1 l2 w2 where s: "s1 = (l1, w1)" "s2 = (l2, w2)" by fastforce
  show ?case
    using step(2) step(3) [OF step(4)] unfolding s
    by (elim users_opE) (auto intro: add_keeps [OF assms(1) _ assms(2)] delete_keeps [OF _ assms(2)])
qed

lemma users_init_typed:
  assumes "sha256_lawful sys" and "settings_load_ok sys" and "users_init sys w web_users_zero = (l, w')"
  shows "web_users_wf l"
    and "fst (settings_load_one sys w web_users_settings sizeof_web_users_list) \<le> 0 \<Longrightarrow> users_inv l"
proof -
  obtain rc bs where ld: "settings_load_one sys w web_users_settings sizeof_web_users_list = (rc, bs)" by fastforce
  have bs: "rc \<le> 0 \<Longrightarrow> bs = []" "length bs \<le> sizeof_web_users_list"
    using assms(2) ld unfolding settings_load_ok_def by (metis le_zero_eq list.size(3) nle_le)+
  have wf: "web_users_wf (load_users bs web_users_zero)" by (rule load_users_wf [OF web_users_zero_wf bs(2)])
  show first: "users_inv l" if "fst (settings_load_one sys w web_users_settings sizeof_web_users_list) \<le> 0"
    using first_start_creates_admin [OF assms(2,1) that assms(3)] by simp
  show "web_users_wf l"
  proof (cases "rc \<le> 0")
    case True
    then show ?thesis using first ld by (simp add: users_inv_wf)
  next
    case False
    then show ?thesis using assms(3) ld wf by (simp add: users_init_def)
  qed
qed

section \<open>A user remains\<close>

lemma filter_update:
  assumes "i < length xs"
  shows "length (filter P xs) \<le> Suc (length (filter P (xs[i := x])))"
    and "\<not> P (xs ! i) \<Longrightarrow> length (filter P xs) \<le> length (filter P (xs[i := x]))"
proof -
  have "length (filter P xs) = length (filter P (take i xs @ xs ! i # drop (Suc i) xs))"
    using id_take_nth_drop [OF assms] by simp
  then have "length (filter P xs) = length (filter P (take i xs)) + (if P (xs ! i) then 1 else 0) + length (filter P (drop (Suc i) xs))"
    by simp
  moreover have "length (filter P (xs[i := x])) \<ge> length (filter P (take i xs)) + length (filter P (drop (Suc i) xs))"
    using assms by (simp add: upd_conv_take_nth_drop)
  ultimately show "length (filter P xs) \<le> Suc (length (filter P (xs[i := x])))"
    and "\<not> P (xs ! i) \<Longrightarrow> length (filter P xs) \<le> length (filter P (xs[i := x]))"
    by (auto split: if_splits)
qed

text \<open>An addition writes into a free slot, a deletion is refused when one user is left; also when saving fails.\<close>

lemma add_keeps_users: "num_users l \<le> num_users (fst (snd (add_web_user sys w l name pass)))"
proof -
  have "num_users l \<le> num_users (l\<lparr>wl_user := (wl_user l)[i := u]\<rparr>)" if "i < length (wl_user l)" "wu_user (wl_user l ! i) ! 0 = NUL" for i u
    using filter_update(2) [OF that(1), of "\<lambda>u. wu_user u ! 0 \<noteq> NUL" u] that(2) by (simp add: num_users_def)
  then show ?thesis
    by (auto simp: add_web_user_def Let_def case_prod_beta split: option.split dest!: find_index_SomeD)
qed

lemma delete_keeps_users: "1 \<le> num_users l \<Longrightarrow> 1 \<le> num_users (fst (snd (delete_web_user sys w l name)))"
proof -
  assume one: "1 \<le> num_users l"
  have "1 \<le> num_users (l\<lparr>wl_changed := c, wl_user := (wl_user l)[i := u]\<rparr>)"
    if "i < length (wl_user l)" "num_users l \<noteq> 1" for i u c
    using filter_update(1) [OF that(1), of "\<lambda>u. wu_user u ! 0 \<noteq> NUL" u] that(2) one by (simp add: num_users_def)
  moreover have "num_users (l\<lparr>wl_changed := c\<rparr>) = num_users l" for c by (simp add: num_users_def)
  ultimately show ?thesis
    using one by (auto simp: delete_web_user_def Let_def case_prod_beta split: option.split dest!: find_index_SomeD)
qed

lemma users_op_keeps_users: "users_op sys s s' \<Longrightarrow> 1 \<le> num_users (fst s) \<Longrightarrow> 1 \<le> num_users (fst s')"
proof (induction rule: users_op.induct)
  case (add w l name pass rc l' w')
  then show ?case using add_keeps_users [of l sys w name pass] by simp
next
  case (delete w l name rc l' w')
  then show ?case using delete_keeps_users [of l sys w name] by simp
qed simp

section \<open>Restarts\<close>

text \<open>
  A device's life: the operations, restarts, and what others do, who leave the stored list alone.
\<close>

inductive users_life :: "'w sys_api \<Rightarrow> web_users_list_t \<times> 'w \<Rightarrow> web_users_list_t \<times> 'w \<Rightarrow> bool" for sys where
  add: "add_web_user sys w l name pass = (rc, l', w') \<Longrightarrow> users_life sys (l, w) (l', w')"
| delete: "delete_web_user sys w l name = (rc, l', w') \<Longrightarrow> users_life sys (l, w) (l', w')"
| restart: "users_init sys w web_users_zero = (l', w') \<Longrightarrow> users_life sys (l, w) (l', w')"
| others: "(\<And>n. settings_load_one sys w' web_users_settings n = settings_load_one sys w web_users_settings n) \<Longrightarrow>
    users_life sys (l, w) (l, w')"

inductive_cases users_lifeE: "users_life sys (l, w) (l', w')"

text \<open>The settings hold no list, or one with terminated names.\<close>

definition stored_ok :: "'w sys_api \<Rightarrow> 'w \<Rightarrow> bool" where
  "stored_ok sys w \<longleftrightarrow> fst (settings_load_one sys w web_users_settings sizeof_web_users_list) \<le> 0 \<or>
     (\<exists>l. users_inv l \<and> stored_list sys w l)"

lemma stored_ok_cong:
  "settings_load_one sys w' web_users_settings sizeof_web_users_list = settings_load_one sys w web_users_settings sizeof_web_users_list \<Longrightarrow>
     stored_ok sys w' = stored_ok sys w"
  by (simp add: stored_ok_def stored_list_def)

lemma stored_ok_save:
  assumes "saves_atomic sys" and "stored_ok sys w" and "users_inv l"
  shows "stored_ok sys (snd (settings_save_one sys w web_users_settings (web_users_bytes l)))" (is "stored_ok sys ?w")
proof -
  have len: "length (web_users_bytes l) = sizeof_web_users_list" by (rule length_web_users_bytes [OF users_inv_wf [OF assms(3)]])
  with sizeof_pos have "web_users_bytes l \<noteq> []" by auto
  with assms(1) have "(\<forall>n \<ge> length (web_users_bytes l). settings_load_one sys ?w web_users_settings n = (int (length (web_users_bytes l)), web_users_bytes l)) \<or>
      (\<forall>n. settings_load_one sys ?w web_users_settings n = settings_load_one sys w web_users_settings n)"
    unfolding saves_atomic_def Let_def by blast
  then have "stored_list sys ?w l \<or> stored_ok sys ?w = stored_ok sys w"
    using len stored_ok_cong [of sys ?w w] by (auto simp: stored_list_def)
  then show ?thesis using assms(2,3) by (auto simp: stored_ok_def)
qed

lemma update_users_world:
  "snd (update_users sys w (Some l)) \<in> {w, snd (settings_save_one sys w web_users_settings (web_users_bytes l))}"
  by (auto simp: update_users_def Let_def split: prod.split)

lemma add_world:
  "add_web_user sys w l name pass = (rc, l', w') \<Longrightarrow> w' \<in> {w, snd (settings_save_one sys w web_users_settings (web_users_bytes l'))}"
  using update_users_world [of sys w l'] by (auto simp: add_web_user_def Let_def split: option.splits if_splits prod.splits)

lemma delete_world:
  "delete_web_user sys w l name = (rc, l', w') \<Longrightarrow> w' \<in> {w, snd (settings_save_one sys w web_users_settings (web_users_bytes l'))}"
  using update_users_world [of sys w l'] by (auto simp: delete_web_user_def Let_def split: option.splits if_splits prod.splits)

lemma restart_ok:
  assumes "sha256_lawful sys" and "settings_load_ok sys" and "saves_atomic sys" and "stored_ok sys w"
    and "users_init sys w web_users_zero = (l, w')"
  shows "users_inv l" and "stored_ok sys w'"
proof -
  have "users_inv l \<and> stored_ok sys w'"
  proof (cases "fst (settings_load_one sys w web_users_settings sizeof_web_users_list) \<le> 0")
    case True
    from first_start_creates_admin [OF assms(2,1) True assms(5)] have "users_inv l"
      and w': "w' = snd (settings_save_one sys w web_users_settings (web_users_bytes l))" by simp_all
    with stored_ok_save [OF assms(3,4)] show ?thesis by simp
  next
    case False
    with assms(4) obtain l2 where l2: "users_inv l2" "stored_list sys w l2" by (auto simp: stored_ok_def)
    from users_init_stored [OF l2(2) users_inv_wf [OF l2(1)] web_users_zero_wf] assms(4,5) l2(1) show ?thesis by simp
  qed
  then show "users_inv l" and "stored_ok sys w'" by simp_all
qed

lemma life_terminated:
  assumes "sha256_lawful sys" and "settings_load_ok sys" and "saves_atomic sys"
  shows "(users_life sys)\<^sup>*\<^sup>* s s' \<Longrightarrow> users_inv (fst s) \<and> stored_ok sys (snd s) \<Longrightarrow> users_inv (fst s') \<and> stored_ok sys (snd s')"
proof (induction rule: rtranclp_induct)
  case (step s1 s2)
  obtain l w l' w' where s: "s1 = (l, w)" "s2 = (l', w')" by fastforce
  have inv: "users_sat terminated l" "stored_ok sys w" using step(3) [OF step(4)] s by (simp_all add: users_sat_inv)
  have "users_sat terminated l' \<and> stored_ok sys w'"
    using step(2) unfolding s
  proof cases
    case (add name pass rc)
    have "users_sat terminated l'" by (rule add_keeps [OF assms(1) inv(1) _ add])
    with add_world [OF add] stored_ok_save [OF assms(3) inv(2), of l'] inv(2) show ?thesis by (auto simp: users_sat_inv)
  next
    case (delete name rc)
    have "users_sat terminated l'" by (rule delete_keeps [OF inv(1) _ delete])
    with delete_world [OF delete] stored_ok_save [OF assms(3) inv(2), of l'] inv(2) show ?thesis by (auto simp: users_sat_inv)
  next
    case restart
    from restart_ok [OF assms inv(2) restart] show ?thesis by (simp add: users_sat_inv)
  next
    case others
    with inv stored_ok_cong [of sys w' w] show ?thesis by simp
  qed
  then show ?case by (simp add: s users_sat_inv)
qed

lemma life_wf:
  assumes "sha256_lawful sys" and "settings_load_ok sys"
  shows "(users_life sys)\<^sup>*\<^sup>* s s' \<Longrightarrow> web_users_wf (fst s) \<Longrightarrow> web_users_wf (fst s')"
proof (induction rule: rtranclp_induct)
  case (step s1 s2)
  obtain l w l' w' where s: "s1 = (l, w)" "s2 = (l', w')" by fastforce
  from step(2) step(3) [OF step(4)] show ?case
    unfolding s
    by (elim users_lifeE)
      (auto dest: add_keeps [OF assms(1), of "\<lambda>u. True", unfolded users_sat_wf] users_init_typed(1) [OF assms]
        delete_keeps [of "\<lambda>u. True", unfolded users_sat_wf])
qed

section \<open>Properties\<close>

text \<open>
  C21. The user table never leaves its type: from a start-up with anything in the settings
  on, after any sequence of additions and deletions with any names and passwords (also
  over-long, empty or missing ones, accepted or refused, saved or not) and restarts, it has
  two users with 32-byte arrays; and when the settings held no list at first, or one with
  terminated names, as any that the firmware has stored, every name in it is terminated.
\<close>

theorem user_table_well_typed:
  assumes "sha256_lawful sys" and "settings_load_ok sys" and "saves_atomic sys"
    and "users_init sys w web_users_zero = (l0, w0)" and "(users_life sys)\<^sup>*\<^sup>* (l0, w0) (l, w1)"
  shows "web_users_wf l \<and>
    (stored_ok sys w \<longrightarrow> stored_ok sys w1 \<and> (\<forall>u \<in> set (wl_user l). length (cstr (wu_user u)) < MAX_USERNAME_LEN))"
proof -
  have "web_users_wf l" using life_wf [OF assms(1,2,5)] users_init_typed(1) [OF assms(1,2,4)] by simp
  moreover have "users_inv l \<and> stored_ok sys w1" if "stored_ok sys w"
    using life_terminated [OF assms(1-3,5)] restart_ok [OF assms(1-3) that assms(4)] by simp
  ultimately show ?thesis by (simp add: users_inv_def user_name_def)
qed

text \<open>A start without stored users, a user with an over-long name, and a restart that loads both.\<close>

theorem user_table_well_typed_witness:
  "\<exists>l0 w0 rc l1 w1 l w. users_init demo_sys demo_init web_users_zero = (l0, w0) \<and>
     add_web_user demo_sys w0 l0 (Some (replicate 40 (CHR ''x''))) (Some ''pw'') = (rc, l1, w1) \<and>
     users_init demo_sys w1 web_users_zero = (l, w) \<and> web_users_wf l \<and>
     (\<forall>u \<in> set (wl_user l). length (cstr (wu_user u)) < MAX_USERNAME_LEN)"
proof -
  obtain l0 w0 where i: "users_init demo_sys demo_init web_users_zero = (l0, w0)" by fastforce
  obtain rc l1 w1 where a: "add_web_user demo_sys w0 l0 (Some (replicate 40 (CHR ''x''))) (Some ''pw'') = (rc, l1, w1)"
    by (metis prod_cases3)
  obtain l w where r: "users_init demo_sys w1 web_users_zero = (l, w)" by fastforce
  have "(users_life demo_sys)\<^sup>*\<^sup>* (l0, w0) (l, w)"
    using users_life.add [OF a] users_life.restart [OF r, of l1] by (meson converse_rtranclp_into_rtranclp rtranclp.rtrancl_refl)
  moreover have "stored_ok demo_sys demo_init" by (simp add: stored_ok_def demo_sys_def demo_load_def demo_init_def errno)
  ultimately show ?thesis
    using user_table_well_typed [OF demo_sha256_lawful demo_settings_load_ok demo_saves_atomic i] i a r by blast
qed

end
