(* ===== verification/Mqtt_Helpers.thy ===== *)
theory Mqtt_Helpers
  imports Device_Platform Relay_Bits
begin

text \<open>
  \<open>mqtt/ha_mqtt_helpers.c\<close>: the device identifier, the topics and payloads for Home
  Assistant, and the parser for its commands. The state is the identifier's array and that
  of the address shown in the registration. A text that \<open>snprintf\<close> formats is a function
  of its arguments (\<open>status_topik_text\<close>, \<open>conf_text\<close>, ...), which the operations write into
  the caller's array. The locale \<open>topic_codec\<close> states that topics are read back.
\<close>

section \<open>Device types and state\<close>

datatype mqtt_ha_dev_type_t =
  INPUT_SENSOR | OUTPUT_DEVICE | ENERGY_SENSOR | POWER_SENSOR | VOLTAGE_SENSOR | POWER_FACTOR_SENSOR
| CURRENT_SENSOR | APPARENT_POWER_SENSOR | VOLTAGE_DIAGNOSTIC_BATT_SENSOR
| VOLTAGE_DIAGNOSTIC_POW_SUPL_SENSOR

text \<open>The values the header gives the enumerators order them.\<close>

fun dev_type_code :: "mqtt_ha_dev_type_t \<Rightarrow> nat" where
  "dev_type_code INPUT_SENSOR = 1"
| "dev_type_code OUTPUT_DEVICE = 2"
| "dev_type_code ENERGY_SENSOR = 3"
| "dev_type_code POWER_SENSOR = 4"
| "dev_type_code VOLTAGE_SENSOR = 5"
| "dev_type_code POWER_FACTOR_SENSOR = 6"
| "dev_type_code CURRENT_SENSOR = 7"
| "dev_type_code APPARENT_POWER_SENSOR = 8"
| "dev_type_code VOLTAGE_DIAGNOSTIC_BATT_SENSOR = 9"
| "dev_type_code VOLTAGE_DIAGNOSTIC_POW_SUPL_SENSOR = 10"

lemma dev_type_code_inject: "dev_type_code a = dev_type_code b \<Longrightarrow> a = b"
  by (cases a; cases b) simp_all

instantiation mqtt_ha_dev_type_t :: linorder
begin

definition less_eq_mqtt_ha_dev_type_t :: "mqtt_ha_dev_type_t \<Rightarrow> mqtt_ha_dev_type_t \<Rightarrow> bool" where
  "less_eq_mqtt_ha_dev_type_t a b \<longleftrightarrow> dev_type_code a \<le> dev_type_code b"

definition less_mqtt_ha_dev_type_t :: "mqtt_ha_dev_type_t \<Rightarrow> mqtt_ha_dev_type_t \<Rightarrow> bool" where
  "less_mqtt_ha_dev_type_t a b \<longleftrightarrow> dev_type_code a < dev_type_code b"

instance
  by standard
    (auto simp: less_eq_mqtt_ha_dev_type_t_def less_mqtt_ha_dev_type_t_def intro: dev_type_code_inject)

end

definition MQTT_UNIC_IDENTIFIER_LENGTH :: nat where "MQTT_UNIC_IDENTIFIER_LENGTH = 32"
definition INET6_ADDRSTRLEN :: nat where "INET6_ADDRSTRLEN = 46"

record ha_helpers_state =
  hs_dev_identifier :: buffer
  hs_conf_ip :: buffer

definition ha_helpers_init :: ha_helpers_state where
  "ha_helpers_init = \<lparr>hs_dev_identifier = zeros MQTT_UNIC_IDENTIFIER_LENGTH, hs_conf_ip = zeros INET6_ADDRSTRLEN\<rparr>"

fun set_id_loop :: "buffer \<Rightarrow> nat \<Rightarrow> byte list \<Rightarrow> buffer" where
  "set_id_loop buf i [] = buf"
| "set_id_loop buf i (b # bs) = set_id_loop (memcpy_at buf (i * 2) (hex2_upper b @ [NUL])) (Suc i) bs"

definition set_device_id :: "byte list \<Rightarrow> ha_helpers_state \<Rightarrow> int \<times> ha_helpers_state" where
  "set_device_id ident hs =
     (if length ident = 0 then (- EINVAL, hs)
      else if length ident * 2 + 1 > MQTT_UNIC_IDENTIFIER_LENGTH then (- ENOSPC, hs)
      else (0, hs\<lparr>hs_dev_identifier := set_id_loop (hs_dev_identifier hs) 0 ident\<rparr>))"

definition get_device_id :: "ha_helpers_state \<Rightarrow> string option" where
  "get_device_id hs = (if hs_dev_identifier hs ! 0 = NUL then None else Some (cstr (hs_dev_identifier hs)))"

text \<open>The array is written also when the text does not fit.\<close>

definition set_device_conf_ip :: "'w kernel_api \<Rightarrow> string \<Rightarrow> ha_helpers_state \<Rightarrow> int \<times> ha_helpers_state" where
  "set_device_conf_ip kn ip_str hs =
     (if \<not> inet_pton_ok kn ip_str then (- EINVAL, hs)
      else let hs' = hs\<lparr>hs_conf_ip := snprintf_into (hs_conf_ip hs) INET6_ADDRSTRLEN ip_str\<rparr>
           in if INET6_ADDRSTRLEN \<le> length ip_str then (- ENOSPC, hs') else (0, hs'))"

definition get_device_conf_ip :: "ha_helpers_state \<Rightarrow> string option" where
  "get_device_conf_ip hs = (if hs_conf_ip hs ! 0 = NUL then None else Some (cstr (hs_conf_ip hs)))"

section \<open>Topics\<close>

definition dev_system :: string where "dev_system = ''cedar''"
definition component_input :: string where "component_input = ''input''"
definition component_switch :: string where "component_switch = ''switch''"

text \<open>\<open>strcpy (buff, "")\<close> and then \<open>snprintf (buff, size, ...)\<close>.\<close>

definition print_topik :: "buffer \<Rightarrow> nat \<Rightarrow> string \<Rightarrow> buffer" where
  "print_topik buff sz text = snprintf_into (buff[0 := NUL]) sz text"

definition status_topik_text :: "string \<Rightarrow> string \<Rightarrow> nat \<Rightarrow> string" where
  "status_topik_text ident component n = dev_system @ ''_'' @ ident @ ''/'' @ component @ nat_dec n @ ''/state''"

definition get_status_topik_string ::
  "ha_helpers_state \<Rightarrow> buffer \<Rightarrow> nat \<Rightarrow> mqtt_ha_dev_type_t \<Rightarrow> u8 \<Rightarrow> int \<times> buffer" where
  "get_status_topik_string hs buff sz dev_type n =
     (let ident = cstr (hs_dev_identifier hs) in
      case dev_type of
        INPUT_SENSOR \<Rightarrow> (0, print_topik buff sz (status_topik_text ident component_input (unat n)))
      | OUTPUT_DEVICE \<Rightarrow> (0, print_topik buff sz (status_topik_text ident component_switch (unat n)))
      | _ \<Rightarrow> (- EINVAL, buff[0 := NUL]))"

definition config_topik_text :: "string \<Rightarrow> string \<Rightarrow> string \<Rightarrow> nat \<Rightarrow> string" where
  "config_topik_text component ident kind n =
     ''homeassistant/'' @ component @ ''/'' @ dev_system @ ''_'' @ ident @ ''/'' @ kind @ nat_dec n @ ''/config''"

fun config_names :: "mqtt_ha_dev_type_t \<Rightarrow> string \<times> string" where
  "config_names INPUT_SENSOR = (''binary_sensor'', component_input)"
| "config_names OUTPUT_DEVICE = (component_switch, component_switch)"
| "config_names VOLTAGE_DIAGNOSTIC_BATT_SENSOR = (''sensor'', ''battery'')"
| "config_names VOLTAGE_DIAGNOSTIC_POW_SUPL_SENSOR = (''sensor'', ''power_supply'')"
| "config_names ENERGY_SENSOR = (''sensor'', ''energy'')"
| "config_names VOLTAGE_SENSOR = (''sensor'', ''voltage'')"
| "config_names POWER_SENSOR = (''sensor'', ''power'')"
| "config_names APPARENT_POWER_SENSOR = (''sensor'', ''apparent_power'')"
| "config_names POWER_FACTOR_SENSOR = (''sensor'', ''power_factor'')"
| "config_names CURRENT_SENSOR = (''sensor'', ''current'')"

definition get_config_topik_string ::
  "ha_helpers_state \<Rightarrow> buffer \<Rightarrow> nat \<Rightarrow> mqtt_ha_dev_type_t \<Rightarrow> u8 \<Rightarrow> int \<times> buffer" where
  "get_config_topik_string hs buff sz dev_type n =
     (let (component, kind) = config_names dev_type
      in (0, print_topik buff sz (config_topik_text component (cstr (hs_dev_identifier hs)) kind (unat n))))"

definition command_topik_text :: "string \<Rightarrow> string \<Rightarrow> nat \<Rightarrow> string" where
  "command_topik_text ident component n = dev_system @ ''_'' @ ident @ ''/'' @ component @ nat_dec n @ ''/set''"

definition generate_command_topik_for_subscrabe ::
  "ha_helpers_state \<Rightarrow> buffer \<Rightarrow> nat \<Rightarrow> mqtt_ha_dev_type_t \<Rightarrow> u8 \<Rightarrow> int \<times> buffer" where
  "generate_command_topik_for_subscrabe hs topik len dev_type n =
     (if dev_type = OUTPUT_DEVICE then
        let text = command_topik_text (cstr (hs_dev_identifier hs)) component_switch (unat n)
        in (int (length text), snprintf_into topik len text)
      else (- 1, topik))"

section \<open>Payloads\<close>

abbreviation NL :: char where "NL \<equiv> CHR 0x0A"
abbreviation TAB :: char where "TAB \<equiv> CHR 0x09"

text \<open>The names are UTF-8 in the source: "Vkhid" and "Peremykach" in Ukrainian.\<close>

definition component_input_name :: string where
  "component_input_name =
     [CHR 0xD0, CHR 0x92, CHR 0xD1, CHR 0x85, CHR 0xD1, CHR 0x96, CHR 0xD0, CHR 0xB4]"

definition dev_class_switch_name :: string where
  "dev_class_switch_name =
     [CHR 0xD0, CHR 0x9F, CHR 0xD0, CHR 0xB5, CHR 0xD1, CHR 0x80, CHR 0xD0, CHR 0xB5, CHR 0xD0, CHR 0xBC,
      CHR 0xD0, CHR 0xB8, CHR 0xD0, CHR 0xBA, CHR 0xD0, CHR 0xB0, CHR 0xD1, CHR 0x87]"

definition ha_mqtt_keepalive_sec :: nat where "ha_mqtt_keepalive_sec = 600"

text \<open>\<open>ha_universal_conf_template\<close> with the arguments the two calls have in common filled in.\<close>

definition conf_text :: "string \<Rightarrow> string \<Rightarrow> string \<Rightarrow> nat \<Rightarrow> string \<Rightarrow> string \<Rightarrow> string \<Rightarrow> string" where
  "conf_text device_class ident component n command name ip =
     ''{'' @ [NL] @
     [TAB] @ ''\"device_class\" :\"'' @ device_class @ ''\",'' @ [NL] @
     [TAB] @ ''\"expire_after\" : '' @ nat_dec ha_mqtt_keepalive_sec @ '' ,'' @ [NL] @
     [TAB] @ ''\"state_topic\" :\"'' @ dev_system @ ''_'' @ ident @ ''/'' @ component @ nat_dec n @ ''/state\",'' @ [NL] @
     [TAB] @ ''\"value_template\":\"{{ value_json.'' @ component @ nat_dec n @ '' }}\",'' @ [NL] @
     [TAB] @ command @
     [TAB] @ ''\"name\":\"'' @ name @ ''\",'' @ [NL] @
     [TAB] @ ''\"unique_id\":\"'' @ dev_system @ ''_'' @ ident @ ''_'' @ component @ nat_dec n @ ''\",'' @ [NL] @
     [TAB] @ ''\"unit_of_measurement\": \"\",'' @ [NL] @
     [TAB] @ ''\"device\":{'' @ [NL] @
     [TAB, TAB] @ ''\"identifiers\":[\"'' @ dev_system @ ''_'' @ ident @ ''\"],'' @ [NL] @
     [TAB, TAB] @ ''\"name\":\"CedarSwitch\",'' @ [NL] @
     [TAB, TAB] @ ''\"model\":\"CedarSwitch-3R3I-POWER\",'' @ [NL] @
     [TAB, TAB] @ ''\"manufacturer\":\"Manufacturer\",'' @ [NL] @
     [TAB, TAB] @ ''\"hw_version\" : \"1.0\",'' @ [NL] @
     [TAB, TAB] @ ''\"sw_version\" : \"1.0\",'' @ [NL] @
     [TAB, TAB] @ ''\"configuration_url\" : \"http://'' @ ip @ ''\"'' @ [NL] @
     [TAB] @ ''}'' @ [NL] @
     ''}'' @ [NL]"

definition numbered :: "string \<Rightarrow> nat \<Rightarrow> string" where
  "numbered name n = (if n = 0 then name else name @ '' '' @ nat_dec n)"

definition command_topik_part :: "string \<Rightarrow> nat \<Rightarrow> string" where
  "command_topik_part ident n =
     ''\"command_topic\" : \"'' @ dev_system @ ''_'' @ ident @ ''/'' @ component_switch @
       (if n = 0 then [] else nat_dec n) @ ''/set\",'' @ [NL]"

text \<open>
  The payload's length goes through a \<open>uint8_t\<close> on its way to the result; \<open>name\<close> and
  \<open>command_topik\<close> are arrays of 128 bytes.
\<close>

definition print_payload :: "buffer \<Rightarrow> nat \<Rightarrow> string \<Rightarrow> int \<times> buffer" where
  "print_payload payload len text =
     (int (length text mod 256), snprintf_into (memset_zero payload len) len text)"

definition get_config_payload_string ::
  "ha_helpers_state \<Rightarrow> buffer \<Rightarrow> nat \<Rightarrow> mqtt_ha_dev_type_t \<Rightarrow> u8 \<Rightarrow> int \<times> buffer" where
  "get_config_payload_string hs payload len dev_type obj_number =
     (let ident = cstr (hs_dev_identifier hs); ip = cstr (hs_conf_ip hs); n = unat obj_number in
      case dev_type of
        INPUT_SENSOR \<Rightarrow>
          print_payload payload len
            (conf_text ''power'' ident component_input n [NL] (take 127 (numbered component_input_name n)) ip)
      | OUTPUT_DEVICE \<Rightarrow>
          print_payload payload len
            (conf_text component_switch ident component_switch n (take 127 (command_topik_part ident n))
               (take 127 (numbered dev_class_switch_name n)) ip)
      | _ \<Rightarrow> (- 1, memset_zero payload len))"

definition io_text :: "string \<Rightarrow> nat \<Rightarrow> bool \<Rightarrow> string" where
  "io_text name n on = ''{\"'' @ name @ nat_dec n @ ''\" : \"'' @ (if on then ''ON'' else ''OFF'') @ ''\"}''"

text \<open>
  For another device type the name is a null pointer; the C library prints such a string
  as \<open>(null)\<close>. No caller passes one.
\<close>

definition generate_sensor_status_payload_JSON ::
  "buffer \<Rightarrow> nat \<Rightarrow> mqtt_ha_dev_type_t \<Rightarrow> u8 \<Rightarrow> u8 \<Rightarrow> int \<times> buffer" where
  "generate_sensor_status_payload_JSON payload sz dev_type n state =
     (let name = (case dev_type of INPUT_SENSOR \<Rightarrow> component_input | OUTPUT_DEVICE \<Rightarrow> component_switch
                  | _ \<Rightarrow> ''(null)'');
          text = io_text name (unat n) (state \<noteq> 0)
      in (int (length text), snprintf_into payload sz text))"

section \<open>Commands\<close>

text \<open>\<open>scanf\<close>'s \<open>%n[...]\<close>: at least one and at most so many characters of a set.\<close>

definition scan_set :: "nat \<Rightarrow> (char \<Rightarrow> bool) \<Rightarrow> string \<Rightarrow> (string \<times> string) option" where
  "scan_set width P s =
     (let t = takeWhile P (take width s) in if t = [] then None else Some (t, drop (length t) s))"

text \<open>
  \<open>sscanf (topic, "%*[^/]/%31[a-zA-Z]%7[0-9]/set%n", devtype, index, &consumed)\<close>: the
  number of conversions, the two strings and \<open>consumed\<close>, which stays 0 when the input does
  not get that far.
\<close>

definition sscanf_topic :: "string \<Rightarrow> nat \<times> string \<times> string \<times> nat" where
  "sscanf_topic s =
     (case scan_set (length s) (\<lambda>c. c \<noteq> CHR ''/'') s of
        None \<Rightarrow> (0, [], [], 0)
      | Some (_, r1) \<Rightarrow>
          if take 1 r1 \<noteq> ''/'' then (0, [], [], 0)
          else (case scan_set 31 is_alpha (drop 1 r1) of
                  None \<Rightarrow> (0, [], [], 0)
                | Some (devtype, r2) \<Rightarrow>
                    (case scan_set 7 is_digit r2 of
                       None \<Rightarrow> (1, devtype, [], 0)
                     | Some (index, r3) \<Rightarrow>
                         (2, devtype, index, if take 4 r3 = ''/set'' then length s - length (drop 4 r3) else 0))))"

definition get_sensor_type_from_str :: "string \<Rightarrow> mqtt_ha_dev_type_t option" where
  "get_sensor_type_from_str s =
     (if s = ''input'' then Some INPUT_SENSOR else if s = ''switch'' then Some OUTPUT_DEVICE else None)"

definition get_sensor_state_from_str :: "string \<Rightarrow> u8 option" where
  "get_sensor_state_from_str s =
     (if strcasecmp_eq s ''on'' \<or> s = ''1'' then Some 1
      else if strcasecmp_eq s ''off'' \<or> s = ''0'' then Some 0 else None)"

text \<open>\<open>None\<close> is the return code -1.\<close>

definition parse_incoming_message :: "buffer \<Rightarrow> buffer \<Rightarrow> (mqtt_ha_dev_type_t \<times> u8 \<times> u8) option" where
  "parse_incoming_message payload topic =
     (let (rc, devtype_str, index_str, consumed) = sscanf_topic (cstr topic)
      in if rc \<noteq> 2 \<or> consumed < length (cstr topic) then None
         else let (v, rest, erange) = strtol index_str 10
              in if erange \<or> rest = index_str \<or> rest \<noteq> [] \<or> v < 0 \<or> v > 2 ^ 31 - 1 then None
                 else (case scan_set 7 (\<lambda>c. is_alpha c \<or> is_digit c) (cstr payload) of
                         None \<Rightarrow> None
                       | Some (state_str, _) \<Rightarrow>
                           (case get_sensor_type_from_str devtype_str of
                              None \<Rightarrow> None
                            | Some dev_type \<Rightarrow>
                                (case get_sensor_state_from_str state_str of
                                   None \<Rightarrow> None
                                 | Some state \<Rightarrow> Some (dev_type, of_int v, state)))))"

section \<open>The identifier\<close>

definition hex_text :: "byte list \<Rightarrow> string" where
  "hex_text ident = concat (map hex2_upper ident)"

lemma hex_text_simps [simp]:
  "hex_text [] = []" "hex_text (b # bs) = hex2_upper b @ hex_text bs" "length (hex_text ident) = 2 * length ident"
  "nul_free (hex_text ident)"
proof -
  show "hex_text [] = []" "hex_text (b # bs) = hex2_upper b @ hex_text bs" by (simp_all add: hex_text_def)
  show "length (hex_text ident) = 2 * length ident" by (induction ident) (simp_all add: hex_text_def)
  show "nul_free (hex_text ident)" by (induction ident) (simp_all add: hex_text_def)
qed

lemma hex_text_no_slash: "CHR ''/'' \<notin> set (hex_text ident)"
proof (induction ident)
  case (Cons b bs)
  have "CHR ''/'' \<notin> set (hex2_upper b)"
    using hex2_code(2) [of "CHR ''/''" b] by (auto simp: is_digit_def char_code_def)
  with Cons show ?case by simp
qed simp

lemma hex_text_inject: "length xs = length ys \<Longrightarrow> hex_text xs = hex_text ys \<Longrightarrow> xs = ys"
  by (induction xs ys rule: list_induct2) auto

lemma set_id_loop_spec:
  assumes "2 * (i + length bs) + 1 \<le> length buf" and "bs \<noteq> []"
  shows "set_id_loop buf i bs = take (2 * i) buf @ hex_text bs @ NUL # drop (2 * (i + length bs) + 1) buf"
  using assms
proof (induction bs arbitrary: buf i)
  case Nil
  then show ?case by simp
next
  case (Cons b bs)
  let ?buf = "memcpy_at buf (i * 2) (hex2_upper b @ [NUL])"
  have buf: "?buf = take (2 * i) buf @ hex2_upper b @ NUL # drop (2 * i + 3) buf"
    by (simp add: memcpy_at_def mult.commute numeral_3_eq_3)
  show ?case
  proof (cases "bs = []")
    case True
    then show ?thesis by (simp add: buf) (simp add: numeral_eq_Suc add.commute)
  next
    case False
    have len: "length ?buf = length buf" using Cons.prems by (simp add: memcpy_at_def)
    have "set_id_loop ?buf (Suc i) bs =
        take (2 * Suc i) ?buf @ hex_text bs @ NUL # drop (2 * (Suc i + length bs) + 1) ?buf"
      using Cons.prems by (intro Cons.IH [OF _ False]) (simp add: len)
    moreover have "take (2 * Suc i) ?buf = take (2 * i) buf @ hex2_upper b"
      using Cons.prems by (simp add: buf)
    moreover have "drop (2 * (Suc i + length bs) + 1) ?buf = drop (2 * (Suc i + length bs) + 1) buf"
      using Cons.prems False by (cases bs) (simp_all add: buf numeral_3_eq_3 add.commute)
    ultimately show ?thesis by simp
  qed
qed

lemma set_device_id_ok:
  assumes "set_device_id ident hs = (0, hs')" and "length (hs_dev_identifier hs) = MQTT_UNIC_IDENTIFIER_LENGTH"
  shows "cstr (hs_dev_identifier hs') = hex_text ident" and "length ident \<le> 15" and "hs_conf_ip hs' = hs_conf_ip hs"
    and "length (hs_dev_identifier hs') = MQTT_UNIC_IDENTIFIER_LENGTH"
proof -
  have len: "ident \<noteq> []" "length ident \<le> 15"
    and hs': "hs' = hs\<lparr>hs_dev_identifier := set_id_loop (hs_dev_identifier hs) 0 ident\<rparr>"
    using assms(1) by (auto simp: set_device_id_def MQTT_UNIC_IDENTIFIER_LENGTH_def errno split: if_splits)
  have "set_id_loop (hs_dev_identifier hs) 0 ident = hex_text ident @ NUL # drop (2 * length ident + 1) (hs_dev_identifier hs)"
    using set_id_loop_spec [of 0 ident "hs_dev_identifier hs"] len assms(2) by (simp add: MQTT_UNIC_IDENTIFIER_LENGTH_def)
  then show "cstr (hs_dev_identifier hs') = hex_text ident" "length (hs_dev_identifier hs') = MQTT_UNIC_IDENTIFIER_LENGTH"
    using len assms(2) by (simp_all add: hs' cstr_append_NUL MQTT_UNIC_IDENTIFIER_LENGTH_def)
  show "length ident \<le> 15" "hs_conf_ip hs' = hs_conf_ip hs" using len hs' by simp_all
qed

lemma set_device_id_refused:
  "15 < length ident \<Longrightarrow> set_device_id ident hs = (- ENOSPC, hs)"
  by (auto simp: set_device_id_def MQTT_UNIC_IDENTIFIER_LENGTH_def)

section \<open>Reading topics back\<close>

lemma scan_set_stop:
  assumes "t \<noteq> []" and "\<forall>c \<in> set t. P c" and "length t \<le> width" and "r = [] \<or> \<not> P (hd r)"
  shows "scan_set width P (t @ r) = Some (t, r)"
proof -
  have "takeWhile P (take (width - length t) r) = []"
    using assms(4) by (cases r; cases "width - length t") auto
  then have "takeWhile P (take width (t @ r)) = t"
    using assms(2,3) by (simp add: takeWhile_append2)
  then show ?thesis using assms(1) by (simp add: scan_set_def)
qed

lemma sscanf_topic_own:
  assumes "pre \<noteq> []" and "CHR ''/'' \<notin> set pre"
    and "dev \<noteq> []" and "\<forall>c \<in> set dev. is_alpha c" and "length dev \<le> 31"
    and "ds \<noteq> []" and "\<forall>c \<in> set ds. is_digit c" and "length ds \<le> 7"
  shows "sscanf_topic (pre @ ''/'' @ dev @ ds @ ''/set'') = (2, dev, ds, length (pre @ ''/'' @ dev @ ds @ ''/set''))"
proof -
  have 1: "scan_set (length (pre @ ''/'' @ dev @ ds @ ''/set'')) (\<lambda>c. c \<noteq> CHR ''/'') (pre @ ''/'' @ dev @ ds @ ''/set'')
      = Some (pre, ''/'' @ dev @ ds @ ''/set'')"
    using assms(1,2) by (intro scan_set_stop) auto
  have "\<not> is_alpha (hd (ds @ ''/set''))" using assms(6,7) by (cases ds) auto
  then have 2: "scan_set 31 is_alpha (dev @ (ds @ ''/set'')) = Some (dev, ds @ ''/set'')"
    using assms(3-5) by (intro scan_set_stop) auto
  have 3: "scan_set 7 is_digit (ds @ ''/set'') = Some (ds, ''/set'')"
    using assms(6-8) by (intro scan_set_stop) (auto simp: is_digit_def char_code_def)
  show ?thesis unfolding sscanf_topic_def 1 by (simp add: 2 3)
qed

lemma switch_alpha: "\<forall>c \<in> set component_switch. is_alpha c"
  by (simp add: component_switch_def is_alpha_def char_code_def)

lemma sscanf_command_topik:
  assumes "CHR ''/'' \<notin> set ident" and "n < 10 ^ 7"
  shows "sscanf_topic (command_topik_text ident component_switch n) =
    (2, component_switch, nat_dec n, length (command_topik_text ident component_switch n))"
proof -
  have "length (nat_dec n) \<le> 7" using assms(2) by (intro length_nat_dec_le) auto
  moreover have "CHR ''/'' \<notin> set (dev_system @ ''_'' @ ident)" using assms(1) by (simp add: dev_system_def)
  ultimately have "sscanf_topic ((dev_system @ ''_'' @ ident) @ ''/'' @ component_switch @ nat_dec n @ ''/set'') =
      (2, component_switch, nat_dec n, length ((dev_system @ ''_'' @ ident) @ ''/'' @ component_switch @ nat_dec n @ ''/set''))"
    using switch_alpha nat_dec_digits
    by (intro sscanf_topic_own) (auto simp: dev_system_def component_switch_def)
  then show ?thesis by (simp add: command_topik_text_def)
qed

lemma nat_dec_7: "n < 10 ^ 7 \<Longrightarrow> int n \<le> long_max"
  by (simp add: long_max_def)

lemma parse_command:
  assumes "cstr topic = command_topik_text ident component_switch n" and "CHR ''/'' \<notin> set ident" and "n < 10 ^ 7"
    and "scan_set 7 (\<lambda>c. is_alpha c \<or> is_digit c) (cstr payload) = Some (word, rest)"
    and "get_sensor_state_from_str word = Some st"
  shows "parse_incoming_message payload topic = Some (OUTPUT_DEVICE, of_nat n, st)"
proof -
  have "strtol (nat_dec n) 10 = (int n, [], False)"
    using strtol_digits [of "nat_dec n"] nat_dec_digits nat_dec_7 [OF assms(3)] by auto
  moreover have "get_sensor_type_from_str component_switch = Some OUTPUT_DEVICE"
    by (simp add: get_sensor_type_from_str_def component_switch_def)
  moreover have "int n \<le> 2 ^ 31 - 1" using nat_dec_7 [OF assms(3)] by (simp add: long_max_def)
  ultimately show ?thesis
    using assms(4,5) unfolding parse_incoming_message_def assms(1) sscanf_command_topik [OF assms(2,3)]
    by (simp add: nat_dec_not_Nil [symmetric] del: nat_dec_not_Nil)
qed

definition state_word :: "bool \<Rightarrow> string" where
  "state_word on = (if on then ''ON'' else ''OFF'')"

lemma state_word_scan:
  "scan_set 7 (\<lambda>c. is_alpha c \<or> is_digit c) (state_word on) = Some (state_word on, [])"
  "get_sensor_state_from_str (state_word on) = Some (of_bool on)"
proof -
  have "scan_set 7 (\<lambda>c. is_alpha c \<or> is_digit c) (state_word True) = Some (state_word True, [])"
    "scan_set 7 (\<lambda>c. is_alpha c \<or> is_digit c) (state_word False) = Some (state_word False, [])"
    "get_sensor_state_from_str (state_word True) = Some 1"
    "get_sensor_state_from_str (state_word False) = Some 0" by code_simp+
  then show "scan_set 7 (\<lambda>c. is_alpha c \<or> is_digit c) (state_word on) = Some (state_word on, [])"
    "get_sensor_state_from_str (state_word on) = Some (of_bool on)" by (cases on; simp)+
qed

text \<open>The contract of topics: what is printed for a key is read back as this key.\<close>

locale topic_codec =
  fixes print :: "'k \<Rightarrow> string"
    and parse :: "string \<Rightarrow> 'k option"
    and ok :: "'k \<Rightarrow> bool"
  assumes parse_print: "ok k \<Longrightarrow> parse (print k) = Some k"
begin

lemma print_inject: "ok k \<Longrightarrow> ok l \<Longrightarrow> print k = print l \<longleftrightarrow> k = l"
  by (metis option.inject parse_print)

lemma print_distinct: "distinct ks \<Longrightarrow> \<forall>k \<in> set ks. ok k \<Longrightarrow> distinct (map print ks)"
  by (auto simp: distinct_map inj_on_def print_inject)

end

definition topic_number :: "string \<Rightarrow> nat option" where
  "topic_number t = map_option (\<lambda>(_, n, _). unat n) (parse_incoming_message ''ON'' t)"

interpretation command_topics: topic_codec "command_topik_text (hex_text ident) component_switch" topic_number "\<lambda>n. n < 256"
  for ident
proof
  fix n :: nat assume n: "n < 256"
  have "nul_free (command_topik_text (hex_text ident) component_switch n)"
    by (simp add: command_topik_text_def dev_system_def component_switch_def)
  then have "parse_incoming_message ''ON'' (command_topik_text (hex_text ident) component_switch n) =
      Some (OUTPUT_DEVICE, of_nat n, 1)"
    using parse_command [of "command_topik_text (hex_text ident) component_switch n" "hex_text ident" n "''ON''" "''ON''" "[]" 1]
      hex_text_no_slash n state_word_scan [of True]
    by (simp add: cstr_id state_word_def cstr_Cons)
  then show "topic_number (command_topik_text (hex_text ident) component_switch n) = Some n"
    using n by (simp add: topic_number_def unat_of_nat)
qed


section \<open>Sizes\<close>

lemma length_state_texts:
  "length (status_topik_text ident component n) = 13 + length ident + length component + length (nat_dec n)"
  "length (command_topik_text ident component n) = 11 + length ident + length component + length (nat_dec n)"
  by (simp_all add: status_topik_text_def command_topik_text_def dev_system_def)

lemma nul_free_topics [simp]:
  "nul_free ident \<Longrightarrow> nul_free (status_topik_text ident component_input n)"
  "nul_free ident \<Longrightarrow> nul_free (status_topik_text ident component_switch n)"
  "nul_free ident \<Longrightarrow> nul_free (command_topik_text ident component_switch n)"
  by (simp_all add: status_topik_text_def command_topik_text_def dev_system_def component_input_def component_switch_def)

lemma length_config_topik: "length (config_topik_text component ident kind n) =
    29 + length component + length ident + length kind + length (nat_dec n)"
  by (simp add: config_topik_text_def dev_system_def)

lemma u8_digits: "length (nat_dec (unat (n :: u8))) \<le> 3"
  by (rule length_nat_dec_u8) (use unsigned_less [of n, where 'a = nat] in simp)

lemma length_conf_text:
  "length (conf_text cls ident component n command name ip) =
     404 + length cls + 3 * length ident + 3 * length component + 3 * length (nat_dec n) + length command +
     length name + length ip"
proof -
  have "length (nat_dec ha_mqtt_keepalive_sec) = 3" by code_simp
  then show ?thesis by (simp add: conf_text_def dev_system_def)
qed

text \<open>An identifier and an address as the setters leave them.\<close>

definition helpers_wf :: "ha_helpers_state \<Rightarrow> bool" where
  "helpers_wf hs \<longleftrightarrow> length (cstr (hs_dev_identifier hs)) \<le> 30 \<and> length (cstr (hs_conf_ip hs)) \<le> 45"


lemma length_command_part: "length (command_topik_part ident n) \<le> 46 + length ident + length (nat_dec n)"
  by (simp add: command_topik_part_def dev_system_def component_switch_def)

lemma length_numbered: "length (numbered name n) \<le> 1 + length name + length (nat_dec n)"
  by (simp add: numbered_def)

lemma nul_free_conf [simp]:
  "nul_free cls \<Longrightarrow> nul_free ident \<Longrightarrow> nul_free component \<Longrightarrow> nul_free command \<Longrightarrow> nul_free name \<Longrightarrow> nul_free ip \<Longrightarrow>
     nul_free (conf_text cls ident component n command name ip)"
  by (simp add: conf_text_def dev_system_def)

lemma nul_free_names [simp]:
  "nul_free component_input" "nul_free component_switch" "nul_free component_input_name" "nul_free dev_class_switch_name"
  "nul_free (numbered component_input_name n)" "nul_free (numbered dev_class_switch_name n)"
  "nul_free ident \<Longrightarrow> nul_free (command_topik_part ident n)"
  by (simp_all add: component_input_def component_switch_def component_input_name_def dev_class_switch_name_def
      numbered_def command_topik_part_def dev_system_def)

lemma print_payload_fits:
  assumes "nul_free text" and "length text < len"
  shows "print_payload payload len text = (int (length text mod 256), snprintf_into (memset_zero payload len) len text)"
    and "cstr (snprintf_into (memset_zero payload len) len text) = text"
  using assms by (simp_all add: print_payload_def cstr_snprintf_fits)

lemma config_payload_text:
  assumes "helpers_wf hs"
  shows "\<exists>text. get_config_payload_string hs payload 700 OUTPUT_DEVICE n =
      (int (length text mod 256), snprintf_into (memset_zero payload 700) 700 text) \<and> nul_free text \<and>
      404 \<le> length text \<and> length text < 700 \<and>
      text = conf_text component_switch (cstr (hs_dev_identifier hs)) component_switch (unat n)
        (command_topik_part (cstr (hs_dev_identifier hs)) (unat n)) (numbered dev_class_switch_name (unat n)) (cstr (hs_conf_ip hs))"
    and "\<exists>text. get_config_payload_string hs payload 700 INPUT_SENSOR n =
      (int (length text mod 256), snprintf_into (memset_zero payload 700) 700 text) \<and> nul_free text \<and>
      404 \<le> length text \<and> length text < 700 \<and>
      text = conf_text ''power'' (cstr (hs_dev_identifier hs)) component_input (unat n) [NL]
        (numbered component_input_name (unat n)) (cstr (hs_conf_ip hs))"
proof -
  let ?id = "cstr (hs_dev_identifier hs)" and ?n = "unat n"
  have wf: "length ?id \<le> 30" "length (cstr (hs_conf_ip hs)) \<le> 45" using assms by (simp_all add: helpers_wf_def)
  note d = u8_digits [of n]
  have part: "length (command_topik_part ?id ?n) \<le> 79" using length_command_part [of ?id ?n] wf d by simp
  have sw: "length (numbered dev_class_switch_name ?n) \<le> 22"
    using length_numbered [of dev_class_switch_name ?n] d by (simp add: dev_class_switch_name_def)
  have inp: "length (numbered component_input_name ?n) \<le> 12"
    using length_numbered [of component_input_name ?n] d by (simp add: component_input_name_def)
  have t: "take 127 (command_topik_part ?id ?n) = command_topik_part ?id ?n"
    "take 127 (numbered dev_class_switch_name ?n) = numbered dev_class_switch_name ?n"
    "take 127 (numbered component_input_name ?n) = numbered component_input_name ?n"
    using part sw inp by simp_all
  let ?out = "conf_text component_switch ?id component_switch ?n (command_topik_part ?id ?n)
    (numbered dev_class_switch_name ?n) (cstr (hs_conf_ip hs))"
  let ?in = "conf_text ''power'' ?id component_input ?n [NL] (numbered component_input_name ?n) (cstr (hs_conf_ip hs))"
  have "length ?out = 428 + 3 * length ?id + 3 * length (nat_dec ?n) + length (command_topik_part ?id ?n) +
      length (numbered dev_class_switch_name ?n) + length (cstr (hs_conf_ip hs))"
    by (simp add: length_conf_text component_switch_def)
  then have out: "404 \<le> length ?out" "length ?out < 700" using part sw wf d by simp_all
  have "length ?in = 425 + 3 * length ?id + 3 * length (nat_dec ?n) + length (numbered component_input_name ?n) +
      length (cstr (hs_conf_ip hs))"
    by (simp add: length_conf_text component_input_def)
  then have inn: "404 \<le> length ?in" "length ?in < 700" using inp wf d by simp_all
  show "\<exists>text. get_config_payload_string hs payload 700 OUTPUT_DEVICE n =
      (int (length text mod 256), snprintf_into (memset_zero payload 700) 700 text) \<and> nul_free text \<and>
      404 \<le> length text \<and> length text < 700 \<and> text = ?out"
    using out by (intro exI [of _ ?out]) (simp add: get_config_payload_string_def Let_def t print_payload_def)
  show "\<exists>text. get_config_payload_string hs payload 700 INPUT_SENSOR n =
      (int (length text mod 256), snprintf_into (memset_zero payload 700) 700 text) \<and> nul_free text \<and>
      404 \<le> length text \<and> length text < 700 \<and> text = ?in"
    using inn by (intro exI [of _ ?in]) (simp add: get_config_payload_string_def Let_def t print_payload_def)
qed

text \<open>The whole registration of a switch or an input.\<close>

definition registration_text :: "ha_helpers_state \<Rightarrow> mqtt_ha_dev_type_t \<Rightarrow> u8 \<Rightarrow> string" where
  "registration_text hs t n =
     (let ident = cstr (hs_dev_identifier hs); ip = cstr (hs_conf_ip hs) in
      if t = OUTPUT_DEVICE
      then conf_text component_switch ident component_switch (unat n) (command_topik_part ident (unat n))
             (numbered dev_class_switch_name (unat n)) ip
      else conf_text ''power'' ident component_input (unat n) [NL] (numbered component_input_name (unat n)) ip)"

lemma registration_payload:
  assumes "helpers_wf hs" and "t = OUTPUT_DEVICE \<or> t = INPUT_SENSOR"
    and "get_config_payload_string hs payload 700 t n = (rc, out)"
  shows "cstr out = registration_text hs t n" and "rc = int (length (registration_text hs t n) mod 256)"
    and "404 \<le> length (registration_text hs t n)"
  using assms(2,3) config_payload_text [OF assms(1), of payload n]
  by (auto simp: registration_text_def Let_def cstr_snprintf_fits)

lemma registration_topic:
  assumes "helpers_wf hs" and "t = OUTPUT_DEVICE \<or> t = INPUT_SENSOR"
    and "get_config_topik_string hs buf 128 t n = (rc, topic)"
  shows "rc = 0" and "cstr topic = config_topik_text (fst (config_names t)) (cstr (hs_dev_identifier hs)) (snd (config_names t)) (unat n)"
proof -
  let ?t = "config_topik_text (fst (config_names t)) (cstr (hs_dev_identifier hs)) (snd (config_names t)) (unat n)"
  have "length ?t < 128" "nul_free ?t"
    using assms(1,2) u8_digits [of n]
    by (auto simp: length_config_topik helpers_wf_def component_switch_def component_input_def config_topik_text_def dev_system_def)
  then show "rc = 0" and "cstr topic = ?t"
    using assms(3) by (auto simp: get_config_topik_string_def print_topik_def cstr_snprintf_fits split: prod.splits)
qed

lemma own_command_parsed:
  assumes "set_device_id ident hs0 = (0, hs)" and "length (hs_dev_identifier hs0) = MQTT_UNIC_IDENTIFIER_LENGTH"
    and "generate_command_topik_for_subscrabe hs buf mqtt_topik_max_len OUTPUT_DEVICE n = (len, topic)"
    and "cstr payload = state_word on"
  shows "parse_incoming_message payload topic = Some (OUTPUT_DEVICE, n, of_bool on)"
    and "len < int mqtt_topik_max_len"
    and "cstr topic = command_topik_text (hex_text ident) component_switch (unat n)"
proof -
  note hid = set_device_id_ok [OF assms(1,2)]
  let ?t = "command_topik_text (hex_text ident) component_switch (unat n)"
  have len: "length ?t < 128" using hid(2) u8_digits [of n] by (simp add: length_state_texts component_switch_def)
  then have "cstr (snprintf_into buf 128 ?t) = ?t" by (simp add: cstr_snprintf_fits)
  then have topic: "cstr topic = ?t" "len = int (length ?t)"
    using assms(3) by (simp_all add: generate_command_topik_for_subscrabe_def hid(1) mqtt_topik_max_len_def Let_def)
  have "unat n < 10 ^ 7" using unsigned_less [of n, where 'a = nat] by simp
  from parse_command [OF topic(1) hex_text_no_slash this, of payload "state_word on" "[]" "of_bool on"]
  show "parse_incoming_message payload topic = Some (OUTPUT_DEVICE, n, of_bool on)"
    using assms(4) by (simp add: state_word_scan)
  show "len < int mqtt_topik_max_len" "cstr topic = ?t" using topic len by (simp_all add: mqtt_topik_max_len_def)
qed

lemma command_word_parsed:
  assumes "CHR ''/'' \<notin> set ident" and "nul_free ident" and "n < 10 ^ 7"
  shows "parse_incoming_message (if on then ''ON'' else ''OFF'') (command_topik_text ident component_switch n) =
    Some (OUTPUT_DEVICE, of_nat n, if on then 1 else 0)"
proof -
  have "cstr (state_word on) = state_word on" by (simp add: state_word_def cstr_id)
  with assms have "parse_incoming_message (state_word on) (command_topik_text ident component_switch n) =
      Some (OUTPUT_DEVICE, of_nat n, of_bool on)"
    by (intro parse_command [of _ ident _ _ "state_word on" "[]"]) (simp_all only: state_word_scan cstr_id nul_free_topics not_False_eq_True)
  then show ?thesis by (cases on) (simp_all add: state_word_def)
qed

section \<open>Properties\<close>

text \<open>
  The relay number of a command is only checked to have at most seven digits and then
  cut to a byte: a topic for any such number is accepted and acts on the number modulo 256,
  so \<open>switch257\<close> switches relay 1.
\<close>

lemma command_number_modulo:
  assumes "cstr topic = command_topik_text ident component_switch n" and "CHR ''/'' \<notin> set ident" and "n < 10 ^ 7"
    and "cstr payload = (if on then ''ON'' else ''OFF'')"
  shows "parse_incoming_message payload topic = Some (OUTPUT_DEVICE, of_nat (n mod 256), if on then 1 else 0)"
proof -
  have "(of_nat (n mod 256) :: u8) = of_nat n"
    by (simp add: word_of_nat_eq_iff take_bit_eq_mod)
  moreover have "cstr payload = state_word on" using assms(4) by (simp add: state_word_def)
  ultimately show ?thesis
    using parse_command [OF assms(1-3), of payload "state_word on" "[]" "of_bool on"] by (simp add: state_word_scan)
qed

lemma command_number_modulo_witness:
  "parse_incoming_message ''OFF'' ''cedar_A5/switch257/set'' = Some (OUTPUT_DEVICE, 1, 0)"
proof -
  have "cstr ''cedar_A5/switch257/set'' = command_topik_text ''A5'' component_switch 257" by code_simp
  moreover have "cstr ''OFF'' = (if False then ''ON'' else ''OFF'')" by code_simp
  ultimately show ?thesis using command_number_modulo [of "''cedar_A5/switch257/set''" "''A5''" 257 "''OFF''" False] by simp
qed

text \<open>
  The registration of a device with Home Assistant is never cut off: with an identifier
  of at most 30 and an address of at most 45 characters, the topic of a switch or an input
  fits its 128 bytes and the payload its 700, so both arrays hold the whole text. The code
  that \<open>get_config_payload_string\<close> returns, however, is the payload's length modulo 256,
  and never the length itself.
\<close>

lemma registration_fits:
  assumes "helpers_wf hs" and "t = OUTPUT_DEVICE \<or> t = INPUT_SENSOR"
    and "get_config_payload_string hs payload mqtt_payload_max_len t n = (rc, out)"
    and "get_config_topik_string hs buf mqtt_topik_max_len t n = (rc', topic)"
  shows "rc' = 0 \<and> cstr out = registration_text hs t n \<and>
    cstr topic = config_topik_text (fst (config_names t)) (cstr (hs_dev_identifier hs)) (snd (config_names t)) (unat n) \<and>
    rc = int (length (registration_text hs t n) mod 256) \<and> rc \<noteq> int (length (registration_text hs t n))"
  using registration_payload [OF assms(1,2), of payload n rc out] registration_topic [OF assms(1,2), of buf n rc' topic]
    assms(3,4)
  by (auto simp: mqtt_payload_max_len_def mqtt_topik_max_len_def)

lemma registration_fits_witness:
  "cstr (snd (get_config_payload_string ha_helpers_init (zeros 700) mqtt_payload_max_len INPUT_SENSOR 3)) =
     registration_text ha_helpers_init INPUT_SENSOR 3"
proof -
  obtain rc out where p: "get_config_payload_string ha_helpers_init (zeros 700) mqtt_payload_max_len INPUT_SENSOR 3 = (rc, out)"
    by (metis prod.collapse)
  obtain rc' topic where t: "get_config_topik_string ha_helpers_init (zeros 128) mqtt_topik_max_len INPUT_SENSOR 3 = (rc', topic)"
    by (metis prod.collapse)
  have "helpers_wf ha_helpers_init" by (simp add: helpers_wf_def ha_helpers_init_def)
  from registration_fits [OF this _ p t] p show ?thesis by simp
qed


end
