(* ===== verification/Mqtt_Adapter.thy ===== *)
theory Mqtt_Adapter
  imports Mqtt_Helpers Demo_Platform
begin

text \<open>
  \<open>mqtt/ha_mqtt_adapter.c\<close>: message identifiers, the device identifier and address, the
  subscription to the command topics, and the step that hands the oldest message of the
  transmit queue to the MQTT client. The locale \<open>id_allocator\<close> states what a generator of
  message identifiers promises: none is repeated within one round, and 0 is never given out.
\<close>

section \<open>Message identifiers\<close>

definition next_mid_init :: u16 where "next_mid_init = 1"

text \<open>The new value of \<open>next_mid\<close>, which is also the identifier.\<close>

definition alloc_mid :: "u16 \<Rightarrow> u16" where
  "alloc_mid next_mid = (if next_mid + 1 = 0 then 1 else next_mid + 1)"

locale id_allocator =
  fixes alloc :: "'i \<Rightarrow> 'i"
    and rank :: "'i \<Rightarrow> nat"
    and valid :: "'i \<Rightarrow> bool"
    and size :: nat
  assumes size_pos: "0 < size"
    and alloc_valid: "valid i \<Longrightarrow> valid (alloc i)"
    and alloc_rank: "valid i \<Longrightarrow> rank (alloc i) = Suc (rank i) mod size"
begin

lemma alloc_pow_valid: "valid i \<Longrightarrow> valid ((alloc ^^ k) i)"
  by (induction k) (simp_all add: alloc_valid)

lemma alloc_pow_rank: "valid i \<Longrightarrow> rank ((alloc ^^ k) i) mod size = (rank i + k) mod size"
proof (induction k)
  case (Suc k)
  then have "rank (alloc ((alloc ^^ k) i)) = Suc (rank ((alloc ^^ k) i)) mod size"
    using alloc_valid alloc_pow_valid alloc_rank by simp
  with Suc show ?case by (simp add: mod_Suc_eq [of "rank ((alloc ^^ k) i)"]) (metis mod_Suc_eq)
qed simp

text \<open>Within one round no identifier comes back.\<close>

lemma no_repeat:
  assumes "valid i" and "k < l" and "l - k < size"
  shows "(alloc ^^ k) i \<noteq> (alloc ^^ l) i"
proof
  assume "(alloc ^^ k) i = (alloc ^^ l) i"
  then have "(rank i + k) mod size = (rank i + l) mod size"
    using alloc_pow_rank [OF assms(1)] by metis
  then have "(l - k) mod size = 0"
    using assms(2) mod_eq_dvd_iff_nat [of "rank i + k" "rank i + l" size] by (simp add: dvd_eq_mod_eq_0)
  with assms(2,3) show False by simp
qed

end

lemma alloc_mid_unat: "m \<noteq> 0 \<Longrightarrow> unat (alloc_mid m) - 1 = unat m mod 65535"
proof -
  assume m: "m \<noteq> 0"
  then have pos: "0 < unat m" by (simp add: unat_gt_0)
  have lt: "unat m < 65536" using unsigned_less [of m, where 'a = nat] by simp
  show ?thesis
  proof (cases "m + 1 = 0")
    case True
    then have "m = - 1" by (simp add: eq_neg_iff_add_eq_0)
    then have "unat m = 65535" by (simp add: unsigned_minus_1_eq_mask mask_eq_exp_minus_1)
    with True show ?thesis by (simp add: alloc_mid_def)
  next
    case False
    then have "unat (m + 1) \<noteq> 0" by (simp add: unat_eq_zero)
    moreover have e: "unat (m + 1) = (unat m + 1) mod 65536" by (simp add: unat_word_ariths)
    ultimately have "unat m + 1 \<noteq> 65536" by (metis mod_self)
    with lt have "unat m < 65535" by simp
    with e False show ?thesis by (simp add: alloc_mid_def)
  qed
qed

lemma alloc_mid_nonzero: "alloc_mid m \<noteq> 0"
  by (simp add: alloc_mid_def)

interpretation mids: id_allocator alloc_mid "\<lambda>m. unat m - 1" "\<lambda>m. m \<noteq> 0" 65535
proof
  fix m :: u16 assume m: "m \<noteq> 0"
  then have "Suc (unat m - 1) = unat m" by (simp add: unat_gt_0)
  with m show "unat (alloc_mid m) - 1 = Suc (unat m - 1) mod 65535" using alloc_mid_unat [OF m] by simp
qed (simp_all add: alloc_mid_nonzero)

section \<open>Identifier and address\<close>

definition ha_mqtt_set_unic_id :: "'w kernel_api \<Rightarrow> 'w \<Rightarrow> ha_helpers_state \<Rightarrow> int \<times> ha_helpers_state" where
  "ha_mqtt_set_unic_id kn w hs =
     (let (n, ident) = hwinfo_get_device_id kn w 32
      in if n < 0 then (n, hs) else (0, snd (set_device_id (take (nat n) (overlay ident (zeros 32))) hs)))"

definition get_default_iface_ip_str :: "'w kernel_api \<Rightarrow> 'w \<Rightarrow> nat \<Rightarrow> int \<times> string" where
  "get_default_iface_ip_str kn w out_len =
     (if \<not> net_if_get_default kn w then (- ENODEV, [])
      else (case net_if_ipv4_get_global_addr kn w of
              None \<Rightarrow> (- EAGAIN, [])
            | Some v4 \<Rightarrow> (case net_addr_ntop kn v4 out_len of None \<Rightarrow> (- EINVAL, []) | Some s \<Rightarrow> (0, s))))"

definition ha_mqtt_set_dev_ip :: "'w kernel_api \<Rightarrow> 'w \<Rightarrow> ha_helpers_state \<Rightarrow> int \<times> ha_helpers_state" where
  "ha_mqtt_set_dev_ip kn w hs =
     (let (rc, ip_str) = get_default_iface_ip_str kn w INET6_ADDRSTRLEN
      in if rc < 0 then (rc, hs)
         else let (rc, hs') = set_device_conf_ip kn ip_str hs in if rc < 0 then (rc, hs') else (0, hs'))"

definition ha_mqtt_init :: "'w kernel_api \<Rightarrow> 'w \<Rightarrow> ha_helpers_state \<Rightarrow> int \<times> ha_helpers_state" where
  "ha_mqtt_init kn w hs =
     (let (rc, hs1) = ha_mqtt_set_unic_id kn w hs
      in if rc < 0 then (rc, hs1)
         else let (rc, hs2) = ha_mqtt_set_dev_ip kn w hs1 in if rc < 0 then (rc, hs2) else (0, hs2))"

section \<open>Subscribing\<close>

fun subscribe_loop :: "ha_helpers_state \<Rightarrow> nat \<Rightarrow> nat \<Rightarrow> int \<times> mqtt_topic list" where
  "subscribe_loop hs i 0 = (0, [])"
| "subscribe_loop hs i (Suc k) =
     (let (rc, topic) = generate_command_topik_for_subscrabe hs (zeros mqtt_topik_max_len) mqtt_topik_max_len
                          OUTPUT_DEVICE (of_nat (i + 1))
      in if rc < 0 then (rc, [])
         else let (rc', ts) = subscribe_loop hs (Suc i) k
              in (rc', \<lparr>mt_utf8 = cstr topic, mt_qos = MQTT_QOS_2_EXACTLY_ONCE\<rparr> # ts))"

definition ha_mqtt_subscribe_topiks ::
  "'w mqtt_api \<Rightarrow> 'w kernel_api \<Rightarrow> ha_helpers_state \<Rightarrow> 'w \<Rightarrow> int \<times> 'w" where
  "ha_mqtt_subscribe_topiks mc kn hs w =
     (let (rc, topics) = subscribe_loop hs 0 device_relay_count
      in if rc < 0 then (rc, w)
         else let (r, w1) = sys_rand16_get kn w
              in mqtt_subscribe mc w1 topics (if r \<noteq> 0 then r else 1))"

definition ha_mqtt_get_device_id :: "ha_helpers_state \<Rightarrow> string option" where
  "ha_mqtt_get_device_id hs = get_device_id hs"

section \<open>Sending\<close>

text \<open>The parameters of the publication, from the message at the front of the queue.\<close>

definition publish_param_of :: "mqtt_msg_t \<Rightarrow> u16 \<Rightarrow> mqtt_publish_param" where
  "publish_param_of m mid =
     \<lparr>pp_topic = cstr (mm_topic m), pp_qos = mm_qos m, pp_payload = cstr (mm_payload m),
      pp_message_id = mid, pp_dup_flag = False, pp_retain_flag = mm_retain m\<rparr>"

definition needs_mid :: "mqtt_msg_t \<Rightarrow> bool" where
  "needs_mid m \<longleftrightarrow> mm_qos m = MQTT_QOS_1_AT_LEAST_ONCE \<or> mm_qos m = MQTT_QOS_2_EXACTLY_ONCE"

text \<open>The state is \<open>next_mid\<close> and the world.\<close>

definition ha_send_data_from_q_to_mqtt ::
  "'w mqtt_api \<Rightarrow> 'w msgq_api \<Rightarrow> u16 \<times> 'w \<Rightarrow> int \<times> (u16 \<times> 'w)" where
  "ha_send_data_from_q_to_mqtt mc mq s =
     (let (next_mid, w) = s; (rc, peek_msg) = tx_peek mq w in
      if rc \<noteq> 0 then (- ENODATA, s)
      else let next_mid' = (if needs_mid peek_msg then alloc_mid next_mid else next_mid);
               pub_param = publish_param_of peek_msg (if needs_mid peek_msg then next_mid' else 0)
      in if length (pp_topic pub_param) = 0 then (- EINVAL, (next_mid', snd (snd (tx_get mq w))))
      else let (rc, w1) = mqtt_publish mc w pub_param
      in if rc \<noteq> 0 then (rc, (next_mid', w1)) else (0, (next_mid', snd (snd (tx_get mq w1)))))"

definition ha_mqtt_send_inputs_state :: int where
  "ha_mqtt_send_inputs_state = 0"

section \<open>What a call of the sender does\<close>

text \<open>What a message is on the wire, apart from its identifier.\<close>

definition wire :: "mqtt_msg_t \<Rightarrow> byte list \<times> byte list \<times> u8 \<times> bool" where
  "wire m = (cstr (mm_topic m), cstr (mm_payload m), mm_qos m, mm_retain m)"

definition wire_of :: "mqtt_publish_param \<Rightarrow> byte list \<times> byte list \<times> u8 \<times> bool" where
  "wire_of p = (pp_topic p, pp_payload p, pp_qos p, pp_retain_flag p)"

definition has_topic :: "mqtt_msg_t \<Rightarrow> bool" where
  "has_topic m \<longleftrightarrow> cstr (mm_topic m) \<noteq> []"

text \<open>What was sent followed by what is still to be sent.\<close>

definition outgoing ::
  "'w msgq_view \<Rightarrow> ('w \<Rightarrow> mqtt_publish_param list) \<Rightarrow> 'w \<Rightarrow> (byte list \<times> byte list \<times> u8 \<times> bool) list" where
  "outgoing v sent w = map wire_of (sent w) @ map wire (filter has_topic (mv_tx v w))"

lemma wire_publish_param [simp]: "wire_of (publish_param_of m mid) = wire m"
  by (simp add: wire_of_def wire_def publish_param_of_def)

lemma send_empty:
  assumes "msgq_tx_lawful mq v" and "mv_tx v w = []"
  shows "ha_send_data_from_q_to_mqtt mc mq (mid, w) = (- ENODATA, (mid, w))"
  using tx_peek_law(1) [OF assms] by (cases "tx_peek mq w") (simp add: ha_send_data_from_q_to_mqtt_def)

lemma send_step:
  assumes laws: "msgq_tx_lawful mq v" "publish_lawful mc v sent" "tx_get_sends_nothing mq sent"
    and s: "ha_send_data_from_q_to_mqtt mc mq (mid, w) = (rc, (mid', w'))" and m: "mv_tx v w = m # ms"
  shows "outgoing v sent w' = outgoing v sent w"
    and "mv_tx v w' = (if rc = 0 \<or> \<not> has_topic m then ms else m # ms)"
    and "has_topic m \<Longrightarrow> (\<forall>w p. fst (mqtt_publish mc w p) = 0) \<Longrightarrow> rc = 0"
proof -
  have peek: "tx_peek mq w = (0, m)" by (rule tx_peek_law(2) [OF laws(1) m])
  let ?i = "if needs_mid m then alloc_mid mid else mid"
  let ?p = "publish_param_of m (if needs_mid m then ?i else 0)"
  have get: "sent (snd (snd (tx_get mq x))) = sent x" for x
    using laws(3) by (simp add: tx_get_sends_nothing_def)
  note tx = tx_get_law [OF laws(1)]
  obtain rc1 w1 where p: "mqtt_publish mc w ?p = (rc1, w1)" by (metis prod.collapse)
  have pl: "mv_tx v w1 = mv_tx v w" "sent w1 = (if rc1 = 0 then sent w @ [?p] else sent w)"
    using laws(2) p unfolding publish_lawful_def by blast+
  have topic: "length (pp_topic ?p) = 0 \<longleftrightarrow> \<not> has_topic m" by (simp add: publish_param_of_def has_topic_def)
  show "outgoing v sent w' = outgoing v sent w"
    and "mv_tx v w' = (if rc = 0 \<or> \<not> has_topic m then ms else m # ms)"
    and "has_topic m \<Longrightarrow> (\<forall>w p. fst (mqtt_publish mc w p) = 0) \<Longrightarrow> rc = 0"
    using s peek p topic pl m
    by (auto simp: ha_send_data_from_q_to_mqtt_def outgoing_def get tx Let_def split: if_splits)
      (metis fst_conv)+
qed

definition send_times :: "'w mqtt_api \<Rightarrow> 'w msgq_api \<Rightarrow> nat \<Rightarrow> u16 \<times> 'w \<Rightarrow> u16 \<times> 'w" where
  "send_times mc mq k = (\<lambda>s. snd (ha_send_data_from_q_to_mqtt mc mq s)) ^^ k"

lemma send_times_Suc: "send_times mc mq (Suc k) s = send_times mc mq k (snd (ha_send_data_from_q_to_mqtt mc mq s))"
  unfolding send_times_def funpow_Suc_right comp_def by (rule refl)

lemma send_times_0 [simp]: "send_times mc mq 0 s = s"
  by (simp add: send_times_def)

lemma send_times_outgoing:
  assumes laws: "msgq_tx_lawful mq v" "publish_lawful mc v sent" "tx_get_sends_nothing mq sent"
  shows "outgoing v sent (snd (send_times mc mq k (mid, w))) = outgoing v sent w"
proof (induction k arbitrary: mid w)
  case (Suc k)
  obtain rc mid' w' where s: "ha_send_data_from_q_to_mqtt mc mq (mid, w) = (rc, (mid', w'))" by (metis prod.collapse)
  show ?case
  proof (cases "mv_tx v w")
    case Nil
    with send_empty [OF laws(1), of w mc mid] Suc show ?thesis by (simp add: send_times_Suc)
  next
    case (Cons m ms)
    with send_step(1) [OF laws s] Suc s show ?thesis by (simp add: send_times_Suc)
  qed
qed simp

lemma send_times_drains:
  assumes laws: "msgq_tx_lawful mq v" "publish_lawful mc v sent" "tx_get_sends_nothing mq sent"
    and "\<forall>w p. fst (mqtt_publish mc w p) = 0"
  shows "length (mv_tx v w) \<le> k \<Longrightarrow> mv_tx v (snd (send_times mc mq k (mid, w))) = []"
proof (induction k arbitrary: mid w)
  case (Suc k)
  obtain rc mid' w' where s: "ha_send_data_from_q_to_mqtt mc mq (mid, w) = (rc, (mid', w'))" by (metis prod.collapse)
  show ?case
  proof (cases "mv_tx v w")
    case Nil
    with send_empty [OF laws(1), of w mc mid] Suc show ?thesis by (simp add: send_times_Suc)
  next
    case (Cons m ms)
    with send_step(2,3) [OF laws s Cons] assms(4) have "mv_tx v w' = ms" by auto
    with Suc Cons s show ?thesis by (simp add: send_times_Suc)
  qed
qed simp

section \<open>The subscription\<close>

lemma of_nat_u8: "n < 256 \<Longrightarrow> unat (of_nat n :: u8) = n"
  by (simp add: unat_of_nat)

lemma subscribe_loop_topics:
  assumes "cstr (hs_dev_identifier hs) = hex_text ident" and "length ident \<le> 15" and "i + k < 256"
  shows "subscribe_loop hs i k = (0, map (\<lambda>n. \<lparr>mt_utf8 = command_topik_text (hex_text ident) component_switch n,
      mt_qos = MQTT_QOS_2_EXACTLY_ONCE\<rparr>) [Suc i..<Suc (i + k)])"
  using assms(3)
proof (induction k arbitrary: i)
  case (Suc k)
  let ?t = "command_topik_text (hex_text ident) component_switch (Suc i)"
  have u: "unat (of_nat (i + 1) :: u8) = Suc i" using Suc.prems by (simp add: of_nat_u8 del: of_nat_add of_nat_Suc)
  have "length (nat_dec (Suc i)) \<le> 3" using Suc.prems by (intro length_nat_dec_u8) simp
  then have "length ?t < 128" using assms(2) by (simp add: length_state_texts component_switch_def)
  then have "generate_command_topik_for_subscrabe hs (zeros mqtt_topik_max_len) mqtt_topik_max_len OUTPUT_DEVICE (of_nat (i + 1)) =
      (int (length ?t), snprintf_into (zeros mqtt_topik_max_len) 128 ?t)" and "cstr (snprintf_into buf 128 ?t) = ?t" for buf
    unfolding generate_command_topik_for_subscrabe_def u assms(1)
    by (simp_all add: Let_def mqtt_topik_max_len_def cstr_snprintf_fits)
  then show ?case using Suc.IH [of "Suc i"] Suc.prems by (simp add: upt_conv_Cons del: upt_Suc)
qed simp

lemma upt_relays: "[Suc 0..<Suc device_relay_count] = [1, 2, 3]"
  by (simp add: device_relay_count_def numeral_3_eq_3 numeral_2_eq_2)

section \<open>The identifier after an initialisation\<close>

text \<open>The hardware has one identifier, which fits.\<close>

definition hw_ident :: "'w kernel_api \<Rightarrow> byte list \<Rightarrow> bool" where
  "hw_ident kn ident \<longleftrightarrow> ident \<noteq> [] \<and> length ident \<le> 15 \<and>
     (\<forall>w. hwinfo_get_device_id kn w 32 = (int (length ident), ident))"

definition helpers_inv :: "ha_helpers_state \<Rightarrow> bool" where
  "helpers_inv hs \<longleftrightarrow> length (hs_dev_identifier hs) = MQTT_UNIC_IDENTIFIER_LENGTH \<and> length (cstr (hs_conf_ip hs)) \<le> 45"

lemma cstr_snprintf_le: "0 < sz \<Longrightarrow> length (cstr (snprintf_into buf sz s)) \<le> sz - 1"
proof -
  assume "0 < sz"
  then obtain rest where "snprintf_into buf sz s = take (sz - 1) s @ NUL # rest"
    by (simp add: snprintf_into_def Let_def)
  moreover have "length (cstr (t @ NUL # rest)) \<le> length t" for t by (induction t) (auto simp: cstr_Cons)
  ultimately show ?thesis by (metis length_take min.coboundedI2 min.commute order_trans min.cobounded2)
qed

lemma ha_mqtt_init_inv:
  assumes hw: "hw_ident kn ident" and inv: "helpers_inv hs" and i: "ha_mqtt_init kn w hs = (rc, hs')"
  shows "helpers_inv hs'" and "helpers_wf hs'" and "cstr (hs_dev_identifier hs') = hex_text ident"
proof -
  have len: "length (hs_dev_identifier hs) = MQTT_UNIC_IDENTIFIER_LENGTH" using inv by (simp add: helpers_inv_def)
  have id: "take (nat (int (length ident))) (overlay ident (zeros 32)) = ident" by (simp add: overlay_def)
  obtain hs1 where s: "set_device_id ident hs = (0, hs1)"
    using hw by (auto simp: set_device_id_def hw_ident_def MQTT_UNIC_IDENTIFIER_LENGTH_def)
  note ok = set_device_id_ok [OF s len]
  have u: "ha_mqtt_set_unic_id kn w hs = (0, hs1)"
    using hw s id by (simp add: ha_mqtt_set_unic_id_def hw_ident_def)
  have "hs_dev_identifier hs' = hs_dev_identifier hs1 \<and>
      (hs_conf_ip hs' = hs_conf_ip hs1 \<or> (\<exists>t. hs_conf_ip hs' = snprintf_into (hs_conf_ip hs1) 46 t))"
    using i unfolding ha_mqtt_init_def u
    by (auto simp: ha_mqtt_set_dev_ip_def set_device_conf_ip_def INET6_ADDRSTRLEN_def Let_def split: if_splits prod.splits)
  moreover have "length (cstr (hs_conf_ip hs1)) \<le> 45" using ok(3) inv by (simp add: helpers_inv_def)
  ultimately show "helpers_inv hs'" and "helpers_wf hs'" and "cstr (hs_dev_identifier hs') = hex_text ident"
    using ok(1,2,4) cstr_snprintf_le [of 46 "hs_conf_ip hs1"] by (auto simp: helpers_inv_def helpers_wf_def)
qed

section \<open>Properties\<close>

text \<open>
  C12. The sender refines a queue towards the broker: however often it is called and
  whatever the client's publish calls return, what was sent followed by what still waits is
  the same sequence of messages (those without a topic left out), so nothing is lost,
  duplicated or reordered; and when the client accepts every message, as many calls as
  there were messages empty the queue.
\<close>

theorem queue_sent_in_order:
  assumes "msgq_tx_lawful mq v" and "publish_lawful mc v sent" and "tx_get_sends_nothing mq sent"
    and "send_times mc mq k (mid, w) = (mid', w')"
  shows "map wire_of (sent w') @ map wire (filter has_topic (mv_tx v w')) =
      map wire_of (sent w) @ map wire (filter has_topic (mv_tx v w)) \<and>
    ((\<forall>w p. fst (mqtt_publish mc w p) = 0) \<longrightarrow> length (mv_tx v w) \<le> k \<longrightarrow> mv_tx v w' = [])"
  using send_times_outgoing [OF assms(1-3), of k mid w] send_times_drains [OF assms(1-3), of w k mid] assms(4)
  by (simp add: outgoing_def)

theorem queue_sent_in_order_witness:
  "map wire_of (dw_published (snd (send_times demo_mqtt demo_msgq 2
      (1, demo_init\<lparr>dw_tx := [\<lparr>mm_topic = ''a'', mm_payload = ''x'', mm_qos = 1, mm_retain = False\<rparr>,
                             \<lparr>mm_topic = ''b'', mm_payload = ''y'', mm_qos = 0, mm_retain = True\<rparr>]\<rparr>)))) =
    [(''a'', ''x'', 1, False), (''b'', ''y'', 0, True)]"
proof -
  let ?w = "demo_init\<lparr>dw_tx := [\<lparr>mm_topic = ''a'', mm_payload = ''x'', mm_qos = 1, mm_retain = False\<rparr>,
                             \<lparr>mm_topic = ''b'', mm_payload = ''y'', mm_qos = 0, mm_retain = True\<rparr>]\<rparr>"
  obtain mid' w' where s: "send_times demo_mqtt demo_msgq 2 (1, ?w) = (mid', w')" by fastforce
  have "\<forall>w p. fst (mqtt_publish demo_mqtt w p) = 0" by (simp add: demo_mqtt_def)
  with queue_sent_in_order [OF demo_msgq_tx_lawful demo_publish_lawful demo_tx_get_sends_nothing s]
  have "dw_tx w' = []" "map wire_of (dw_published w') = map wire (filter has_topic (dw_tx ?w))"
    by (auto simp: demo_init_def has_topic_def cstr_Cons)
  with s show ?thesis by (simp add: wire_def has_topic_def cstr_Cons)
qed

text \<open>
  C29. Message identifiers are fresh: 0 is never given out, and any two of 65535 allocations
  in a row, from any start, give different identifiers.
\<close>

theorem message_ids_fresh:
  assumes "next_mid \<noteq> 0" and "k < l" and "l \<le> k + 65534"
  shows "(alloc_mid ^^ Suc k) next_mid \<noteq> 0 \<and> (alloc_mid ^^ Suc k) next_mid \<noteq> (alloc_mid ^^ Suc l) next_mid"
  using mids.no_repeat [OF assms(1), of "Suc k" "Suc l"] assms(2,3) by (simp add: alloc_mid_nonzero)

theorem message_ids_fresh_witness:
  "alloc_mid next_mid_init \<noteq> 0 \<and> alloc_mid next_mid_init \<noteq> alloc_mid (alloc_mid next_mid_init)"
  using message_ids_fresh [of next_mid_init 0 1] by (simp add: next_mid_init_def)

text \<open>
  The device subscribes to the commands it understands: once a hardware identifier has
  been accepted, the subscription names three different topics, one per relay, all with
  QoS 2 and a message identifier other than 0, and a message \<open>ON\<close> or \<open>OFF\<close> on the
  \<open>i\<close>-th of them is parsed to relay \<open>i\<close> and this state.
\<close>

lemma subscribes_own_commands:
  assumes "set_device_id ident ha_helpers_init = (0, hs)"
  shows "\<exists>topics mid w1. ha_mqtt_subscribe_topiks mc kn hs w = mqtt_subscribe mc w1 topics mid \<and> mid \<noteq> 0 \<and>
    length topics = 3 \<and> distinct (map mt_utf8 topics) \<and> (\<forall>t \<in> set topics. mt_qos t = MQTT_QOS_2_EXACTLY_ONCE) \<and>
    (\<forall>i < 3. \<forall>on. parse_incoming_message (if on then ''ON'' else ''OFF'') (mt_utf8 (topics ! i)) =
      Some (OUTPUT_DEVICE, of_nat (Suc i), if on then 1 else 0))"
proof -
  let ?t = "\<lambda>n. \<lparr>mt_utf8 = command_topik_text (hex_text ident) component_switch n, mt_qos = MQTT_QOS_2_EXACTLY_ONCE\<rparr>"
  obtain r w1 where r: "sys_rand16_get kn w = (r, w1)" by (metis prod.collapse)
  have "subscribe_loop hs 0 device_relay_count = (0, map ?t [1, 2, 3])"
    using subscribe_loop_topics [of hs ident 0 device_relay_count] set_device_id_ok [OF assms] upt_relays
    by (simp add: ha_helpers_init_def device_relay_count_def)
  then have sub: "ha_mqtt_subscribe_topiks mc kn hs w = mqtt_subscribe mc w1 (map ?t [1, 2, 3]) (if r \<noteq> 0 then r else 1)"
    using r by (simp add: ha_mqtt_subscribe_topiks_def)
  have dist: "distinct (map mt_utf8 (map ?t [1, 2, 3]))"
    using command_topics.print_distinct [of "[1, 2, 3]" ident] by (simp add: comp_def)
  have parse: "parse_incoming_message (if on then ''ON'' else ''OFF'') (mt_utf8 (map ?t [1, 2, 3] ! i)) =
      Some (OUTPUT_DEVICE, of_nat (Suc i), if on then 1 else 0)" if "i < 3" for i on
  proof -
    have "map ?t [1, 2, 3] ! i = ?t (Suc i)" using that by (auto simp: less_Suc_eq numeral_3_eq_3 numeral_2_eq_2)
    then show ?thesis
      using command_word_parsed [of "hex_text ident" "Suc i" on] that hex_text_no_slash by simp
  qed
  show ?thesis
    by (rule exI [of _ "map ?t [1, 2, 3]"], rule exI [of _ "if r \<noteq> 0 then r else 1"], rule exI [of _ w1])
      (use sub dist parse in simp)
qed

lemma subscribes_own_commands_witness:
  "\<exists>topics mid w1. ha_mqtt_subscribe_topiks demo_mqtt demo_kernel (snd (set_device_id [CHR 0xA5] ha_helpers_init)) demo_init =
     mqtt_subscribe demo_mqtt w1 topics mid \<and> mid \<noteq> 0 \<and> length topics = 3"
proof -
  obtain hs where h: "set_device_id [CHR 0xA5] ha_helpers_init = (0, hs)"
    by (simp add: set_device_id_def MQTT_UNIC_IDENTIFIER_LENGTH_def)
  from subscribes_own_commands [OF h, of demo_mqtt demo_kernel demo_init] h show ?thesis by auto
qed

end
