(* ===== verification/Mqtt_Callback.thy ===== *)
theory Mqtt_Callback
  imports Mqtt_Adapter
begin

text \<open>
  \<open>mqtt/ha_mqtt_callback.c\<close>: what the MQTT client's events do. The state is the static
  \<open>mqtt_conn_stat\<close> and the world; an event carries the members of \<open>struct mqtt_evt\<close> the
  handler reads. The two loops that read a message's payload are \<open>function\<close>s whose
  termination rests on the code's own conditions, since a read of 0 bytes ends them.
\<close>

section \<open>Events\<close>

record mqtt_publish_evt =
  pe_topic :: "byte list"
  pe_qos :: u8
  pe_retain :: bool
  pe_payload_len :: nat
  pe_message_id :: u16

datatype mqtt_evt =
  MQTT_EVT_CONNACK int | MQTT_EVT_DISCONNECT int | MQTT_EVT_PUBACK int u16 | MQTT_EVT_PUBLISH mqtt_publish_evt
| MQTT_EVT_PUBREC int u16 | MQTT_EVT_PUBREL u16 | MQTT_EVT_PUBCOMP int u16 | MQTT_EVT_PINGRESP | MQTT_EVT_OTHER

definition mqtt_conn_stat_init :: mqtt_status_msg_t where
  "mqtt_conn_stat_init = \<lparr>mq_seq = 0, mq_enabled = True, mq_connected = False\<rparr>"

section \<open>Reading a payload\<close>

text \<open>The room for the payload, apart from the terminator.\<close>

definition payload_room :: nat where "payload_room = mqtt_payload_max_len - 1"

function read_payload_loop ::
  "'w mqtt_api \<Rightarrow> nat \<Rightarrow> buffer \<Rightarrow> nat \<Rightarrow> 'w \<Rightarrow> buffer \<times> nat \<times> 'w" where
  "read_payload_loop mc to_read buf got w =
     (if got < to_read \<and> got < payload_room then
        let (n, bs, w') = mqtt_read_publish_payload mc w (payload_room - got)
        in if n \<le> 0 then (buf, got, w') else read_payload_loop mc to_read (memcpy_at buf got bs) (got + nat n) w'
      else (buf, got, w))"
  by pat_completeness auto
termination by (relation "measure (\<lambda>(mc, to_read, buf, got, w). to_read - got)") auto

declare read_payload_loop.simps [simp del]

text \<open>The client never delivers more than it is asked for, so \<open>remain\<close> does not wrap.\<close>

function drain_loop :: "'w mqtt_api \<Rightarrow> nat \<Rightarrow> 'w \<Rightarrow> 'w" where
  "drain_loop mc remain w =
     (if 0 < remain then
        let (n, _, w') = mqtt_read_publish_payload mc w (min 128 remain)
        in if n \<le> 0 then w' else drain_loop mc (remain - nat n) w'
      else w)"
  by pat_completeness auto
termination by (relation "measure (\<lambda>(mc, remain, w). remain)") auto

declare drain_loop.simps [simp del]

definition receive_payload :: "'w mqtt_api \<Rightarrow> nat \<Rightarrow> 'w \<Rightarrow> buffer \<times> 'w" where
  "receive_payload mc to_read w =
     (let payload = zeros mqtt_payload_max_len in
      if to_read = 0 then (payload[0 := NUL], w)
      else let (payload1, got, w1) = read_payload_loop mc to_read payload 0 w;
               payload2 = payload1[got := NUL]
           in (payload2, if got < to_read then drain_loop mc (to_read - got) w1 else w1))"

section \<open>The handler\<close>

definition topic_array :: "byte list \<Rightarrow> buffer" where
  "topic_array utf8 =
     (let tn = min (length utf8) (mqtt_topik_max_len - 1)
      in (memcpy_at (zeros mqtt_topik_max_len) 0 (take tn utf8))[tn := NUL])"

definition evt_publish :: "'w mqtt_api \<Rightarrow> 'w msgq_api \<Rightarrow> mqtt_publish_evt \<Rightarrow> 'w \<Rightarrow> 'w" where
  "evt_publish mc mq pe w =
     (let (payload, w1) = receive_payload mc (pe_payload_len pe) w;
          m = \<lparr>mm_topic = topic_array (pe_topic pe), mm_payload = payload, mm_qos = pe_qos pe, mm_retain = pe_retain pe\<rparr>;
          (rc, w2) = rx_put mq w1 m
      in if mm_qos m = MQTT_QOS_1_AT_LEAST_ONCE then snd (mqtt_reply_send mc w2 (Puback (pe_message_id pe)))
         else if mm_qos m = MQTT_QOS_2_EXACTLY_ONCE then snd (mqtt_reply_send mc w2 (Pubrec (pe_message_id pe)))
         else w2)"

definition evt_pubrec :: "'w mqtt_api \<Rightarrow> int \<Rightarrow> u16 \<Rightarrow> 'w \<Rightarrow> 'w" where
  "evt_pubrec mc result i w = (if result \<noteq> 0 then w else snd (mqtt_reply_send mc w (Pubrel i)))"

definition evt_pubrel :: "'w mqtt_api \<Rightarrow> u16 \<Rightarrow> 'w \<Rightarrow> 'w" where
  "evt_pubrel mc i w = snd (mqtt_reply_send mc w (Pubcomp i))"

definition mqtt_evt_handler ::
  "'w mqtt_api \<Rightarrow> 'w msgq_api \<Rightarrow> 'w zbus_api \<Rightarrow> 'w kernel_api \<Rightarrow> mqtt_evt \<Rightarrow> mqtt_status_msg_t \<times> 'w
     \<Rightarrow> mqtt_status_msg_t \<times> 'w" where
  "mqtt_evt_handler mc mq zb kn evt s =
     (let (st, w) = s in
      case evt of
        MQTT_EVT_CONNACK result \<Rightarrow>
          if result \<noteq> 0 then (st, w)
          else let st' = st\<lparr>mq_connected := True, mq_seq := k_uptime_get kn w\<rparr> in (st', snd (zbus_pub_mqtt zb w st'))
      | MQTT_EVT_DISCONNECT result \<Rightarrow>
          let st' = st\<lparr>mq_connected := False, mq_seq := k_uptime_get kn w\<rparr> in (st', snd (zbus_pub_mqtt zb w st'))
      | MQTT_EVT_PUBACK result i \<Rightarrow> (st, w)
      | MQTT_EVT_PUBLISH pe \<Rightarrow> (st, evt_publish mc mq pe w)
      | MQTT_EVT_PUBREC result i \<Rightarrow> (st, evt_pubrec mc result i w)
      | MQTT_EVT_PUBREL i \<Rightarrow> (st, evt_pubrel mc i w)
      | MQTT_EVT_PUBCOMP result i \<Rightarrow> (st, w)
      | MQTT_EVT_PINGRESP \<Rightarrow> (st, w)
      | MQTT_EVT_OTHER \<Rightarrow> (st, w))"

section \<open>Lemmas on reading\<close>

text \<open>Reads do not touch the queues.\<close>

definition reads_keep_queues :: "'w mqtt_api \<Rightarrow> 'w msgq_view \<Rightarrow> bool" where
  "reads_keep_queues mc v \<longleftrightarrow>
     (\<forall>w n. let w' = snd (snd (mqtt_read_publish_payload mc w n))
            in mv_tx v w' = mv_tx v w \<and> mv_rx v w' = mv_rx v w \<and> mv_put v w' = mv_put v w)"

text \<open>More generally, what of the world reads leave alone.\<close>

definition reads_keep :: "'w mqtt_api \<Rightarrow> ('w \<Rightarrow> 'g) \<Rightarrow> bool" where
  "reads_keep mc g \<longleftrightarrow> (\<forall>w n. g (snd (snd (mqtt_read_publish_payload mc w n))) = g w)"

lemma reads_keep_rx: "reads_keep_queues mc v \<Longrightarrow> reads_keep mc (mv_rx v)"
  by (simp add: reads_keep_queues_def reads_keep_def Let_def)

text \<open>
  The reads do not wait: one that comes before its bytes have arrived fails. The payload has
  arrived when no read from here on fails while there is something left.
\<close>

definition read_step :: "'w mqtt_api \<Rightarrow> 'w \<Rightarrow> 'w \<Rightarrow> bool" where
  "read_step mc w w' \<longleftrightarrow> (\<exists>n. w' = snd (snd (mqtt_read_publish_payload mc w n)))"

definition payload_arrived :: "'w mqtt_api \<Rightarrow> ('w \<Rightarrow> byte list) \<Rightarrow> 'w \<Rightarrow> bool" where
  "payload_arrived mc rest w \<longleftrightarrow>
     (\<forall>w1 n. (read_step mc)\<^sup>*\<^sup>* w w1 \<longrightarrow> rest w1 \<noteq> [] \<longrightarrow> 0 \<le> fst (mqtt_read_publish_payload mc w1 n))"

lemma read_law:
  assumes "payload_lawful mc rest" and "mqtt_read_publish_payload mc w n = (rc, bs, w')"
  shows "0 \<le> rc \<Longrightarrow> rc = int (length bs)" and "0 \<le> rc \<Longrightarrow> length bs \<le> n" and "0 \<le> rc \<Longrightarrow> rest w = bs @ rest w'"
    and "0 \<le> rc \<Longrightarrow> rest w \<noteq> [] \<Longrightarrow> 0 < n \<Longrightarrow> bs \<noteq> []" and "rc < 0 \<Longrightarrow> bs = []"
proof -
  have *: "if rc < 0 then bs = [] \<and> rest w' = rest w
      else rc = int (length bs) \<and> length bs \<le> n \<and> rest w = bs @ rest w' \<and> (rest w \<noteq> [] \<longrightarrow> 0 < n \<longrightarrow> bs \<noteq> [])"
    using assms unfolding payload_lawful_def by blast
  show "rc < 0 \<Longrightarrow> bs = []" using * by simp
  assume "0 \<le> rc"
  then have "\<not> rc < 0" by simp
  from * this have c: "rc = int (length bs) \<and> length bs \<le> n \<and> rest w = bs @ rest w' \<and> (rest w \<noteq> [] \<longrightarrow> 0 < n \<longrightarrow> bs \<noteq> [])"
    by (metis (full_types))
  then show "rc = int (length bs)" and "length bs \<le> n" and "rest w = bs @ rest w'" by blast+
  show "rest w \<noteq> [] \<Longrightarrow> 0 < n \<Longrightarrow> bs \<noteq> []" using c by blast
qed

lemma read_payload_loop_keeps:
  "reads_keep mc g \<Longrightarrow> read_payload_loop mc to_read buf got w = (buf', got', w') \<Longrightarrow> g w' = g w"
proof (induction mc to_read buf got w rule: read_payload_loop.induct)
  case (1 mc to_read buf got w)
  obtain n bs w1 where r: "mqtt_read_publish_payload mc w (payload_room - got) = (n, bs, w1)" by (metis prod_cases3)
  have keep: "g w1 = g w" using "1.prems"(1) r unfolding reads_keep_def by (metis snd_conv)
  show ?case
  proof (cases "got < to_read \<and> got < payload_room \<and> 0 < n")
    case True
    then have "read_payload_loop mc to_read (memcpy_at buf got bs) (got + nat n) w1 = (buf', got', w')"
      using "1.prems"(2) r by (subst (asm) read_payload_loop.simps) simp
    with True "1.IH" [OF _ r [symmetric] refl] "1.prems"(1) keep show ?thesis by simp
  next
    case False
    with "1.prems"(2) r keep show ?thesis
      by (subst (asm) read_payload_loop.simps) (auto split: if_splits)
  qed
qed

lemma drain_loop_keeps: "reads_keep mc g \<Longrightarrow> g (drain_loop mc remain w) = g w"
proof (induction mc remain w rule: drain_loop.induct)
  case (1 mc remain w)
  obtain n bs w1 where r: "mqtt_read_publish_payload mc w (min 128 remain) = (n, bs, w1)" by (metis prod_cases3)
  have keep: "g w1 = g w" using "1.prems" r unfolding reads_keep_def by (metis snd_conv)
  show ?case
  proof (cases "0 < remain \<and> 0 < n")
    case True
    then have "drain_loop mc remain w = drain_loop mc (remain - nat n) w1"
      using r by (subst drain_loop.simps) simp
    with True "1.IH" [OF _ r [symmetric] refl] "1.prems" keep show ?thesis by simp
  next
    case False
    with r keep show ?thesis by (subst drain_loop.simps) auto
  qed
qed

lemma receive_payload_keeps:
  "reads_keep mc g \<Longrightarrow> receive_payload mc to_read w = (buf, w') \<Longrightarrow> g w' = g w"
  by (auto simp: receive_payload_def Let_def drain_loop_keeps dest: read_payload_loop_keeps split: if_splits prod.splits)

text \<open>
  The loop reads all there is room for, or up to a read that fails; \<open>w1\<close> is the world it has
  come to then.
\<close>

lemma read_payload_loop_spec:
  assumes "payload_lawful mc rest"
  shows "to_read = got + length (rest w) \<Longrightarrow> got \<le> payload_room \<Longrightarrow> payload_room < length buf \<Longrightarrow>
    read_payload_loop mc to_read buf got w = (buf', got', w') \<Longrightarrow>
    got \<le> got' \<and> got' \<le> min to_read payload_room \<and> buf' = take got buf @ take (got' - got) (rest w) @ drop got' buf \<and>
    (\<exists>w1. (read_step mc)\<^sup>*\<^sup>* w w1 \<and> rest w1 = drop (got' - got) (rest w) \<and>
      (got' = min to_read payload_room \<or> (\<exists>n. fst (mqtt_read_publish_payload mc w1 n) < 0)))"
  using assms
proof (induction mc to_read buf got w rule: read_payload_loop.induct)
  case (1 mc to_read buf got w)
  obtain n bs w1 where r: "mqtt_read_publish_payload mc w (payload_room - got) = (n, bs, w1)" by (metis prod_cases3)
  note rd = read_law [OF "1.prems"(5) r]
  show ?case
  proof (cases "got < to_read \<and> got < payload_room \<and> 0 < n")
    case False
    then have eq: "buf' = buf" "got' = got"
      using "1.prems"(4) r by (subst (asm) read_payload_loop.simps; auto split: if_splits)+
    have "got = min to_read payload_room \<or> n < 0"
      using False rd(1,4) "1.prems"(1,2) by (cases "n < 0"; cases "rest w = []"; cases "got < payload_room") auto
    then have "got = min to_read payload_room \<or> (\<exists>n. fst (mqtt_read_publish_payload mc w n) < 0)"
      using r by (metis fst_conv)
    with eq "1.prems"(1,2) show ?thesis by (intro conjI exI [of _ w]) auto
  next
    case True
    have n: "n = int (length bs)" "length bs \<le> payload_room - got" "rest w = bs @ rest w1" "bs \<noteq> []"
      using rd(1-4) True "1.prems"(1) by auto
    let ?buf = "memcpy_at buf got bs"
    have step: "read_payload_loop mc to_read ?buf (got + nat n) w1 = (buf', got', w')"
      using "1.prems"(4) True r by (subst (asm) read_payload_loop.simps) simp
    have ih: "got + nat n \<le> got' \<and> got' \<le> min to_read payload_room \<and>
        buf' = take (got + nat n) ?buf @ take (got' - (got + nat n)) (rest w1) @ drop got' ?buf \<and>
        (\<exists>w2. (read_step mc)\<^sup>*\<^sup>* w1 w2 \<and> rest w2 = drop (got' - (got + nat n)) (rest w1) \<and>
          (got' = min to_read payload_room \<or> (\<exists>n. fst (mqtt_read_publish_payload mc w2 n) < 0)))"
      using True n "1.prems" step by (intro "1.IH" [OF _ r [symmetric] refl]) auto
    then obtain w2 where w2: "(read_step mc)\<^sup>*\<^sup>* w1 w2" "rest w2 = drop (got' - (got + nat n)) (rest w1)"
      "got' = min to_read payload_room \<or> (\<exists>n. fst (mqtt_read_publish_payload mc w2 n) < 0)" by blast
    have gb: "got + length bs \<le> got'" and le: "got' \<le> min to_read payload_room"
      and bf: "buf' = take (got + length bs) ?buf @ take (got' - (got + length bs)) (rest w1) @ drop got' ?buf"
      using ih n(1) by simp_all
    have "take (got + length bs) ?buf = take got buf @ bs" "drop got' ?buf = drop got' buf"
      using gb n(2) "1.prems"(2,3) by (simp_all add: memcpy_at_def)
    then have "buf' = take got buf @ take (got' - got) (rest w) @ drop got' buf" unfolding bf using n(3) gb by simp
    moreover have "rest w2 = drop (got' - got) (rest w)" using w2(2) n(1,3) gb by simp
    moreover have "read_step mc w w1" unfolding read_step_def using r by (metis snd_conv)
    with w2(1) have "(read_step mc)\<^sup>*\<^sup>* w w2" by simp
    ultimately show ?thesis using gb le w2(3) by auto
  qed
qed

lemma receive_payload_spec:
  assumes "payload_lawful mc rest" and "length (rest w) = to_read" and "receive_payload mc to_read w = (buf, w')"
  obtains k w1 where "k \<le> length (rest w)" and "buf = take 699 (take k (rest w)) @ zeros (700 - min k 699)"
    and "(read_step mc)\<^sup>*\<^sup>* w w1" and "rest w1 = drop k (rest w)"
    and "k = min (length (rest w)) 699 \<or> (\<exists>n. fst (mqtt_read_publish_payload mc w1 n) < 0)"
proof (cases "to_read = 0")
  case True
  moreover have "(zeros 700)[0 := NUL] = zeros 700" by (simp add: list_update_same_conv)
  ultimately show thesis
    using assms(2,3) by (intro that [of 0 w]) (auto simp: receive_payload_def mqtt_payload_max_len_def)
next
  case False
  have room: "payload_room = 699" "mqtt_payload_max_len = 700" by (simp_all add: payload_room_def mqtt_payload_max_len_def)
  obtain b1 got w2 where l: "read_payload_loop mc to_read (zeros 700) 0 w = (b1, got, w2)" by (metis prod_cases3)
  obtain w1 where sp: "got \<le> min to_read 699" "b1 = take got (rest w) @ drop got (zeros 700)" "(read_step mc)\<^sup>*\<^sup>* w w1"
    "rest w1 = drop got (rest w)" "got = min to_read 699 \<or> (\<exists>n. fst (mqtt_read_publish_payload mc w1 n) < 0)"
    using read_payload_loop_spec [OF assms(1) _ _ _ l] assms(2) by (auto simp: room)
  have "buf = b1[got := NUL]" using assms(3) False l by (simp add: receive_payload_def room Let_def)
  also have "\<dots> = take 699 (take got (rest w)) @ zeros (700 - min got 699)"
    using sp(1) assms(2) by (simp add: sp(2) list_update_append list_update_same_conv)
  finally show thesis using sp assms(2) by (intro that [of got w1]) auto
qed

lemma topic_array_eq: "topic_array utf8 = take 127 utf8 @ zeros (128 - min (length utf8) 127)"
proof -
  have "topic_array utf8 = (take 127 utf8 @ zeros (128 - min (length utf8) 127))[min (length utf8) 127 := NUL]"
    by (auto simp: topic_array_def mqtt_topik_max_len_def memcpy_at_def min_def Let_def)
  then show ?thesis by (simp add: list_update_append list_update_same_conv min_def)
qed

section \<open>Publications\<close>

definition replies_keep_queues :: "'w mqtt_api \<Rightarrow> 'w msgq_view \<Rightarrow> bool" where
  "replies_keep_queues mc v \<longleftrightarrow> (\<forall>w r. mv_rx v (snd (mqtt_reply_send mc w r)) = mv_rx v w)"

text \<open>The message an event stands for, cut to what the arrays of a message hold.\<close>

definition received_msg :: "mqtt_publish_evt \<Rightarrow> byte list \<Rightarrow> mqtt_msg_t" where
  "received_msg pe body =
     \<lparr>mm_topic = take 127 (pe_topic pe) @ zeros (128 - min (length (pe_topic pe)) 127),
      mm_payload = take 699 body @ zeros (700 - min (length body) 699),
      mm_qos = pe_qos pe, mm_retain = pe_retain pe\<rparr>"

lemma evt_publish_cases:
  assumes "receive_payload mc (pe_payload_len pe) w = (payload, w1)"
    and "rx_put mq w1 \<lparr>mm_topic = topic_array (pe_topic pe), mm_payload = payload, mm_qos = pe_qos pe, mm_retain = pe_retain pe\<rparr>
      = (rc, w2)"
  shows "evt_publish mc mq pe w =
    (if pe_qos pe = 1 then snd (mqtt_reply_send mc w2 (Puback (pe_message_id pe)))
     else if pe_qos pe = 2 then snd (mqtt_reply_send mc w2 (Pubrec (pe_message_id pe))) else w2)"
  using assms by (simp add: evt_publish_def mqtt_qos)

lemma evt_publish_rx:
  assumes laws: "msgq_rx_lawful mq v" "reads_keep_queues mc v"
  shows "\<exists>w2. evt_publish mc mq pe w =
      (if pe_qos pe = 1 then snd (mqtt_reply_send mc w2 (Puback (pe_message_id pe)))
       else if pe_qos pe = 2 then snd (mqtt_reply_send mc w2 (Pubrec (pe_message_id pe))) else w2) \<and>
    (if length (mv_rx v w) < MSGQ_LEN
     then mv_rx v w2 = mv_rx v w @ [\<lparr>mm_topic = topic_array (pe_topic pe),
            mm_payload = fst (receive_payload mc (pe_payload_len pe) w), mm_qos = pe_qos pe, mm_retain = pe_retain pe\<rparr>]
     else mv_rx v w2 = mv_rx v w)"
proof -
  obtain payload w1 where r: "receive_payload mc (pe_payload_len pe) w = (payload, w1)" by fastforce
  obtain rc w2 where p: "rx_put mq w1 \<lparr>mm_topic = topic_array (pe_topic pe), mm_payload = payload, mm_qos = pe_qos pe,
      mm_retain = pe_retain pe\<rparr> = (rc, w2)" by fastforce
  have "mv_rx v w1 = mv_rx v w" by (rule receive_payload_keeps [OF reads_keep_rx [OF laws(2)] r])
  with rx_put_law(3,4) [OF laws(1) p] evt_publish_cases [OF r p] r show ?thesis
    by (intro exI [of _ w2]) (auto simp: not_less)
qed

text \<open>What of the world an event leaves alone.\<close>

definition handler_keeps :: "'w mqtt_api \<Rightarrow> 'w msgq_api \<Rightarrow> 'w zbus_api \<Rightarrow> ('w \<Rightarrow> 'g) \<Rightarrow> bool" where
  "handler_keeps mc mq zb g \<longleftrightarrow> reads_keep mc g \<and> (\<forall>w r. g (snd (mqtt_reply_send mc w r)) = g w) \<and>
     (\<forall>w m. g (snd (rx_put mq w m)) = g w) \<and> (\<forall>w m. g (snd (zbus_pub_mqtt zb w m)) = g w)"

lemma evt_publish_keeps:
  assumes "handler_keeps mc mq zb g"
  shows "g (evt_publish mc mq pe w) = g w"
proof -
  obtain payload w1 where r: "receive_payload mc (pe_payload_len pe) w = (payload, w1)" by fastforce
  obtain rc w2 where p: "rx_put mq w1 \<lparr>mm_topic = topic_array (pe_topic pe), mm_payload = payload, mm_qos = pe_qos pe,
      mm_retain = pe_retain pe\<rparr> = (rc, w2)" by fastforce
  have rk: "reads_keep mc g" using assms by (simp add: handler_keeps_def)
  have "g w1 = g w" by (rule receive_payload_keeps [OF rk r])
  moreover have "g w2 = g w1" using assms p unfolding handler_keeps_def by (metis snd_conv)
  ultimately show ?thesis using assms evt_publish_cases [OF r p] by (simp add: handler_keeps_def)
qed

lemma handler_keeps_world:
  "handler_keeps mc mq zb g \<Longrightarrow> g (snd (mqtt_evt_handler mc mq zb kn e s)) = g (snd s)"
  by (cases s; cases e)
    (simp_all add: mqtt_evt_handler_def evt_publish_keeps, simp_all add: handler_keeps_def evt_pubrec_def evt_pubrel_def Let_def)

section \<open>The connection\<close>

definition zbus_mqtt_lawful :: "'w zbus_api \<Rightarrow> bool" where
  "zbus_mqtt_lawful zb \<longleftrightarrow>
     (\<forall>w m rc w'. zbus_pub_mqtt zb w m = (rc, w') \<longrightarrow> rc = 0 \<longrightarrow> zbus_read_mqtt zb w' = (0, m))"

definition conn_after :: "mqtt_evt \<Rightarrow> bool \<Rightarrow> bool" where
  "conn_after e b = (case e of MQTT_EVT_CONNACK r \<Rightarrow> if r = 0 then True else b | MQTT_EVT_DISCONNECT r \<Rightarrow> False | _ \<Rightarrow> b)"

lemma handler_status:
  "mq_connected (fst (mqtt_evt_handler mc mq zb kn e s)) = conn_after e (mq_connected (fst s))"
  "mq_enabled (fst (mqtt_evt_handler mc mq zb kn e s)) = mq_enabled (fst s)"
  by (cases s; cases e; simp add: mqtt_evt_handler_def conn_after_def Let_def)+

lemma handler_statuses:
  "mq_connected (fst (fold (mqtt_evt_handler mc mq zb kn) es s)) = fold conn_after es (mq_connected (fst s))"
  "mq_enabled (fst (fold (mqtt_evt_handler mc mq zb kn) es s)) = mq_enabled (fst s)"
  by (induction es arbitrary: s) (simp_all add: handler_status)

lemma publication_read:
  assumes "msgq_rx_lawful mq v" and "reads_keep_queues mc v" and "replies_keep_queues mc v"
    and "payload_lawful mc rest"
    and "pe_payload_len pe = length (rest w)" and "length (mv_rx v w) < MSGQ_LEN"
    and "mqtt_evt_handler mc mq zb kn (MQTT_EVT_PUBLISH pe) (st, w) = (st', w')"
  obtains k w1 where "st' = st" and "mv_rx v w' = mv_rx v w @ [received_msg pe (take k (rest w))]"
    and "k \<le> length (rest w)" and "(read_step mc)\<^sup>*\<^sup>* w w1" and "rest w1 = drop k (rest w)"
    and "k = min (length (rest w)) 699 \<or> (\<exists>n. fst (mqtt_read_publish_payload mc w1 n) < 0)"
proof -
  obtain payload w1 where r: "receive_payload mc (pe_payload_len pe) w = (payload, w1)" by fastforce
  obtain w2 where e: "evt_publish mc mq pe w =
      (if pe_qos pe = 1 then snd (mqtt_reply_send mc w2 (Puback (pe_message_id pe)))
       else if pe_qos pe = 2 then snd (mqtt_reply_send mc w2 (Pubrec (pe_message_id pe))) else w2)"
    and rx: "mv_rx v w2 = mv_rx v w @ [\<lparr>mm_topic = topic_array (pe_topic pe), mm_payload = payload,
      mm_qos = pe_qos pe, mm_retain = pe_retain pe\<rparr>]"
    using evt_publish_rx [OF assms(1,2), of pe w] r assms(6) by auto
  have "mv_rx v (evt_publish mc mq pe w) = mv_rx v w2"
    unfolding e using assms(3) by (simp add: replies_keep_queues_def)
  then have h: "st' = st" "mv_rx v w' = mv_rx v w2" using assms(7) by (auto simp: mqtt_evt_handler_def)
  obtain k w3 where k: "k \<le> length (rest w)" "payload = take 699 (take k (rest w)) @ zeros (700 - min k 699)"
    "(read_step mc)\<^sup>*\<^sup>* w w3" "rest w3 = drop k (rest w)"
    "k = min (length (rest w)) 699 \<or> (\<exists>n. fst (mqtt_read_publish_payload mc w3 n) < 0)"
    using receive_payload_spec [OF assms(4) assms(5) [symmetric] r] by metis
  with h rx show thesis by (intro that [of k w3]) (simp_all add: received_msg_def topic_array_eq min_def)
qed

lemma received_msg_cut: "received_msg pe (take 699 body) = received_msg pe body"
  by (simp add: received_msg_def min_def)

lemma publication_rx:
  assumes "msgq_rx_lawful mq v" and "reads_keep_queues mc v" and "replies_keep_queues mc v"
    and "payload_lawful mc rest" and "payload_arrived mc rest w"
    and "pe_payload_len pe = length (rest w)" and "length (mv_rx v w) < MSGQ_LEN"
    and "mqtt_evt_handler mc mq zb kn (MQTT_EVT_PUBLISH pe) (st, w) = (st', w')"
  shows "st' = st \<and> mv_rx v w' = mv_rx v w @ [received_msg pe (rest w)]"
proof -
  obtain k w1 where st: "st' = st" and k: "mv_rx v w' = mv_rx v w @ [received_msg pe (take k (rest w))]" "k \<le> length (rest w)"
    and w1: "(read_step mc)\<^sup>*\<^sup>* w w1" "rest w1 = drop k (rest w)"
    and or: "k = min (length (rest w)) 699 \<or> (\<exists>n. fst (mqtt_read_publish_payload mc w1 n) < 0)"
    using publication_read [OF assms(1-4,6-8)] .
  have "k = min (length (rest w)) 699 \<or> k = length (rest w)"
    using or w1 k(2) assms(5) unfolding payload_arrived_def by (metis drop_eq_Nil le_antisym not_le)
  then have "received_msg pe (take k (rest w)) = received_msg pe (rest w)"
    using received_msg_cut [of pe "rest w"] by (auto simp: min_def split: if_splits)
  with st k(1) show ?thesis by simp
qed

section \<open>Properties\<close>

text \<open>
  C23. A publication is queued as far as it was read: when the payload's length is announced
  correctly and the receive queue has room, the handler appends one message with the topic
  (its first 127 bytes) and a front part of the payload. That part is the whole payload, or
  the 699 bytes there is room for, in whatever pieces the client delivers it, unless a read
  fails; the reads do not wait for bytes that are still under way, and when one fails, what was
  read before it is queued as the message. A payload that has arrived is queued whole.
\<close>

theorem publication_queued:
  assumes "msgq_rx_lawful mq v" and "reads_keep_queues mc v" and "replies_keep_queues mc v"
    and "payload_lawful mc rest"
    and "pe_payload_len pe = length (rest w)" and "length (mv_rx v w) < MSGQ_LEN"
    and "mqtt_evt_handler mc mq zb kn (MQTT_EVT_PUBLISH pe) (st, w) = (st', w')"
  shows "st' = st \<and>
    (\<exists>k w1. mv_rx v w' = mv_rx v w @ [received_msg pe (take k (rest w))] \<and> k \<le> length (rest w) \<and>
       (read_step mc)\<^sup>*\<^sup>* w w1 \<and> rest w1 = drop k (rest w) \<and>
       (k = min (length (rest w)) 699 \<or> (\<exists>n. fst (mqtt_read_publish_payload mc w1 n) < 0))) \<and>
    (payload_arrived mc rest w \<longrightarrow> mv_rx v w' = mv_rx v w @ [received_msg pe (rest w)])"
proof -
  obtain k w1 where "st' = st" "mv_rx v w' = mv_rx v w @ [received_msg pe (take k (rest w))]" "k \<le> length (rest w)"
    "(read_step mc)\<^sup>*\<^sup>* w w1" "rest w1 = drop k (rest w)"
    "k = min (length (rest w)) 699 \<or> (\<exists>n. fst (mqtt_read_publish_payload mc w1 n) < 0)"
    using publication_read [OF assms] .
  with publication_rx [OF assms(1-4) _ assms(5-7)] show ?thesis by blast
qed

text \<open>A client whose reads deliver one byte, and fail when the world's clock is at 0.\<close>

definition demo_slow :: "demo_world mqtt_api" where
  "demo_slow = demo_mqtt\<lparr>mqtt_read_publish_payload := \<lambda>w n.
     if dw_clock w = 0 then (- EAGAIN, [], w)
     else let bs = take (min n 1) (dw_payload w)
          in (int (length bs), bs, w\<lparr>dw_payload := drop (min n 1) (dw_payload w), dw_clock := dw_clock w - 1\<rparr>)\<rparr>"

definition demo_on_qos1 :: mqtt_publish_evt where
  "demo_on_qos1 = \<lparr>pe_topic = ''t/x'', pe_qos = 1, pe_retain = False, pe_payload_len = 2, pe_message_id = 9\<rparr>"

lemma demo_slow_truncates:
  "dw_rx (snd (mqtt_evt_handler demo_slow demo_msgq demo_zbus demo_kernel (MQTT_EVT_PUBLISH demo_on_qos1)
      (mqtt_conn_stat_init, demo_init\<lparr>dw_payload := ''ON'', dw_clock := 1\<rparr>))) = [received_msg demo_on_qos1 ''O'']"
  by code_simp

theorem publication_queued_witness:
  "\<exists>k. dw_rx (snd (mqtt_evt_handler demo_slow demo_msgq demo_zbus demo_kernel (MQTT_EVT_PUBLISH demo_on_qos1)
      (mqtt_conn_stat_init, demo_init\<lparr>dw_payload := ''ON'', dw_clock := 1\<rparr>))) =
    [received_msg demo_on_qos1 (take k ''ON'')]"
proof -
  let ?w = "demo_init\<lparr>dw_payload := ''ON'', dw_clock := 1\<rparr>"
  obtain st' w' where h: "mqtt_evt_handler demo_slow demo_msgq demo_zbus demo_kernel (MQTT_EVT_PUBLISH demo_on_qos1)
      (mqtt_conn_stat_init, ?w) = (st', w')" by fastforce
  have rk: "reads_keep_queues demo_slow demo_queues" by (simp add: reads_keep_queues_def demo_slow_def Let_def)
  have pk: "replies_keep_queues demo_slow demo_queues" by (simp add: replies_keep_queues_def demo_slow_def demo_mqtt_def)
  have pl: "payload_lawful demo_slow dw_payload" by (auto simp: payload_lawful_def demo_slow_def errno Let_def)
  have "pe_payload_len demo_on_qos1 = length (dw_payload ?w)" "length (mv_rx demo_queues ?w) < MSGQ_LEN"
    by (simp_all add: demo_on_qos1_def demo_init_def MSGQ_LEN_def)
  from publication_queued [OF demo_msgq_rx_lawful rk pk pl this h] h
  show ?thesis by (auto simp: demo_init_def)
qed

text \<open>
  C33. A command can be acknowledged and lost: when the receive queue is full, the message
  of a publication with QoS 1 or 2 is dropped, and the broker is still told that it
  arrived (PUBACK or PUBREC), so it will not send it again.
\<close>

theorem dropped_publication_acknowledged:
  assumes "msgq_rx_lawful mq v" and "reads_keep_queues mc v" and "MSGQ_LEN \<le> length (mv_rx v w)"
    and "pe_qos pe = MQTT_QOS_1_AT_LEAST_ONCE \<or> pe_qos pe = MQTT_QOS_2_EXACTLY_ONCE"
  shows "\<exists>w2. mv_rx v w2 = mv_rx v w \<and>
    mqtt_evt_handler mc mq zb kn (MQTT_EVT_PUBLISH pe) (st, w) =
      (st, snd (mqtt_reply_send mc w2
         (if pe_qos pe = MQTT_QOS_1_AT_LEAST_ONCE then Puback (pe_message_id pe) else Pubrec (pe_message_id pe))))"
  using evt_publish_rx [OF assms(1,2), of pe w] assms(3,4) by (auto simp: mqtt_evt_handler_def mqtt_qos)

theorem dropped_publication_acknowledged_witness:
  "\<exists>w2. mqtt_evt_handler demo_mqtt demo_msgq demo_zbus demo_kernel
      (MQTT_EVT_PUBLISH \<lparr>pe_topic = ''t'', pe_qos = 2, pe_retain = False, pe_payload_len = 0, pe_message_id = 9\<rparr>)
      (mqtt_conn_stat_init, demo_init\<lparr>dw_rx := replicate 16 (received_msg
        \<lparr>pe_topic = ''t'', pe_qos = 0, pe_retain = False, pe_payload_len = 0, pe_message_id = 0\<rparr> [])\<rparr>) =
    (mqtt_conn_stat_init, snd (mqtt_reply_send demo_mqtt w2 (Pubrec 9)))"
proof -
  let ?w = "demo_init\<lparr>dw_rx := replicate 16 (received_msg
        \<lparr>pe_topic = ''t'', pe_qos = 0, pe_retain = False, pe_payload_len = 0, pe_message_id = 0\<rparr> [])\<rparr>"
  let ?pe = "\<lparr>pe_topic = ''t'', pe_qos = 2, pe_retain = False, pe_payload_len = 0, pe_message_id = 9\<rparr>"
  have rk: "reads_keep_queues demo_mqtt demo_queues" by (simp add: reads_keep_queues_def demo_mqtt_def Let_def)
  have "MSGQ_LEN \<le> length (mv_rx demo_queues ?w)" by (simp add: MSGQ_LEN_def)
  from dropped_publication_acknowledged [OF demo_msgq_rx_lawful rk this, of ?pe demo_zbus demo_kernel mqtt_conn_stat_init]
  show ?thesis by (auto simp: mqtt_qos)
qed

text \<open>
  The status channel tells the state of the connection: after any events, the last of
  which is an accepted connection or a disconnection, a read of the channel gives the
  handler's own status, which says "enabled", and "connected" exactly when that event was
  the acceptance; before that the status is what the earlier events left.
\<close>

lemma connection_status_published:
  assumes "zbus_mqtt_lawful zb" and "\<forall>w m. fst (zbus_pub_mqtt zb w m) = 0"
    and "e = MQTT_EVT_CONNACK 0 \<or> e = MQTT_EVT_DISCONNECT r"
    and "fold (mqtt_evt_handler mc mq zb kn) es (mqtt_conn_stat_init, w) = (st0, w0)"
    and "mqtt_evt_handler mc mq zb kn e (st0, w0) = (st, w')"
  shows "mq_connected st0 = fold conn_after es False \<and> zbus_read_mqtt zb w' = (0, st) \<and> mq_enabled st \<and>
    (mq_connected st \<longleftrightarrow> e = MQTT_EVT_CONNACK 0)"
proof -
  have init: "mq_enabled st0" "mq_connected st0 = fold conn_after es False"
    using handler_statuses [of mc mq zb kn es "(mqtt_conn_stat_init, w)"] assms(4) by (simp_all add: mqtt_conn_stat_init_def)
  have "zbus_read_mqtt zb (snd (zbus_pub_mqtt zb w0 m)) = (0, m)" for m
    using assms(1,2) unfolding zbus_mqtt_lawful_def by (metis prod.collapse)
  with init assms(3,5) show ?thesis by (auto simp: mqtt_evt_handler_def Let_def)
qed

lemma connection_status_published_witness:
  "mq_connected (dw_mqtt (snd (mqtt_evt_handler demo_mqtt demo_msgq demo_zbus demo_kernel (MQTT_EVT_CONNACK 0)
     (fold (mqtt_evt_handler demo_mqtt demo_msgq demo_zbus demo_kernel) [MQTT_EVT_CONNACK 5, MQTT_EVT_PINGRESP]
       (mqtt_conn_stat_init, demo_init)))))"
proof -
  obtain st0 w0 where f: "fold (mqtt_evt_handler demo_mqtt demo_msgq demo_zbus demo_kernel)
      [MQTT_EVT_CONNACK 5, MQTT_EVT_PINGRESP] (mqtt_conn_stat_init, demo_init) = (st0, w0)" by fastforce
  obtain st w' where h: "mqtt_evt_handler demo_mqtt demo_msgq demo_zbus demo_kernel (MQTT_EVT_CONNACK 0) (st0, w0) = (st, w')"
    by fastforce
  have "zbus_mqtt_lawful demo_zbus" "\<forall>w m. fst (zbus_pub_mqtt demo_zbus w m) = 0"
    by (simp_all add: zbus_mqtt_lawful_def demo_zbus_def)
  from connection_status_published [OF this _ f h] f h show ?thesis by (simp add: demo_zbus_def)
qed


end
