(* ===== verification/Fs_Platform.thy ===== *)
theory Fs_Platform
  imports Platform "HOL-Library.AList"
begin

text \<open>
  The file-system calls of Zephyr (\<open>zephyr/fs/fs.h\<close>) the firmware uses, as a record of
  functions, and what it relies on about them. A file handle is identified with the path it
  was opened for; a directory handle is a number. Many paths name the same file, so the laws
  are stated over places, and over a view of the world: the node at each place, the entries of
  each directory, and the entries a directory handle has not delivered yet. The last section
  is the instance the witnesses use.
\<close>

section \<open>The interface\<close>

datatype fs_dir_entry_type = FS_DIR_ENTRY_FILE | FS_DIR_ENTRY_DIR

record fs_dirent =
  de_type :: fs_dir_entry_type
  de_name :: string
  de_size :: nat

record 'w fs_api =
  fs_unlink :: "'w \<Rightarrow> string \<Rightarrow> int \<times> 'w"
  fs_mkdir :: "'w \<Rightarrow> string \<Rightarrow> int \<times> 'w"
  fs_stat :: "'w \<Rightarrow> string \<Rightarrow> int \<times> fs_dirent"
    \<comment> \<open>the entry is meaningful when the code is not negative\<close>
  fs_uninit_dirent :: "'w \<Rightarrow> fs_dirent"
    \<comment> \<open>what an uninitialised \<open>struct fs_dirent\<close> holds\<close>
  fs_open_append :: "'w \<Rightarrow> string \<Rightarrow> int \<times> 'w"
    \<comment> \<open>\<open>FS_O_CREATE | FS_O_WRITE | FS_O_APPEND\<close>\<close>
  fs_write :: "'w \<Rightarrow> string \<Rightarrow> byte list \<Rightarrow> int \<times> 'w"
  fs_sync :: "'w \<Rightarrow> string \<Rightarrow> 'w"
  fs_close :: "'w \<Rightarrow> string \<Rightarrow> 'w"
  fs_opendir :: "'w \<Rightarrow> string \<Rightarrow> int \<times> nat \<times> 'w"
  fs_readdir :: "'w \<Rightarrow> nat \<Rightarrow> int \<times> fs_dirent \<times> 'w"
    \<comment> \<open>an empty name at the end of the directory\<close>
  fs_closedir :: "'w \<Rightarrow> nat \<Rightarrow> 'w"

section \<open>Paths\<close>

text \<open>
  The components of a path, and the place it names. The first component is the mount point;
  after it empty components and \<open>.\<close> stay, \<open>..\<close> takes the component before it away, whether
  it exists or not, and does nothing at the root of the file system.
\<close>

fun segments :: "string \<Rightarrow> string list" where
  "segments [] = [[]]"
| "segments (c # cs) =
     (if c = CHR ''/'' then [] # segments cs
      else (case segments cs of s # ss \<Rightarrow> (c # s) # ss | [] \<Rightarrow> [[c]]))"

fun resolve :: "string list \<Rightarrow> string list \<Rightarrow> string list" where
  "resolve dir [] = dir"
| "resolve dir (s # ss) =
     (if s = [] \<or> s = ''.'' then resolve dir ss
      else if s = ''..'' then resolve (butlast dir) ss
      else resolve (dir @ [s]) ss)"

definition place :: "string \<Rightarrow> string list" where
  "place p = (case segments p of e # m # ss \<Rightarrow> m # resolve [] ss | ss \<Rightarrow> ss)"

text \<open>The path is absolute and goes through the mount point of \<open>littlefs_mount.c\<close>.\<close>

definition mounted :: "string \<Rightarrow> bool" where
  "mounted p \<longleftrightarrow> take 2 (segments p) = [[], ''lfs'']"

text \<open>It names something other than the root of the file system.\<close>

definition below_mount :: "string \<Rightarrow> bool" where
  "below_mount p \<longleftrightarrow> mounted p \<and> tl (place p) \<noteq> []"

definition child_path :: "string \<Rightarrow> string \<Rightarrow> string" where
  "child_path base name = base @ ''/'' @ name"

definition proper_name :: "string \<Rightarrow> bool" where
  "proper_name s \<longleftrightarrow> s \<notin> {[], ''.'', ''..''} \<and> CHR ''/'' \<notin> set s"

lemma segments_not_Nil [simp]: "segments p \<noteq> []"
  by (induction p) (auto split: list.split)

lemma segments_join: "segments (p @ CHR ''/'' # q) = segments p @ segments q"
proof (induction p)
  case (Cons c p)
  then show ?case by (cases "segments p") auto
qed simp

lemma segments_one: "CHR ''/'' \<notin> set p \<Longrightarrow> segments p = [p]"
  by (induction p) auto

lemma resolve_append: "resolve dir (xs @ ys) = resolve (resolve dir xs) ys"
  by (induction dir xs rule: resolve.induct) auto

lemma resolve_plain:
  "\<forall>s \<in> set ss. s \<noteq> ''.'' \<and> s \<noteq> ''..'' \<Longrightarrow> resolve dir ss = dir @ filter (\<lambda>s. s \<noteq> []) ss"
  by (induction dir ss rule: resolve.induct) auto

lemma mounted_cases:
  assumes "mounted p"
  obtains ss where "segments p = [] # ''lfs'' # ss" and "place p = ''lfs'' # resolve [] ss"
proof -
  obtain ss where ss: "segments p = [] # ''lfs'' # ss"
    using assms unfolding mounted_def by (cases "segments p"; cases "tl (segments p)") auto
  then have "place p = ''lfs'' # resolve [] ss" by (simp add: place_def)
  with ss show ?thesis by (rule that)
qed

text \<open>A path put below another one, when it has no dots.\<close>

lemma place_child_path:
  assumes "mounted p" and "\<forall>s \<in> set (segments rel). s \<noteq> ''.'' \<and> s \<noteq> ''..''"
  shows "place (child_path p rel) = place p @ filter (\<lambda>s. s \<noteq> []) (segments rel)" and "mounted (child_path p rel)"
proof -
  obtain ss where ss: "segments p = [] # ''lfs'' # ss" "place p = ''lfs'' # resolve [] ss" by (rule mounted_cases [OF assms(1)])
  then show "mounted (child_path p rel)" by (simp add: mounted_def child_path_def segments_join)
  show "place (child_path p rel) = place p @ filter (\<lambda>s. s \<noteq> []) (segments rel)"
    using ss by (simp add: place_def child_path_def segments_join resolve_append resolve_plain [OF assms(2)])
qed

lemma place_child:
  assumes "mounted p" and "proper_name name"
  shows "place (child_path p name) = place p @ [name]" and "mounted (child_path p name)"
proof -
  have "segments name = [name]" using assms(2) by (simp add: proper_name_def segments_one)
  moreover from this have "\<forall>s \<in> set (segments name). s \<noteq> ''.'' \<and> s \<noteq> ''..''" using assms(2) by (simp add: proper_name_def)
  ultimately show "place (child_path p name) = place p @ [name]" "mounted (child_path p name)"
    using place_child_path [OF assms(1), of name] assms(2) by (simp_all add: proper_name_def)
qed

lemma below_mount_child: "mounted p \<Longrightarrow> proper_name name \<Longrightarrow> below_mount (child_path p name)"
  by (auto simp: below_mount_def place_child elim!: mounted_cases)

lemma below_mountD: "below_mount p \<Longrightarrow> mounted p"
  by (simp add: below_mount_def)

section \<open>What the firmware relies on\<close>

datatype fs_node = File "byte list" | Dir

record 'w fs_view =
  fv_node :: "'w \<Rightarrow> string list \<Rightarrow> fs_node option"
  fv_list :: "'w \<Rightarrow> string list \<Rightarrow> fs_dirent list"
  fv_rest :: "'w \<Rightarrow> nat \<Rightarrow> fs_dirent list"

definition same_files :: "'w fs_view \<Rightarrow> 'w \<Rightarrow> 'w \<Rightarrow> bool" where
  "same_files v w w' \<longleftrightarrow> fv_node v w' = fv_node v w \<and> fv_list v w' = fv_list v w"

text \<open>
  \<open>fs_unlink\<close> removes a file or an empty directory and refuses anything else; an open
  directory handle goes on with the entries it had.
\<close>

definition fs_unlink_lawful :: "'w fs_api \<Rightarrow> 'w fs_view \<Rightarrow> bool" where
  "fs_unlink_lawful fs v \<longleftrightarrow>
     (\<forall>w p rc w'. below_mount p \<longrightarrow> fs_unlink fs w p = (rc, w') \<longrightarrow>
        fv_rest v w' = fv_rest v w \<and>
        (if fv_node v w (place p) = None \<or> (fv_node v w (place p) = Some Dir \<and> fv_list v w (place p) \<noteq> [])
         then rc < 0 \<and> same_files v w w'
         else rc = 0 \<and> fv_node v w' = (fv_node v w)(place p := None) \<and>
              (\<forall>q. fv_list v w' q =
                 (if q = place p then [] else filter (\<lambda>e. q @ [de_name e] \<noteq> place p) (fv_list v w q)))))"

text \<open>A directory is made in an existing one, where nothing is.\<close>

definition fs_dir_lawful :: "'w fs_api \<Rightarrow> 'w fs_view \<Rightarrow> bool" where
  "fs_dir_lawful fs v \<longleftrightarrow>
     (\<forall>w p rc h w'. below_mount p \<longrightarrow> fs_opendir fs w p = (rc, h, w') \<longrightarrow>
        same_files v w w' \<and>
        (if fv_node v w (place p) = Some Dir then rc = 0 \<and> fv_rest v w' h = fv_list v w (place p) else rc < 0)) \<and>
     (\<forall>w h rc e w'. fs_readdir fs w h = (rc, e, w') \<longrightarrow>
        same_files v w w' \<and> rc = 0 \<and>
        (case fv_rest v w h of [] \<Rightarrow> de_name e = [] | d # ds \<Rightarrow> e = d \<and> fv_rest v w' h = ds)) \<and>
     (\<forall>w h. same_files v w (fs_closedir fs w h)) \<and>
     (\<forall>w p rc w'. below_mount p \<longrightarrow> fs_mkdir fs w p = (rc, w') \<longrightarrow>
        (if fv_node v w (place p) = None \<and> fv_node v w (butlast (place p)) = Some Dir
         then rc = 0 \<and> fv_node v w' = (fv_node v w)(place p \<mapsto> Dir) \<and>
           ((\<forall>name. fv_node v w (place p @ [name]) = None) \<longrightarrow> fv_list v w' (place p) = [])
         else rc < 0 \<and> same_files v w w'))"

definition fs_file_lawful :: "'w fs_api \<Rightarrow> 'w fs_view \<Rightarrow> bool" where
  "fs_file_lawful fs v \<longleftrightarrow>
     (\<forall>w p. below_mount p \<longrightarrow> (case fv_node v w (place p) of
        None \<Rightarrow> fst (fs_stat fs w p) < 0
      | Some Dir \<Rightarrow> fst (fs_stat fs w p) = 0 \<and> de_type (snd (fs_stat fs w p)) = FS_DIR_ENTRY_DIR
      | Some (File c) \<Rightarrow> fst (fs_stat fs w p) = 0 \<and> de_type (snd (fs_stat fs w p)) = FS_DIR_ENTRY_FILE \<and>
          de_size (snd (fs_stat fs w p)) = length c)) \<and>
     (\<forall>w p rc w'. below_mount p \<longrightarrow> fs_open_append fs w p = (rc, w') \<longrightarrow> 0 \<le> rc \<longrightarrow>
        fv_node v w' = (fv_node v w)(place p \<mapsto> File (case fv_node v w (place p) of Some (File c) \<Rightarrow> c | _ \<Rightarrow> []))) \<and>
     (\<forall>w p c d rc w'. below_mount p \<longrightarrow> fs_write fs w p d = (rc, w') \<longrightarrow> fv_node v w (place p) = Some (File c) \<longrightarrow>
        0 \<le> rc \<longrightarrow> fv_node v w' = (fv_node v w)(place p \<mapsto> File (c @ take (nat rc) d))) \<and>
     (\<forall>w p. fv_node v (fs_sync fs w p) = fv_node v w \<and> fv_node v (fs_close fs w p) = fv_node v w)"

text \<open>
  Whatever an operation on a path does, and whether it succeeds or not, it touches the node
  at the path's place only; a directory is made only where nothing is, and no directory has an
  entry with a slash in its name.
\<close>

definition fs_paths_lawful :: "'w fs_api \<Rightarrow> 'w fs_view \<Rightarrow> bool" where
  "fs_paths_lawful fs v \<longleftrightarrow>
     (\<forall>w p q. q \<noteq> place p \<longrightarrow>
        fv_node v (snd (fs_unlink fs w p)) q = fv_node v w q \<and>
        fv_node v (snd (fs_mkdir fs w p)) q = fv_node v w q \<and>
        fv_node v (snd (fs_open_append fs w p)) q = fv_node v w q \<and>
        (\<forall>d. fv_node v (snd (fs_write fs w p d)) q = fv_node v w q)) \<and>
     (\<forall>w p q. fv_node v (snd (fs_mkdir fs w p)) q = fv_node v w q \<or>
        fv_node v w q = None \<and> fv_node v (snd (fs_mkdir fs w p)) q = Some Dir) \<and>
     (\<forall>w p. fv_node v (fs_sync fs w p) = fv_node v w \<and> fv_node v (fs_close fs w p) = fv_node v w \<and>
        fv_node v (snd (snd (fs_opendir fs w p))) = fv_node v w) \<and>
     (\<forall>w h. fv_node v (snd (snd (fs_readdir fs w h))) = fv_node v w \<and> fv_node v (fs_closedir fs w h) = fv_node v w \<and>
        CHR ''/'' \<notin> set (de_name (fst (snd (fs_readdir fs w h)))))"

section \<open>An instance\<close>

text \<open>
  A world of places with their nodes, in which a directory lists the places one component
  below it, and the open directory handles with what they still have to deliver.
\<close>

record demo_fsw =
  df_nodes :: "(string list \<times> fs_node) list"
  df_open :: "(nat \<times> fs_dirent list) list"

definition demo_node :: "demo_fsw \<Rightarrow> string list \<Rightarrow> fs_node option" where
  "demo_node w q = map_of (df_nodes w) q"

definition demo_dirent :: "string \<Rightarrow> fs_node \<Rightarrow> fs_dirent" where
  "demo_dirent name n =
     (case n of File c \<Rightarrow> \<lparr>de_type = FS_DIR_ENTRY_FILE, de_name = name, de_size = length c\<rparr>
      | Dir \<Rightarrow> \<lparr>de_type = FS_DIR_ENTRY_DIR, de_name = name, de_size = 0\<rparr>)"

definition demo_list :: "demo_fsw \<Rightarrow> string list \<Rightarrow> fs_dirent list" where
  "demo_list w q =
     (if demo_node w q = Some Dir
      then List.map_filter (\<lambda>(r, n). if r \<noteq> [] \<and> butlast r = q \<and> CHR ''/'' \<notin> set (last r) then Some (demo_dirent (last r) n) else None)
             (AList.clearjunk (df_nodes w))
      else [])"

definition demo_rest :: "demo_fsw \<Rightarrow> nat \<Rightarrow> fs_dirent list" where
  "demo_rest w h =
     filter (\<lambda>e. CHR ''/'' \<notin> set (de_name e)) (case map_of (df_open w) h of Some es \<Rightarrow> es | None \<Rightarrow> [])"

definition demo_view :: "demo_fsw fs_view" where
  "demo_view = \<lparr>fv_node = demo_node, fv_list = demo_list, fv_rest = demo_rest\<rparr>"

definition demo_unlink :: "demo_fsw \<Rightarrow> string \<Rightarrow> int \<times> demo_fsw" where
  "demo_unlink w p =
     (if demo_node w (place p) = None \<or> demo_list w (place p) \<noteq> [] then (- EINVAL, w)
      else (0, w\<lparr>df_nodes := AList.delete (place p) (df_nodes w)\<rparr>))"

definition demo_mkdir :: "demo_fsw \<Rightarrow> string \<Rightarrow> int \<times> demo_fsw" where
  "demo_mkdir w p =
     (if demo_node w (place p) = None \<and> demo_node w (butlast (place p)) = Some Dir
      then (0, w\<lparr>df_nodes := (place p, Dir) # df_nodes w\<rparr>) else (- EEXIST, w))"

definition demo_stat :: "demo_fsw \<Rightarrow> string \<Rightarrow> int \<times> fs_dirent" where
  "demo_stat w p = (case demo_node w (place p) of None \<Rightarrow> (- ENOENT, demo_dirent [] Dir) | Some n \<Rightarrow> (0, demo_dirent [] n))"

definition demo_open :: "demo_fsw \<Rightarrow> string \<Rightarrow> int \<times> demo_fsw" where
  "demo_open w p = (case demo_node w (place p) of
     None \<Rightarrow> (0, w\<lparr>df_nodes := (place p, File []) # df_nodes w\<rparr>) | Some Dir \<Rightarrow> (- EINVAL, w) | Some (File c) \<Rightarrow> (0, w))"

definition demo_write :: "demo_fsw \<Rightarrow> string \<Rightarrow> byte list \<Rightarrow> int \<times> demo_fsw" where
  "demo_write w p d = (case demo_node w (place p) of
     Some (File c) \<Rightarrow> (int (length d), w\<lparr>df_nodes := (place p, File (c @ d)) # df_nodes w\<rparr>) | _ \<Rightarrow> (- EINVAL, w))"

definition demo_opendir :: "demo_fsw \<Rightarrow> string \<Rightarrow> int \<times> nat \<times> demo_fsw" where
  "demo_opendir w p =
     (if demo_node w (place p) = Some Dir
      then let h = length (df_open w) in (0, h, w\<lparr>df_open := (h, demo_list w (place p)) # df_open w\<rparr>)
      else (- ENOENT, 0, w))"

definition demo_readdir :: "demo_fsw \<Rightarrow> nat \<Rightarrow> int \<times> fs_dirent \<times> demo_fsw" where
  "demo_readdir w h =
     (case demo_rest w h of [] \<Rightarrow> (0, demo_dirent [] Dir, w)
      | e # es \<Rightarrow> (0, e, w\<lparr>df_open := (h, es) # df_open w\<rparr>))"

definition demo_fs :: "demo_fsw fs_api" where
  "demo_fs = \<lparr>fs_unlink = demo_unlink, fs_mkdir = demo_mkdir, fs_stat = demo_stat,
     fs_uninit_dirent = (\<lambda>w. demo_dirent ''x'' Dir), fs_open_append = demo_open, fs_write = demo_write,
     fs_sync = (\<lambda>w p. w), fs_close = (\<lambda>w p. w), fs_opendir = demo_opendir, fs_readdir = demo_readdir,
     fs_closedir = (\<lambda>w h. w)\<rparr>"

text \<open>A file system that has failed.\<close>

definition demo_no_fs :: "'w fs_api" where
  "demo_no_fs = \<lparr>fs_unlink = (\<lambda>w p. (- EIO, w)), fs_mkdir = (\<lambda>w p. (- EIO, w)),
     fs_stat = (\<lambda>w p. (- EIO, \<lparr>de_type = FS_DIR_ENTRY_FILE, de_name = [], de_size = 0\<rparr>)),
     fs_uninit_dirent = (\<lambda>w. \<lparr>de_type = FS_DIR_ENTRY_FILE, de_name = [], de_size = 0\<rparr>),
     fs_open_append = (\<lambda>w p. (- EIO, w)), fs_write = (\<lambda>w p bs. (- EIO, w)), fs_sync = (\<lambda>w p. w), fs_close = (\<lambda>w p. w),
     fs_opendir = (\<lambda>w p. (- EIO, 0, w)), fs_readdir = (\<lambda>w d. (- EIO, \<lparr>de_type = FS_DIR_ENTRY_FILE, de_name = [], de_size = 0\<rparr>, w)),
     fs_closedir = (\<lambda>w d. w)\<rparr>"

lemma demo_list_simps [simp]: "demo_list (w\<lparr>df_open := x\<rparr>) = demo_list w" "demo_node (w\<lparr>df_open := x\<rparr>) = demo_node w"
  by (simp_all add: fun_eq_iff demo_list_def demo_node_def)

lemma child_path_inject [simp]: "child_path b x = child_path b y \<longleftrightarrow> x = y"
  by (simp add: child_path_def)

lemma de_name_demo_dirent [simp]: "de_name (demo_dirent n k) = n"
  by (simp add: demo_dirent_def split: fs_node.split)

lemma demo_node_delete: "demo_node (w\<lparr>df_nodes := AList.delete q (df_nodes w)\<rparr>) = (demo_node w)(q := None)"
  by (simp add: fun_eq_iff demo_node_def delete_conv')

lemma map_filter_filter:
  assumes "\<And>x y. x \<in> set xs \<Longrightarrow> f x = Some y \<Longrightarrow> P x \<longleftrightarrow> Q y"
  shows "List.map_filter f (filter P xs) = filter Q (List.map_filter f xs)"
  using assms by (induction xs) (auto simp: List.map_filter_simps split: option.splits)

lemma demo_list_delete:
  assumes "demo_list w r = []"
  shows "demo_list (w\<lparr>df_nodes := AList.delete r (df_nodes w)\<rparr>) q =
    (if q = r then [] else filter (\<lambda>e. q @ [de_name e] \<noteq> r) (demo_list w q))"
proof (cases "q = r \<or> demo_node w q \<noteq> Some Dir")
  case True
  then show ?thesis by (auto simp: demo_list_def demo_node_delete)
next
  case False
  let ?f = "\<lambda>(r, n). if r \<noteq> [] \<and> butlast r = q \<and> CHR ''/'' \<notin> set (last r) then Some (demo_dirent (last r) n) else None"
  have "List.map_filter ?f (filter (\<lambda>kv. fst kv \<noteq> r) (AList.clearjunk (df_nodes w))) =
      filter (\<lambda>e. q @ [de_name e] \<noteq> r) (List.map_filter ?f (AList.clearjunk (df_nodes w)))"
    by (rule map_filter_filter) (auto split: if_splits)
  moreover have "AList.clearjunk (AList.delete r (df_nodes w)) = filter (\<lambda>kv. fst kv \<noteq> r) (AList.clearjunk (df_nodes w))"
    unfolding clearjunk_delete by (auto simp: AList.delete_eq intro: filter_cong)
  ultimately show ?thesis using False by (simp add: demo_list_def demo_node_delete)
qed

lemma demo_unlink_lawful [simp]: "fs_unlink_lawful demo_fs demo_view"
proof -
  have "demo_list w q = []" if "demo_node w q \<noteq> Some Dir" for w q using that by (simp add: demo_list_def)
  then show ?thesis
    by (auto simp: fs_unlink_lawful_def demo_fs_def demo_view_def demo_unlink_def same_files_def errno
        demo_rest_def demo_node_delete demo_list_delete fun_eq_iff split: if_splits)
qed

lemma demo_list_no_children:
  assumes "\<forall>name. demo_node w (q @ [name]) = None"
  shows "demo_list w q = []"
proof -
  have "\<not> (r \<noteq> [] \<and> butlast r = q)" if "(r, n) \<in> set (AList.clearjunk (df_nodes w))" for r n
  proof
    assume r: "r \<noteq> [] \<and> butlast r = q"
    from that have "r \<in> fst ` set (df_nodes w)" by (metis dom_clearjunk fst_conv imageI)
    then have "demo_node w r \<noteq> None" by (simp add: demo_node_def map_of_eq_None_iff)
    with assms r show False by (metis append_butlast_last_id)
  qed
  then have "filter ((\<lambda>x. x \<noteq> None) \<circ> (\<lambda>(r, n).
      if r \<noteq> [] \<and> butlast r = q \<and> CHR ''/'' \<notin> set (last r) then Some (demo_dirent (last r) n) else None))
      (AList.clearjunk (df_nodes w)) = []"
    unfolding filter_empty_conv by (auto split: if_splits) blast
  then show ?thesis by (simp add: demo_list_def List.map_filter_def comp_def)
qed

lemma demo_rest_open: "demo_rest (w\<lparr>df_open := (h, es) # xs\<rparr>) h = filter (\<lambda>e. CHR ''/'' \<notin> set (de_name e)) es"
  by (simp add: demo_rest_def)

lemma demo_list_names: "filter (\<lambda>e. CHR ''/'' \<notin> set (de_name e)) (demo_list w q) = demo_list w q"
  by (auto simp: filter_id_conv demo_list_def List.map_filter_def split: if_splits)

lemma demo_rest_names:
  assumes "demo_rest w h = e # es"
  shows "CHR ''/'' \<notin> set (de_name e)" and "filter (\<lambda>e. CHR ''/'' \<notin> set (de_name e)) es = es"
proof -
  have "x \<in> set (demo_rest w h) \<Longrightarrow> CHR ''/'' \<notin> set (de_name x)" for x by (simp add: demo_rest_def)
  with assms show "CHR ''/'' \<notin> set (de_name e)" "filter (\<lambda>e. CHR ''/'' \<notin> set (de_name e)) es = es"
    by (simp_all add: filter_id_conv)
qed

lemma demo_dir_lawful [simp]: "fs_dir_lawful demo_fs demo_view"
proof -
  have "demo_list (w\<lparr>df_nodes := (q, Dir) # df_nodes w\<rparr>) q = []"
    if "\<forall>name. demo_node w (q @ [name]) = None" for w q
    using that by (intro demo_list_no_children) (auto simp: demo_node_def)
  then show ?thesis
    by (auto simp: fs_dir_lawful_def demo_fs_def demo_view_def demo_opendir_def demo_readdir_def demo_mkdir_def
        same_files_def errno demo_rest_open demo_list_names demo_rest_names Let_def split: if_splits list.splits option.splits)
      (auto simp: demo_node_def)
qed

lemma demo_paths_lawful [simp]: "fs_paths_lawful demo_fs demo_view"
proof -
  have "demo_node (snd (demo_unlink w p)) q = demo_node w q" "demo_node (snd (demo_mkdir w p)) q = demo_node w q"
    "demo_node (snd (demo_open w p)) q = demo_node w q" "demo_node (snd (demo_write w p d)) q = demo_node w q"
    if "q \<noteq> place p" for w p q d
    using that by (auto simp: demo_unlink_def demo_mkdir_def demo_open_def demo_write_def demo_node_delete)
      (auto simp: demo_node_def split: option.split fs_node.split)
  moreover have "demo_node (snd (demo_mkdir w p)) q = demo_node w q \<or>
      demo_node w q = None \<and> demo_node (snd (demo_mkdir w p)) q = Some Dir" for w p q
    by (auto simp: demo_mkdir_def) (auto simp: demo_node_def split: if_splits)
  moreover have "demo_node (snd (snd (demo_opendir w p))) = demo_node w" for w p by (simp add: demo_opendir_def Let_def)
  moreover have "demo_node (snd (snd (demo_readdir w h))) = demo_node w" for w h by (simp add: demo_readdir_def split: list.split)
  moreover have "CHR ''/'' \<notin> set (de_name (fst (snd (demo_readdir w h))))" for w h
    by (auto simp: demo_readdir_def demo_rest_names split: list.split)
  ultimately show ?thesis
    by (auto simp: fs_paths_lawful_def demo_fs_def demo_view_def)
qed

lemma demo_file_lawful [simp]: "fs_file_lawful demo_fs demo_view"
  by (auto simp: fs_file_lawful_def demo_fs_def demo_view_def demo_stat_def demo_open_def demo_write_def
      errno demo_dirent_def fun_eq_iff split: option.splits fs_node.splits)
    (auto simp: demo_node_def split: if_splits)

end
