(* ===== verification/Boot_Platform.thy ===== *)
theory Boot_Platform
  imports Demo_Platform Fs_Platform
begin

text \<open>
  The last part of the interface to code outside the repository: name lookup and the
  connection-level calls of the MQTT client, which call the event handler of the client
  back, and what the boot code uses: threads, the HTTP server, network interface, LED,
  flash and mounting. The client calls take the handler as an argument, as the code hands
  it over in \<open>client->evt_cb\<close>; its state is the handler's static variable and the world.
\<close>

section \<open>Connecting\<close>

record sockaddr_in =
  sin_addr :: "byte list"
  sin_port :: u16

type_synonym ('e, 's) callback = "'e \<Rightarrow> 's \<Rightarrow> 's"

text \<open>
  \<open>getaddrinfo\<close> gives the return code and the first result; \<open>'c\<close> is the type of the client
  structure, \<open>'e\<close> that of the events and \<open>'s\<close> that of the handler's state with the world.
\<close>

record ('w, 'c, 'e, 's) mqtt_net_api =
  getaddrinfo :: "'w \<Rightarrow> string \<Rightarrow> int \<times> sockaddr_in \<times> 'w"
  mqtt_connect :: "('e, 's) callback \<Rightarrow> 'c \<Rightarrow> 's \<Rightarrow> int \<times> 's"
  mqtt_input :: "('e, 's) callback \<Rightarrow> 's \<Rightarrow> int \<times> 's"
  mqtt_live :: "('e, 's) callback \<Rightarrow> 's \<Rightarrow> int \<times> 's"
  mqtt_disconnect :: "('e, 's) callback \<Rightarrow> 's \<Rightarrow> int \<times> 's"

section \<open>Booting\<close>

datatype app_thread = Io_Thread | Mqtt_Thread | Ha_Thread

record 'w boot_api =
  k_thread_create :: "'w \<Rightarrow> app_thread \<Rightarrow> 'w"
  http_server_start :: "'w \<Rightarrow> 'w"
  led_is_ready :: "'w \<Rightarrow> bool"
  led_configure :: "'w \<Rightarrow> int \<times> 'w"
  led_toggle :: "'w \<Rightarrow> int \<times> 'w"
  flash_is_ready :: "'w \<Rightarrow> bool"
  entropy_is_ready :: "'w \<Rightarrow> bool"
  add_ipv4_callback :: "'w \<Rightarrow> 'w"
    \<comment> \<open>\<open>net_mgmt_init_event_callback\<close> and \<open>net_mgmt_add_event_callback\<close>\<close>
  stm32_uid :: "u32 \<times> u32 \<times> u32"
  settings_subsys_init :: "'w \<Rightarrow> 'w"
  settings_load :: "'w \<Rightarrow> 'w"
  net_if_down :: "'w \<Rightarrow> 'w"
  net_if_up :: "'w \<Rightarrow> 'w"
  net_set_mac :: "'w \<Rightarrow> byte list \<Rightarrow> 'w"
  net_dhcpv4_start :: "'w \<Rightarrow> 'w"
  fs_mount :: "'w \<Rightarrow> int \<times> 'w"
  fs_mkfs :: "'w \<Rightarrow> int \<times> 'w"
  flash_area_open :: "'w \<Rightarrow> u8 \<Rightarrow> int \<times> nat \<times> 'w"
    \<comment> \<open>return code and the area's size\<close>
  flash_area_erase :: "'w \<Rightarrow> u8 \<Rightarrow> nat \<Rightarrow> nat \<Rightarrow> int \<times> 'w"
  flash_area_close :: "'w \<Rightarrow> u8 \<Rightarrow> 'w"
  sys_reboot :: "'w \<Rightarrow> 'w"

text \<open>The threads created so far.\<close>

definition threads_lawful :: "'w boot_api \<Rightarrow> ('w \<Rightarrow> app_thread list) \<Rightarrow> bool" where
  "threads_lawful bt created \<longleftrightarrow>
     (\<forall>w t. created (k_thread_create bt w t) = created w @ [t]) \<and>
     (\<forall>w. created (http_server_start bt w) = created w)"

section \<open>Files that are not appended to\<close>

text \<open>
  \<open>fs_open (file, path, FS_O_CREATE | FS_O_RDWR)\<close> keeps the content and puts the position at
  the front; \<open>fs_write_front\<close> is the first write on such a handle.
\<close>

record 'w fs_rw_api =
  fs_open_rw :: "'w \<Rightarrow> string \<Rightarrow> int \<times> 'w"
  fs_write_front :: "'w \<Rightarrow> string \<Rightarrow> byte list \<Rightarrow> int \<times> 'w"
  fs_close_rw :: "'w \<Rightarrow> string \<Rightarrow> 'w"

definition fs_rw_lawful :: "'w fs_rw_api \<Rightarrow> 'w fs_view \<Rightarrow> bool" where
  "fs_rw_lawful rw v \<longleftrightarrow>
     (\<forall>w p rc w'. below_mount p \<longrightarrow> fs_open_rw rw w p = (rc, w') \<longrightarrow> 0 \<le> rc \<longrightarrow>
        fv_node v w' = (fv_node v w)(place p \<mapsto> File (case fv_node v w (place p) of Some (File c) \<Rightarrow> c | _ \<Rightarrow> []))) \<and>
     (\<forall>w p c d rc w'. below_mount p \<longrightarrow> fs_write_front rw w p d = (rc, w') \<longrightarrow> fv_node v w (place p) = Some (File c) \<longrightarrow>
        0 \<le> rc \<longrightarrow> fv_node v w' = (fv_node v w)(place p \<mapsto> File (overlay (take (nat rc) d) c))) \<and>
     (\<forall>w p. fv_node v (fs_close_rw rw w p) = fv_node v w)"

section \<open>Instances\<close>

text \<open>The demo client connects at once and has no events to deliver.\<close>

definition demo_net :: "(demo_world, 'c, 'e, 's \<times> demo_world) mqtt_net_api" where
  "demo_net = \<lparr>getaddrinfo = (\<lambda>w host. (0, \<lparr>sin_addr = [CHR 0x0A, CHR 0x00, CHR 0x00, CHR 0x01], sin_port = 0\<rparr>, w)),
     mqtt_connect = (\<lambda>cb c s. (0, s)), mqtt_input = (\<lambda>cb s. (- EAGAIN, s)), mqtt_live = (\<lambda>cb s. (- EAGAIN, s)),
     mqtt_disconnect = (\<lambda>cb s. (0, s))\<rparr>"

definition demo_rw :: "demo_fsw fs_rw_api" where
  "demo_rw = \<lparr>fs_open_rw = demo_open,
     fs_write_front = (\<lambda>w p d. case demo_node w (place p) of
        Some (File c) \<Rightarrow> (int (length d), w\<lparr>df_nodes := (place p, File (overlay d c)) # df_nodes w\<rparr>) | _ \<Rightarrow> (- EINVAL, w)),
     fs_close_rw = (\<lambda>w p. w)\<rparr>"

definition demo_bt :: "'w boot_api" where
  "demo_bt = \<lparr>k_thread_create = (\<lambda>w t. w), http_server_start = (\<lambda>w. w), led_is_ready = (\<lambda>w. True),
     led_configure = (\<lambda>w. (0, w)), led_toggle = (\<lambda>w. (0, w)), flash_is_ready = (\<lambda>w. True), entropy_is_ready = (\<lambda>w. True),
     add_ipv4_callback = (\<lambda>w. w), stm32_uid = (1, 2, 3), settings_subsys_init = (\<lambda>w. w), settings_load = (\<lambda>w. w),
     net_if_down = (\<lambda>w. w), net_if_up = (\<lambda>w. w), net_set_mac = (\<lambda>w m. w), net_dhcpv4_start = (\<lambda>w. w),
     fs_mount = (\<lambda>w. (0, w)), fs_mkfs = (\<lambda>w. (0, w)), flash_area_open = (\<lambda>w i. (0, 0, w)),
     flash_area_erase = (\<lambda>w i a b. (0, w)), flash_area_close = (\<lambda>w i. w), sys_reboot = (\<lambda>w. w)\<rparr>"

definition demo_no_rw :: "'w fs_rw_api" where
  "demo_no_rw = \<lparr>fs_open_rw = (\<lambda>w p. (- EIO, w)), fs_write_front = (\<lambda>w p d. (- EIO, w)), fs_close_rw = (\<lambda>w p. w)\<rparr>"

lemma demo_rw_lawful [simp]: "fs_rw_lawful demo_rw demo_view"
  by (auto simp: fs_rw_lawful_def demo_rw_def demo_view_def demo_open_def errno fun_eq_iff
      split: option.splits fs_node.splits)
    (auto simp: demo_node_def split: if_splits)

end
