(* ===== verification/Thread_Loop.thy ===== *)
theory Thread_Loop
  imports Device_Platform
begin

text \<open>
  The firmware's threads are endless loops that share the world with the other threads.
  Here a thread is the body of its loop, a function on its local variables and the world;
  between two turns the others may change the world. A reachable state is one that some
  interleaving of turns and such changes leads to, and the locale \<open>thread_loop\<close> is the
  contract of an invariant: what every turn and every change by the others keeps.
\<close>

inductive loop_reach ::
  "('c \<times> 'w \<Rightarrow> 'c \<times> 'w) \<Rightarrow> ('w \<Rightarrow> 'w \<Rightarrow> bool) \<Rightarrow> 'c \<times> 'w \<Rightarrow> 'c \<times> 'w \<Rightarrow> bool"
  for body env s0 where
  start: "loop_reach body env s0 s0"
| turn: "loop_reach body env s0 s \<Longrightarrow> loop_reach body env s0 (body s)"
| others: "loop_reach body env s0 (c, w) \<Longrightarrow> env w w' \<Longrightarrow> loop_reach body env s0 (c, w')"

inductive_cases loop_reachE: "loop_reach body env s0 s"

lemma loop_reach_trans:
  "loop_reach body env s1 s2 \<Longrightarrow> loop_reach body env s0 s1 \<Longrightarrow> loop_reach body env s0 s2"
  by (induction rule: loop_reach.induct) (auto intro: loop_reach.intros)

lemma loop_reach_body:
  "loop_reach body env (body s0) s \<Longrightarrow> loop_reach body env s0 s"
  by (erule loop_reach_trans) (intro loop_reach.turn loop_reach.start)

locale thread_loop =
  fixes body :: "'c \<times> 'w \<Rightarrow> 'c \<times> 'w"
    and env :: "'w \<Rightarrow> 'w \<Rightarrow> bool"
    and inv :: "'c \<times> 'w \<Rightarrow> bool"
  assumes body_inv: "inv s \<Longrightarrow> inv (body s)"
    and env_inv: "inv (c, w) \<Longrightarrow> env w w' \<Longrightarrow> inv (c, w')"
begin

lemma reachable: "loop_reach body env s0 s \<Longrightarrow> inv s0 \<Longrightarrow> inv s"
  by (induction rule: loop_reach.induct) (auto intro: body_inv env_inv)

end

end
