(* ===== verification/Rest_Settings.thy ===== *)
theory Rest_Settings
  imports Rest_Relays
begin

text \<open>
  The settings endpoints: the "reboot required" flag of \<open>http_common.c\<close> with
  \<open>settings_status.c\<close>, the safe relay state of \<open>default_relay_state.c\<close> and the broker
  settings of \<open>mqtt_settings.c\<close>. The state of the last two is the world, the flag (which
  all handlers share) and their statics.
\<close>

section \<open>The reboot flag\<close>

definition http_settings_status_set_updated :: "int \<Rightarrow> int" where
  "http_settings_status_set_updated updated = 1"

definition http_settings_status_get :: "int \<Rightarrow> int" where
  "http_settings_status_get updated = updated"

text \<open>Body, length and final flag without a status: the server then sends its default, 200.\<close>

definition respond_body :: "http_response_ctx \<Rightarrow> buffer \<Rightarrow> nat \<Rightarrow> http_response_ctx" where
  "respond_body r buf len = r\<lparr>resp_body := buf, resp_body_len := len, resp_final := True\<rparr>"

lemma respond_body_simps [simp]:
  "resp_status (respond_body r buf len) = resp_status r"
  "resp_text (respond_body r buf len) = take len buf"
  by (simp_all add: respond_body_def resp_text_def)

definition settings_handler_get ::
  "http_data_status \<Rightarrow> http_response_ctx \<Rightarrow> int \<Rightarrow> buffer \<Rightarrow> (int \<times> http_response_ctx) \<times> buffer" where
  "settings_handler_get status resp updated resp_buf =
     (if status = HTTP_SERVER_DATA_FINAL then
        let text = (if http_settings_status_get updated \<noteq> 0 then ''{\"reboot_required\": true}''
                    else ''{\"reboot_required\": false}'');
            buf = snprintf_into resp_buf 64 text
        in ((0, respond_body resp buf (strlen buf)), buf)
      else ((0, resp), resp_buf))"

section \<open>The safe relay state\<close>

type_synonym 'w settings_core = "'w \<times> int \<times> buffer"

definition settings_init :: "'w \<Rightarrow> int \<Rightarrow> 'w settings_core \<times> post_ctx" where
  "settings_init w updated = ((w, updated, zeros 256), post_ctx_init 256)"

definition app_settings_def_relay_state_update :: "'w sys_api \<Rightarrow> 'w \<Rightarrow> relays_def_state \<Rightarrow> 'w" where
  "app_settings_def_relay_state_update sys w state =
     save_all sys
       [(def_relays_state_enable_settings_topik, [bool_byte (rd_enabled state)]),
        (def_relays1_state_settings_topik, [bool_byte (rd_relay1 state)]),
        (def_relays2_state_settings_topik, [bool_byte (rd_relay2 state)]),
        (def_relays3_state_settings_topik, [bool_byte (rd_relay3 state)])] w"

text \<open>A boolean member read from the settings; it keeps its value when nothing is stored.\<close>

definition load_bool_setting :: "'w sys_api \<Rightarrow> 'w \<Rightarrow> string \<Rightarrow> bool \<Rightarrow> bool" where
  "load_bool_setting sys w key old = load_bool (snd (settings_load_one sys w key 1)) old"

definition load_relays_def :: "'w sys_api \<Rightarrow> 'w \<Rightarrow> relays_def_state" where
  "load_relays_def sys w =
     \<lparr>rd_enabled = load_bool_setting sys w def_relays_state_enable_settings_topik False,
      rd_relay1 = load_bool_setting sys w def_relays1_state_settings_topik False,
      rd_relay2 = load_bool_setting sys w def_relays2_state_settings_topik False,
      rd_relay3 = load_bool_setting sys w def_relays3_state_settings_topik False\<rparr>"

definition relays_def_state_descr :: json_descr where
  "relays_def_state_descr =
     [(''enabled'', JSON_TOK_TRUE), (''relay1'', JSON_TOK_TRUE),
      (''relay2'', JSON_TOK_TRUE), (''relay3'', JSON_TOK_TRUE)]"

definition relays_def_text :: "relays_def_state \<Rightarrow> string" where
  "relays_def_text s =
     ''{\"enabled\": '' @ json_bool (rd_enabled s) @ '', \"relay1\": '' @ json_bool (rd_relay1 s) @
     '', \"relay2\": '' @ json_bool (rd_relay2 s) @ '', \"relay3\": '' @ json_bool (rd_relay3 s) @ ''}''"

definition def_relay_state_post ::
  "'w sys_api \<Rightarrow> http_response_ctx \<Rightarrow> byte list \<Rightarrow> 'w settings_core
     \<Rightarrow> (int \<times> http_response_ctx) \<times> 'w settings_core" where
  "def_relay_state_post sys resp body c =
     (let (w, updated0, resp_buf) = c;
          updated = http_settings_status_set_updated updated0;
          (ret, vs) = json_obj_parse sys relays_def_state_descr body
      in if ret \<noteq> bit_mask (length relays_def_state_descr)
         then ((0, invalid_json resp), (w, updated, resp_buf))
         else let tmp = \<lparr>rd_enabled = field_bool (vs ! 0) False, rd_relay1 = field_bool (vs ! 1) False,
                         rd_relay2 = field_bool (vs ! 2) False, rd_relay3 = field_bool (vs ! 3) False\<rparr>;
                  w' = app_settings_def_relay_state_update sys w tmp;
                  text = relays_def_text tmp;
                  buf = snprintf_into resp_buf 256 text
              in if 256 \<le> length text then ((0, format_error resp), (w', updated, buf))
                 else ((0, respond_buf resp HTTP_200_OK buf (length text)), (w', updated, buf)))"

definition settings_def_relay_state_handler ::
  "'w sys_api \<Rightarrow> http_client_ctx \<Rightarrow> http_data_status \<Rightarrow> http_request_ctx \<Rightarrow> http_response_ctx
     \<Rightarrow> 'w settings_core \<times> post_ctx \<Rightarrow> (int \<times> http_response_ctx) \<times> ('w settings_core \<times> post_ctx)" where
  "settings_def_relay_state_handler sys client status req resp s =
     (if req_method client = HTTP_GET then
        let ((w, updated, resp_buf), pc) = s;
            buf = (if status = HTTP_SERVER_DATA_FINAL
                   then snprintf_into resp_buf 256 (relays_def_text (load_relays_def sys w)) else resp_buf)
        in ((0, respond_body resp buf (strlen buf)), ((w, updated, buf), pc))
      else if req_method client = HTTP_POST then
        post_step (def_relay_state_post sys resp) (\<lambda>rc. (rc, resp)) status (req_data req) s
      else ((- 1, resp), s))"

section \<open>The broker settings\<close>

definition mqtt_settings_zero :: mqtt_settings_t where
  "mqtt_settings_zero = \<lparr>ms_changed = False, ms_enabled = False, ms_secure = False,
     ms_host = zeros 128, ms_port = 0, ms_user = zeros 128, ms_pass = zeros 128\<rparr>"

definition app_settings_mqtt_update :: "'w sys_api \<Rightarrow> 'w \<Rightarrow> mqtt_settings_t \<Rightarrow> 'w" where
  "app_settings_mqtt_update sys w mqtt =
     save_all sys
       [(mqtt_enabled_settings, [bool_byte (ms_enabled mqtt)]),
        (mqtt_host_settings, ms_host mqtt),
        (mqtt_port_settings, u16_bytes (ms_port mqtt)),
        (mqtt_user_settings, ms_user mqtt),
        (mqtt_pass_settings, ms_pass mqtt)] w"

text \<open>The five loads, over what the structure holds; the GET branch runs them twice.\<close>

definition load_mqtt_fields :: "'w sys_api \<Rightarrow> 'w \<Rightarrow> mqtt_settings_t \<Rightarrow> mqtt_settings_t" where
  "load_mqtt_fields sys w m =
     m\<lparr>ms_enabled := load_bool_setting sys w mqtt_enabled_settings (ms_enabled m),
       ms_host := overlay (snd (settings_load_one sys w mqtt_host_settings 128)) (ms_host m),
       ms_port := bytes_u16 (overlay (snd (settings_load_one sys w mqtt_port_settings 2)) (u16_bytes (ms_port m))),
       ms_user := overlay (snd (settings_load_one sys w mqtt_user_settings 128)) (ms_user m),
       ms_pass := overlay (snd (settings_load_one sys w mqtt_pass_settings 128)) (ms_pass m)\<rparr>"

definition app_settings_mqtt_load :: "'w sys_api \<Rightarrow> 'w \<Rightarrow> mqtt_settings_t" where
  "app_settings_mqtt_load sys w = load_mqtt_fields sys w mqtt_settings_zero"

definition mqtt_settings_descr :: json_descr where
  "mqtt_settings_descr =
     [(''enabled'', JSON_TOK_TRUE), (''host'', JSON_TOK_STRING_BUF 128), (''port'', JSON_TOK_INT),
      (''user'', JSON_TOK_STRING_BUF 128), (''pass'', JSON_TOK_STRING_BUF 128)]"

definition mqtt_text :: "mqtt_settings_t \<Rightarrow> string \<Rightarrow> string" where
  "mqtt_text m stars =
     ''{\"enabled\": '' @ json_bool (ms_enabled m) @ '', \"host\": \"'' @ cstr (ms_host m) @
     ''\", \"port\": '' @ int_dec (uint (ms_port m)) @ '', \"user\": \"'' @ cstr (ms_user m) @
     ''\", \"pass\": \"'' @ stars @ ''\"}''"

definition mqtt_settings_post ::
  "'w sys_api \<Rightarrow> http_response_ctx \<Rightarrow> byte list \<Rightarrow> 'w settings_core
     \<Rightarrow> (int \<times> http_response_ctx) \<times> 'w settings_core" where
  "mqtt_settings_post sys resp body c =
     (let (w, updated0, resp_buf) = c;
          updated = http_settings_status_set_updated updated0;
          (ret, vs) = json_obj_parse sys mqtt_settings_descr body
      in if ret \<noteq> bit_mask (length mqtt_settings_descr)
         then ((0, invalid_json resp), (w, updated, resp_buf))
         else let tmp = mqtt_settings_zero
                    \<lparr>ms_enabled := field_bool (vs ! 0) False, ms_host := field_str (vs ! 1) (zeros 128),
                     ms_port := of_int (field_int (vs ! 2) 0), ms_user := field_str (vs ! 3) (zeros 128),
                     ms_pass := field_str (vs ! 4) (zeros 128)\<rparr>;
                  w' = app_settings_mqtt_update sys w tmp;
                  text = mqtt_text tmp (if strlen (ms_pass tmp) \<noteq> 0 then ''****'' else '''');
                  buf = snprintf_into resp_buf 256 text
              in if 256 \<le> length text then ((0, format_error resp), (w', updated, buf))
                 else ((0, respond_buf resp HTTP_200_OK buf (length text)), (w', updated, buf)))"

definition settings_mqtt_handler ::
  "'w sys_api \<Rightarrow> http_client_ctx \<Rightarrow> http_data_status \<Rightarrow> http_request_ctx \<Rightarrow> http_response_ctx
     \<Rightarrow> 'w settings_core \<times> post_ctx \<Rightarrow> (int \<times> http_response_ctx) \<times> ('w settings_core \<times> post_ctx)" where
  "settings_mqtt_handler sys client status req resp s =
     (if req_method client = HTTP_GET then
        (if status = HTTP_SERVER_DATA_FINAL then
           let ((w, updated, resp_buf), pc) = s;
               m = load_mqtt_fields sys w (app_settings_mqtt_load sys w);
               text = mqtt_text m (if strlen (ms_user m) \<noteq> 0 then ''*****'' else '''');
               buf = snprintf_into resp_buf 256 text
           in if 256 \<le> length text then ((0, format_error resp), ((w, updated, buf), pc))
              else ((0, respond_buf resp HTTP_200_OK buf (strlen buf)), ((w, updated, buf), pc))
         else ((0, resp), s))
      else if req_method client = HTTP_POST then
        post_step (mqtt_settings_post sys resp) (\<lambda>rc. (rc, resp)) status (req_data req) s
      else ((- 1, resp), s))"

section \<open>Receivers of bodies\<close>

definition def_relay_step ::
  "'w sys_api \<Rightarrow> http_response_ctx \<Rightarrow> http_data_status \<Rightarrow> byte list \<Rightarrow> 'w settings_core \<times> post_ctx
     \<Rightarrow> (int \<times> http_response_ctx) \<times> ('w settings_core \<times> post_ctx)" where
  "def_relay_step sys resp status d = settings_def_relay_state_handler sys post_client status (with_body d) resp"

definition mqtt_step ::
  "'w sys_api \<Rightarrow> http_response_ctx \<Rightarrow> http_data_status \<Rightarrow> byte list \<Rightarrow> 'w settings_core \<times> post_ctx
     \<Rightarrow> (int \<times> http_response_ctx) \<times> ('w settings_core \<times> post_ctx)" where
  "mqtt_step sys resp status d = settings_mqtt_handler sys post_client status (with_body d) resp"

lemma def_relay_step_eq:
  "def_relay_step sys resp = post_step (def_relay_state_post sys resp) (\<lambda>rc. (rc, resp))"
  by (intro ext) (simp add: def_relay_step_def settings_def_relay_state_handler_def)

lemma mqtt_step_eq: "mqtt_step sys resp = post_step (mqtt_settings_post sys resp) (\<lambda>rc. (rc, resp))"
  by (intro ext) (simp add: mqtt_step_def settings_mqtt_handler_def)

interpretation def_relay: body_receiver "def_relay_step sys resp" "\<lambda>s. post_inv 256 (snd s)"
    "\<lambda>s. post_pending (snd s)" fst "def_relay_state_post sys resp" 256 for sys resp
  unfolding def_relay_step_eq by (rule post_step_receiver)

interpretation mqtt_set: body_receiver "mqtt_step sys resp" "\<lambda>s. post_inv 256 (snd s)"
    "\<lambda>s. post_pending (snd s)" fst "mqtt_settings_post sys resp" 256 for sys resp
  unfolding mqtt_step_eq by (rule post_step_receiver)

lemma settings_init_props [simp]:
  "post_inv 256 (snd (settings_init w u))" "post_pending (snd (settings_init w u)) = []"
  "fst (settings_init w u) = (w, u, zeros 256)"
  by (simp_all add: settings_init_def)

section \<open>What is stored and loaded\<close>

lemma load_bool_setting_saved:
  assumes "settings_lawful sys" and "saves_succeed sys" and "[] \<notin> snd ` set kvs"
    and "distinct (map fst kvs)" and "(k, [bool_byte b]) \<in> set kvs"
  shows "load_bool_setting sys (save_all sys kvs w) k old = b"
  using save_all_load [OF assms, of 1 w] by (simp add: load_bool_setting_def)

lemma load_relays_def_saved:
  assumes "settings_lawful sys" and "saves_succeed sys"
  shows "load_relays_def sys (app_settings_def_relay_state_update sys w s) = s"
proof -
  let ?kvs = "[(def_relays_state_enable_settings_topik, [bool_byte (rd_enabled s)]),
    (def_relays1_state_settings_topik, [bool_byte (rd_relay1 s)]),
    (def_relays2_state_settings_topik, [bool_byte (rd_relay2 s)]),
    (def_relays3_state_settings_topik, [bool_byte (rd_relay3 s)])]"
  have ne: "[] \<notin> snd ` set ?kvs" and d: "distinct (map fst ?kvs)" by (simp_all add: settings_keys)
  note load = load_bool_setting_saved [OF assms ne d]
  have "load_bool_setting sys (save_all sys ?kvs w) def_relays_state_enable_settings_topik False = rd_enabled s"
    and "load_bool_setting sys (save_all sys ?kvs w) def_relays1_state_settings_topik False = rd_relay1 s"
    and "load_bool_setting sys (save_all sys ?kvs w) def_relays2_state_settings_topik False = rd_relay2 s"
    and "load_bool_setting sys (save_all sys ?kvs w) def_relays3_state_settings_topik False = rd_relay3 s"
    by (rule load, simp)+
  then show ?thesis by (simp add: load_relays_def_def app_settings_def_relay_state_update_def)
qed

text \<open>Settings of declared sizes, as every request builds them.\<close>

definition mqtt_settings_wf :: "mqtt_settings_t \<Rightarrow> bool" where
  "mqtt_settings_wf m \<longleftrightarrow> \<not> ms_changed m \<and> \<not> ms_secure m \<and>
     length (ms_host m) = 128 \<and> length (ms_user m) = 128 \<and> length (ms_pass m) = 128"

lemma length_u16_bytes [simp]: "length (u16_bytes x) = 2"
  by (simp add: u16_bytes_def)

lemma load_mqtt_fields_saved:
  assumes "settings_lawful sys" and "saves_succeed sys" and "mqtt_settings_wf m" and "mqtt_settings_wf m0"
  shows "load_mqtt_fields sys (app_settings_mqtt_update sys w m) m0 = m"
proof -
  let ?kvs = "[(mqtt_enabled_settings, [bool_byte (ms_enabled m)]), (mqtt_host_settings, ms_host m),
    (mqtt_port_settings, u16_bytes (ms_port m)), (mqtt_user_settings, ms_user m), (mqtt_pass_settings, ms_pass m)]"
  have ne: "[] \<notin> snd ` set ?kvs" using assms(3) by (auto simp: mqtt_settings_wf_def u16_bytes_def)
  have d: "distinct (map fst ?kvs)" by (simp add: settings_keys)
  note load = save_all_load [OF assms(1,2) ne d]
  have "load_bool_setting sys (save_all sys ?kvs w) mqtt_enabled_settings (ms_enabled m0) = ms_enabled m"
    by (rule load_bool_setting_saved [OF assms(1,2) ne d]) simp
  moreover have "snd (settings_load_one sys (save_all sys ?kvs w) mqtt_host_settings 128) = ms_host m"
    and "snd (settings_load_one sys (save_all sys ?kvs w) mqtt_port_settings 2) = u16_bytes (ms_port m)"
    and "snd (settings_load_one sys (save_all sys ?kvs w) mqtt_user_settings 128) = ms_user m"
    and "snd (settings_load_one sys (save_all sys ?kvs w) mqtt_pass_settings 128) = ms_pass m"
    using assms(3) load [of mqtt_host_settings "ms_host m" 128 w]
      load [of mqtt_port_settings "u16_bytes (ms_port m)" 2 w]
      load [of mqtt_user_settings "ms_user m" 128 w] load [of mqtt_pass_settings "ms_pass m" 128 w]
    by (simp_all add: mqtt_settings_wf_def)
  ultimately show ?thesis
    using assms(3,4)
    by (simp add: load_mqtt_fields_def app_settings_mqtt_update_def mqtt_settings_wf_def overlay_full)
qed

lemma mqtt_settings_zero_wf [simp]: "mqtt_settings_wf mqtt_settings_zero"
  by (simp add: mqtt_settings_wf_def mqtt_settings_zero_def)

text \<open>The structure a complete body fills in.\<close>

definition posted_mqtt :: "bool \<Rightarrow> string \<Rightarrow> int \<Rightarrow> string \<Rightarrow> string \<Rightarrow> mqtt_settings_t" where
  "posted_mqtt en host port user pass =
     mqtt_settings_zero\<lparr>ms_enabled := en, ms_host := host @ NUL # drop (Suc (length host)) (zeros 128),
       ms_port := of_int port, ms_user := user @ NUL # drop (Suc (length user)) (zeros 128),
       ms_pass := pass @ NUL # drop (Suc (length pass)) (zeros 128)\<rparr>"

lemma posted_mqtt_wf:
  "length host < 128 \<Longrightarrow> length user < 128 \<Longrightarrow> length pass < 128 \<Longrightarrow>
     mqtt_settings_wf (posted_mqtt en host port user pass)"
  by (simp add: posted_mqtt_def mqtt_settings_wf_def mqtt_settings_zero_def)

lemma mqtt_descr_values:
  assumes "json_lawful sys"
    and "json_obj_parse sys mqtt_settings_descr body = (bit_mask (length mqtt_settings_descr), vs)"
  obtains en host port user pass where
    "vs = [Some (JBool en), Some (JStr host), Some (JInt port), Some (JStr user), Some (JStr pass)]"
    and "nul_free host" "length host < 128" "nul_free user" "length user < 128" "nul_free pass" "length pass < 128"
proof -
  note f = json_all_fields [OF assms]
  have "length vs = 5" using f(1) by (simp add: mqtt_settings_descr_def)
  then obtain v0 v1 v2 v3 v4 where vs: "vs = [v0, v1, v2, v3, v4]"
    by (auto simp: numeral_eq_Suc length_Suc_conv)
  obtain x0 x1 x2 x3 x4 where x: "v0 = Some x0" "v1 = Some x1" "v2 = Some x2" "v3 = Some x3" "v4 = Some x4"
    and t: "json_typed JSON_TOK_TRUE x0" "json_typed (JSON_TOK_STRING_BUF 128) x1" "json_typed JSON_TOK_INT x2"
      "json_typed (JSON_TOK_STRING_BUF 128) x3" "json_typed (JSON_TOK_STRING_BUF 128) x4"
    using f(2) [of 0] f(2) [of 1] f(2) [of 2] f(2) [of 3] f(2) [of 4]
    by (auto simp: mqtt_settings_descr_def vs)
  obtain en where "x0 = JBool en" using t(1) by (cases x0) auto
  moreover obtain host where "x1 = JStr host" "nul_free host" "length host < 128" using t(2) by (cases x1) auto
  moreover obtain port where "x2 = JInt port" using t(3) by (cases x2) auto
  moreover obtain user where "x3 = JStr user" "nul_free user" "length user < 128" using t(4) by (cases x3) auto
  moreover obtain pass where "x4 = JStr pass" "nul_free pass" "length pass < 128" using t(5) by (cases x4) auto
  ultimately show ?thesis using that vs x by blast
qed

text \<open>The state after a complete body of four booleans.\<close>

lemma def_relay_posted:
  assumes "ended es" and "length (concat ds @ d) \<le> 256"
    and "json_obj_parse sys relays_def_state_descr (concat ds @ d) =
      (bit_mask (length relays_def_state_descr),
       [Some (JBool en), Some (JBool r1), Some (JBool r2), Some (JBool r3)])"
    and "def_relay_step sys resp HTTP_SERVER_DATA_FINAL d
        (calls (def_relay_step sys resp) (es @ pieces ds) (settings_init w u)) = ((rc, r), ((w', u', b'), pc'))"
  shows "rc = 0" and "resp_status r = HTTP_200_OK" and "u' = 1"
    and "\<exists>w0. w' = app_settings_def_relay_state_update sys w0
      \<lparr>rd_enabled = en, rd_relay1 = r1, rd_relay2 = r2, rd_relay3 = r3\<rparr>"
proof -
  let ?c = "fst (calls (def_relay_step sys resp) es (settings_init w u))"
  let ?s = "\<lparr>rd_enabled = en, rd_relay1 = r1, rd_relay2 = r2, rd_relay3 = r3\<rparr>"
  have "fst (def_relay_state_post sys resp (concat ds @ d) ?c) = (rc, r)"
    and "snd (def_relay_state_post sys resp (concat ds @ d) ?c) = (w', u', b')"
    using def_relay.request_after_history [of "settings_init w u" es ds d sys resp] assms(1,2,4) by simp_all
  moreover have "length (relays_def_text ?s) < 256" by (simp add: relays_def_text_def json_bool_def)
  ultimately have "rc = 0 \<and> resp_status r = HTTP_200_OK \<and> u' = 1 \<and>
      w' = app_settings_def_relay_state_update sys (fst ?c) ?s"
    using assms(3)
    by (auto simp: def_relay_state_post_def field_bool_def http_settings_status_set_updated_def Let_def
        split: prod.splits)
  then show "rc = 0" and "resp_status r = HTTP_200_OK" and "u' = 1"
    and "\<exists>w0. w' = app_settings_def_relay_state_update sys w0 ?s" by blast+
qed

section \<open>Properties\<close>

text \<open>
  A new safe state is stored however it was delivered: after any earlier calls of which
  the last ended or aborted a request, a body with the four booleans, in any pieces of at
  most 256 bytes in all, is answered with 200; then a load of the settings, at the next
  start-up too, gives exactly these values, and the reboot flag is set.
\<close>

lemma safe_state_post_stored:
  assumes "settings_lawful sys" and "saves_succeed sys"
    and "ended es" and "length (concat ds @ d) \<le> 256"
    and "json_obj_parse sys relays_def_state_descr (concat ds @ d) =
      (bit_mask (length relays_def_state_descr),
       [Some (JBool en), Some (JBool r1), Some (JBool r2), Some (JBool r3)])"
    and "def_relay_step sys resp HTTP_SERVER_DATA_FINAL d
        (calls (def_relay_step sys resp) (es @ pieces ds) (settings_init w u)) = ((rc, r), ((w', u', b'), pc'))"
  shows "rc = 0 \<and> resp_status r = HTTP_200_OK \<and> u' = 1 \<and>
    load_relays_def sys w' = \<lparr>rd_enabled = en, rd_relay1 = r1, rd_relay2 = r2, rd_relay3 = r3\<rparr>"
  using def_relay_posted [OF assms(3-6)] load_relays_def_saved [OF assms(1,2)] by auto

lemma safe_state_post_stored_witness:
  "load_relays_def demo_sys (fst (fst (snd (def_relay_step demo_sys demo_resp HTTP_SERVER_DATA_FINAL ''01''
      (calls (def_relay_step demo_sys demo_resp) (pieces [''11'']) (settings_init demo_init 0)))))) =
    \<lparr>rd_enabled = True, rd_relay1 = True, rd_relay2 = False, rd_relay3 = True\<rparr>"
proof -
  obtain rc r w' u' b' pc' where s: "def_relay_step demo_sys demo_resp HTTP_SERVER_DATA_FINAL ''01''
      (calls (def_relay_step demo_sys demo_resp) ([] @ pieces [''11'']) (settings_init demo_init 0)) =
      ((rc, r), ((w', u', b'), pc'))" by (metis prod.collapse)
  have js: "json_obj_parse demo_sys relays_def_state_descr (concat [''11''] @ ''01'') =
      (bit_mask (length relays_def_state_descr),
       [Some (JBool True), Some (JBool True), Some (JBool False), Some (JBool True)])"
    by code_simp
  from safe_state_post_stored [OF demo_settings_lawful demo_saves_succeed ended_Nil _ js s] s
  show ?thesis by simp
qed

lemma mqtt_posted:
  assumes "settings_lawful sys" and "saves_succeed sys" and "json_lawful sys"
    and "ended es" and "length (concat ds @ d) \<le> 256"
    and "json_obj_parse sys mqtt_settings_descr (concat ds @ d) =
      (bit_mask (length mqtt_settings_descr),
       [Some (JBool en), Some (JStr host), Some (JInt port), Some (JStr user), Some (JStr pass)])"
    and "mqtt_step sys resp HTTP_SERVER_DATA_FINAL d
        (calls (mqtt_step sys resp) (es @ pieces ds) (settings_init w u)) = ((rc, r), ((w', u', b'), pc'))"
  shows "rc = 0 \<and> u' = 1 \<and> app_settings_mqtt_load sys w' = posted_mqtt en host port user pass \<and>
    cstr (ms_host (posted_mqtt en host port user pass)) = host \<and>
    uint (ms_port (posted_mqtt en host port user pass)) = port mod 65536 \<and>
    resp_status r = (if length (mqtt_text (posted_mqtt en host port user pass) (if pass = [] then [] else ''****'')) < 256
                     then HTTP_200_OK else HTTP_500_INTERNAL_SERVER_ERROR)"
proof -
  let ?c = "fst (calls (mqtt_step sys resp) es (settings_init w u))"
  let ?m = "posted_mqtt en host port user pass"
  have nf: "nul_free host" "nul_free pass" and len: "length host < 128" "length user < 128" "length pass < 128"
    by (rule mqtt_descr_values [OF assms(3,6)], simp)+
  have "fst (mqtt_settings_post sys resp (concat ds @ d) ?c) = (rc, r)"
    and "snd (mqtt_settings_post sys resp (concat ds @ d) ?c) = (w', u', b')"
    using mqtt_set.request_after_history [of "settings_init w u" es ds d sys resp] assms(4,5,7) by simp_all
  moreover have "mqtt_settings_zero\<lparr>ms_enabled := field_bool (Some (JBool en)) False,
      ms_host := field_str (Some (JStr host)) (zeros 128), ms_port := of_int (field_int (Some (JInt port)) 0),
      ms_user := field_str (Some (JStr user)) (zeros 128), ms_pass := field_str (Some (JStr pass)) (zeros 128)\<rparr> = ?m"
    by (simp add: posted_mqtt_def field_bool_def field_str_def field_int_def)
  moreover have "strlen (field_str (Some (JStr pass)) (zeros 128)) = length pass"
    using nf by (simp add: field_str_def strlen_def cstr_append_NUL)
  ultimately have "rc = 0 \<and> u' = 1 \<and> w' = app_settings_mqtt_update sys (fst ?c) ?m \<and>
      resp_status r = (if length (mqtt_text ?m (if pass = [] then [] else ''****'')) < 256
                       then HTTP_200_OK else HTTP_500_INTERNAL_SERVER_ERROR)"
    using assms(6)
    by (auto simp: mqtt_settings_post_def http_settings_status_set_updated_def Let_def format_error_def
        split: prod.splits if_splits)
  moreover have "app_settings_mqtt_load sys (app_settings_mqtt_update sys (fst ?c) ?m) = ?m"
    unfolding app_settings_mqtt_load_def
    by (rule load_mqtt_fields_saved [OF assms(1,2) posted_mqtt_wf [OF len] mqtt_settings_zero_wf])
  moreover have "cstr (ms_host ?m) = host" using nf by (simp add: posted_mqtt_def cstr_append_NUL)
  moreover have "uint (ms_port ?m) = port mod 65536"
    by (simp add: posted_mqtt_def uint_word_of_int)
  ultimately show ?thesis by simp
qed

text \<open>
  New broker settings are stored however they were delivered, and also when the
  answer is the format error: a complete body leaves in the settings the host, user and
  password it names and its port modulo 65536; the request is answered with 200 exactly
  when the echo of the settings fits the 256-byte response buffer.
\<close>

lemma mqtt_post_stored:
  assumes "settings_lawful sys" and "saves_succeed sys" and "json_lawful sys"
    and "ended es" and "length (concat ds @ d) \<le> 256"
    and "json_obj_parse sys mqtt_settings_descr (concat ds @ d) =
      (bit_mask (length mqtt_settings_descr),
       [Some (JBool en), Some (JStr host), Some (JInt port), Some (JStr user), Some (JStr pass)])"
    and "mqtt_step sys resp HTTP_SERVER_DATA_FINAL d
        (calls (mqtt_step sys resp) (es @ pieces ds) (settings_init w u)) = ((rc, r), ((w', u', b'), pc'))"
  shows "rc = 0 \<and> u' = 1 \<and> app_settings_mqtt_load sys w' = posted_mqtt en host port user pass \<and>
    cstr (ms_host (posted_mqtt en host port user pass)) = host \<and>
    uint (ms_port (posted_mqtt en host port user pass)) = port mod 65536 \<and>
    resp_status r = (if length (mqtt_text (posted_mqtt en host port user pass) (if pass = [] then [] else ''****'')) < 256
                     then HTTP_200_OK else HTTP_500_INTERNAL_SERVER_ERROR)"
  by (rule mqtt_posted [OF assms])

lemma mqtt_post_stored_witness:
  "cstr (ms_host (app_settings_mqtt_load demo_sys (fst (fst (snd (mqtt_step demo_sys demo_resp
      HTTP_SERVER_DATA_FINAL ''1h7up'' (calls (mqtt_step demo_sys demo_resp) (pieces []) (settings_init demo_init 0)))))))) = ''h''"
proof -
  obtain rc r w' u' b' pc' where s: "mqtt_step demo_sys demo_resp HTTP_SERVER_DATA_FINAL ''1h7up''
      (calls (mqtt_step demo_sys demo_resp) ([] @ pieces []) (settings_init demo_init 0)) =
      ((rc, r), ((w', u', b'), pc'))" by (metis prod.collapse)
  have js: "json_obj_parse demo_sys mqtt_settings_descr (concat [] @ ''1h7up'') =
      (bit_mask (length mqtt_settings_descr),
       [Some (JBool True), Some (JStr ''h''), Some (JInt 55), Some (JStr ''u''), Some (JStr ''p'')])"
    by code_simp
  from mqtt_post_stored [OF demo_settings_lawful demo_saves_succeed demo_json_lawful ended_Nil _ js s] s
  show ?thesis by simp
qed

text \<open>
  The settings page never shows the broker password: two worlds whose stored settings
  differ only in the password give the same response.
\<close>

lemma mqtt_get_hides_password:
  assumes "\<forall>k n. k \<noteq> mqtt_pass_settings \<longrightarrow> settings_load_one sys w1 k n = settings_load_one sys w2 k n"
  shows "fst (settings_mqtt_handler sys get_client status req resp ((w1, u, buf), pc)) =
    fst (settings_mqtt_handler sys get_client status req resp ((w2, u, buf), pc))"
proof -
  let ?m = "\<lambda>w. load_mqtt_fields sys w (app_settings_mqtt_load sys w)"
  have "settings_load_one sys w1 k n = settings_load_one sys w2 k n"
    if "k \<in> {mqtt_enabled_settings, mqtt_host_settings, mqtt_port_settings, mqtt_user_settings}" for k n
    using assms that by (auto simp: settings_keys)
  then have "ms_enabled (?m w1) = ms_enabled (?m w2)" "ms_host (?m w1) = ms_host (?m w2)"
    "ms_port (?m w1) = ms_port (?m w2)" "ms_user (?m w1) = ms_user (?m w2)"
    by (simp_all add: load_mqtt_fields_def app_settings_mqtt_load_def load_bool_setting_def)
  then have "mqtt_text (?m w1) t = mqtt_text (?m w2) t" and "ms_user (?m w1) = ms_user (?m w2)" for t
    by (simp_all add: mqtt_text_def)
  then show ?thesis by (simp add: settings_mqtt_handler_def Let_def)
qed

lemma mqtt_get_hides_password_witness:
  "fst (settings_mqtt_handler demo_sys get_client HTTP_SERVER_DATA_FINAL (with_body []) demo_resp
      ((demo_init, 0, zeros 256), post_ctx_init 256)) =
   fst (settings_mqtt_handler demo_sys get_client HTTP_SERVER_DATA_FINAL (with_body []) demo_resp
      ((snd (settings_save_one demo_sys demo_init mqtt_pass_settings ''x''), 0, zeros 256), post_ctx_init 256))"
  by (rule mqtt_get_hides_password) (simp add: load_after_save(2))

text \<open>
  A rejected settings request still asks for a reboot: a body that lacks a field changes
  no setting, yet the reboot flag is set, for the safe state and for the broker settings.
\<close>

lemma rejected_settings_set_reboot_flag:
  assumes "fst (json_obj_parse sys relays_def_state_descr body) \<noteq> bit_mask (length relays_def_state_descr)"
    and "fst (json_obj_parse sys mqtt_settings_descr body) \<noteq> bit_mask (length mqtt_settings_descr)"
    and "length body \<le> 256" and "step \<in> {def_relay_step sys resp, mqtt_step sys resp}"
  shows "\<exists>pc. step HTTP_SERVER_DATA_FINAL body (settings_init w 0) =
    ((0, invalid_json resp), ((w, 1, zeros 256), pc))"
  using assms
  by (auto simp: def_relay_step_eq mqtt_step_eq post_step_def settings_init_def post_receive_def post_ctx_init_def
      def_relay_state_post_def mqtt_settings_post_def http_settings_status_set_updated_def memcpy_at_def Let_def
      split: prod.splits)

lemma rejected_settings_set_reboot_flag_witness:
  "fst (snd (mqtt_step demo_sys demo_resp HTTP_SERVER_DATA_FINAL ''1'' (settings_init demo_init 0))) =
     (demo_init, 1, zeros 256)"
proof -
  have "fst (json_obj_parse demo_sys relays_def_state_descr ''1'') \<noteq> bit_mask (length relays_def_state_descr)"
    and "fst (json_obj_parse demo_sys mqtt_settings_descr ''1'') \<noteq> bit_mask (length mqtt_settings_descr)"
    by code_simp+
  from rejected_settings_set_reboot_flag [OF this, of "mqtt_step demo_sys demo_resp" demo_resp demo_init]
  show ?thesis by auto
qed

end
