(* ===== verification/Mqtt_Task.thy ===== *)
theory Mqtt_Task
  imports Mqtt_Callback Boot_Platform Thread_Loop Rest_Settings
begin

text \<open>
  \<open>mqtt/ha_mqtt.c\<close>: the thread that connects to the broker, subscribes and sends what waits
  in the transmit queue. Its state (\<open>mqtt_task_state\<close>) holds the static settings and client
  structure, the variables of the modules it calls (\<open>mqtt_conn_stat\<close> of the callback,
  \<open>next_mid\<close> of the adapter, the identifier of the helpers) and its locals. One step of the
  thread (\<open>mqtt_task_step\<close>) is one round of the outer loop up to the inner one, or one turn
  of the inner loop, each with the sleep that ends it. The events that the client delivers
  during a call run the handler of \<open>Mqtt_Callback\<close>.
\<close>

section \<open>State\<close>

record mqtt_client =
  cl_broker :: sockaddr_in
  cl_client_id :: string
  cl_password :: string
  cl_user_name :: string
  cl_protocol_version :: u8
  cl_rx_buf_size :: nat
  cl_tx_buf_size :: nat
  cl_secure :: bool
  cl_tls_sock :: int
  cl_peer_verify :: int
  cl_sec_tag_count :: nat
  cl_keepalive :: u16
  cl_clean_session :: bool

record mqtt_task_state =
  tk_sett :: mqtt_settings_t
  tk_conn_stat :: mqtt_status_msg_t
  tk_next_mid :: u16
  tk_helpers :: ha_helpers_state
  tk_status :: mqtt_status_msg_t
  tk_subscrabed :: bool
  tk_inner :: bool
    \<comment> \<open>the thread is in its inner loop\<close>

definition mqtt_task_init :: "mqtt_settings_t \<Rightarrow> ha_helpers_state \<Rightarrow> mqtt_task_state" where
  "mqtt_task_init sett hs = \<lparr>tk_sett = sett, tk_conn_stat = mqtt_conn_stat_init, tk_next_mid = next_mid_init,
     tk_helpers = hs, tk_status = \<lparr>mq_seq = 0, mq_enabled = True, mq_connected = False\<rparr>,
     tk_subscrabed = False, tk_inner = False\<rparr>"

type_synonym 'w net_api = "('w, mqtt_client, mqtt_evt, mqtt_status_msg_t \<times> 'w) mqtt_net_api"
type_synonym 'w handler_t = "(mqtt_evt, mqtt_status_msg_t \<times> 'w) callback"
type_synonym 'w mqtt_world = "mqtt_task_state \<times> 'w"

definition APP_MQTT_BUFFER_SIZE :: nat where "APP_MQTT_BUFFER_SIZE = 2048"
definition TLS_PEER_VERIFY_NONE :: int where "TLS_PEER_VERIFY_NONE = 0"
definition MQTT_VERSION_3_1_1 :: u8 where "MQTT_VERSION_3_1_1 = 4"

section \<open>Connecting\<close>

text \<open>The processor is little-endian.\<close>

definition htons :: "u16 \<Rightarrow> u16" where
  "htons x = word_of_nat (256 * (unat x mod 256) + unat x div 256)"

definition dns_query :: "'w net_api \<Rightarrow> string \<Rightarrow> u16 \<Rightarrow> 'w \<Rightarrow> int \<times> sockaddr_in \<times> 'w" where
  "dns_query nt host port w =
     (let (rv, addr, w') = getaddrinfo nt w host
      in if rv < 0 then (rv, addr, w') else (0, addr\<lparr>sin_port := htons port\<rparr>, w'))"

text \<open>
  \<open>None\<close>: the identifier is not set and \<open>strlen\<close> reads through a null pointer. The socket
  is assigned the value of the assignment that follows it in the source.
\<close>

definition client_init :: "ha_helpers_state \<Rightarrow> mqtt_settings_t \<Rightarrow> sockaddr_in \<Rightarrow> mqtt_client option" where
  "client_init hs sett addr =
     (case ha_mqtt_get_device_id hs of
        None \<Rightarrow> None
      | Some ident \<Rightarrow>
          Some \<lparr>cl_broker = addr, cl_client_id = ident, cl_password = cstr (ms_pass sett),
                cl_user_name = cstr (ms_user sett), cl_protocol_version = MQTT_VERSION_3_1_1,
                cl_rx_buf_size = APP_MQTT_BUFFER_SIZE, cl_tx_buf_size = APP_MQTT_BUFFER_SIZE, cl_secure = True,
                cl_tls_sock = TLS_PEER_VERIFY_NONE, cl_peer_verify = TLS_PEER_VERIFY_NONE, cl_sec_tag_count = 0,
                cl_keepalive = 30, cl_clean_session = True\<rparr>)"

text \<open>A call of the client, which may run the handler.\<close>

definition client_call ::
  "(mqtt_status_msg_t \<times> 'w \<Rightarrow> int \<times> (mqtt_status_msg_t \<times> 'w)) \<Rightarrow> 'w mqtt_world \<Rightarrow> int \<times> 'w mqtt_world" where
  "client_call f tw =
     (let (rc, (st, w)) = f (tk_conn_stat (fst tw), snd tw) in (rc, ((fst tw)\<lparr>tk_conn_stat := st\<rparr>, w)))"

definition call_failed :: "int \<Rightarrow> bool" where
  "call_failed rc \<longleftrightarrow> rc \<noteq> 0 \<and> rc \<noteq> - EAGAIN"

text \<open>\<open>mqtt_input\<close> and \<open>mqtt_live\<close>; \<open>False\<close>: the loop around them is left.\<close>

definition input_live :: "'w net_api \<Rightarrow> 'w handler_t \<Rightarrow> 'w mqtt_world \<Rightarrow> bool \<times> 'w mqtt_world" where
  "input_live nt cb s =
     (let (rc, s1) = client_call (mqtt_input nt cb) s
      in if call_failed rc then (False, s1)
         else let (rc, s2) = client_call (mqtt_live nt cb) s1 in (\<not> call_failed rc, s2))"

fun initial_wait :: "'w net_api \<Rightarrow> 'w handler_t \<Rightarrow> 'w zbus_api \<Rightarrow> 'w kernel_api \<Rightarrow> nat \<Rightarrow> 'w mqtt_world \<Rightarrow> 'w mqtt_world" where
  "initial_wait nt cb zb kn 0 s = s"
| "initial_wait nt cb zb kn (Suc i) s =
     (let (ok, (tk, w)) = input_live nt cb s
      in if \<not> ok then (tk, w)
         else let w1 = k_sleep kn w; st = chan_read (zbus_read_mqtt zb w1) (tk_status tk); tk' = tk\<lparr>tk_status := st\<rparr>
              in if mq_connected st then (tk', w1) else initial_wait nt cb zb kn i (tk', w1))"

section \<open>The thread\<close>

text \<open>One round of the outer loop up to the inner one, or to the sleep before the next round.\<close>

definition mqtt_round ::
  "'w net_api \<Rightarrow> 'w handler_t \<Rightarrow> 'w zbus_api \<Rightarrow> 'w kernel_api \<Rightarrow> 'w mqtt_world \<Rightarrow> 'w mqtt_world option" where
  "mqtt_round nt cb zb kn s =
     (let (tk, w) = s;
          (rv, addr, w1) = dns_query nt (cstr (ms_host (tk_sett tk))) (ms_port (tk_sett tk)) w
      in if rv \<noteq> 0 then Some (tk, k_sleep kn w1)
         else (case client_init (tk_helpers tk) (tk_sett tk) addr of
                 None \<Rightarrow> None
               | Some client \<Rightarrow>
                   let (rc, (tk1, w2)) = client_call (mqtt_connect nt cb client) (tk, w1)
                   in if rc \<noteq> 0 then Some (tk1, k_sleep kn w2)
                      else let st = \<lparr>mq_seq = 0, mq_enabled = True, mq_connected = False\<rparr>;
                               w3 = snd (zbus_pub_mqtt zb w2 st);
                               (tk2, w4) = initial_wait nt cb zb kn 100 (tk1\<lparr>tk_status := st\<rparr>, w3)
                           in Some (tk2\<lparr>tk_subscrabed := False, tk_inner := True\<rparr>, w4)))"

definition subscribe_step ::
  "'w net_api \<Rightarrow> 'w handler_t \<Rightarrow> 'w mqtt_api \<Rightarrow> 'w kernel_api \<Rightarrow> 'w mqtt_world \<Rightarrow> 'w mqtt_world" where
  "subscribe_step nt cb mc kn s =
     (let (tk, w) = s;
          (rc, hs) = ha_mqtt_init kn w (tk_helpers tk);
          s1 = (tk\<lparr>tk_helpers := hs\<rparr>, w);
          (tk2, w2) = (if rc < 0 then snd (client_call (mqtt_disconnect nt cb) s1) else s1);
          (rc', w3) = ha_mqtt_subscribe_topiks mc kn (tk_helpers tk2) w2
      in if rc' < 0 then snd (client_call (mqtt_disconnect nt cb) (tk2, w3))
         else (tk2\<lparr>tk_subscrabed := True\<rparr>, w3))"

text \<open>One turn of the inner loop up to its sleep; \<open>tk_inner\<close> tells whether it goes on.\<close>

definition mqtt_turn ::
  "'w net_api \<Rightarrow> 'w handler_t \<Rightarrow> 'w mqtt_api \<Rightarrow> 'w msgq_api \<Rightarrow> 'w zbus_api \<Rightarrow> 'w kernel_api \<Rightarrow> 'w mqtt_world
     \<Rightarrow> 'w mqtt_world" where
  "mqtt_turn nt cb mc mq zb kn s =
     (let (ok, (tk, w)) = input_live nt cb s
      in if \<not> ok then (tk\<lparr>tk_inner := False\<rparr>, w)
         else let st = chan_read (zbus_read_mqtt zb w) (tk_status tk); tk1 = tk\<lparr>tk_status := st\<rparr>
              in if \<not> mq_connected st then (tk1\<lparr>tk_inner := False\<rparr>, w)
                 else if tk_subscrabed tk1
                 then let (mid, w') = snd (ha_send_data_from_q_to_mqtt mc mq (tk_next_mid tk1, w))
                      in (tk1\<lparr>tk_next_mid := mid\<rparr>, w')
                 else subscribe_step nt cb mc kn (tk1, w))"

definition mqtt_task_step ::
  "'w net_api \<Rightarrow> 'w mqtt_api \<Rightarrow> 'w msgq_api \<Rightarrow> 'w zbus_api \<Rightarrow> 'w kernel_api \<Rightarrow> 'w mqtt_world \<Rightarrow> 'w mqtt_world option" where
  "mqtt_task_step nt mc mq zb kn s =
     (let cb = mqtt_evt_handler mc mq zb kn
      in if tk_inner (fst s) then let (tk, w) = mqtt_turn nt cb mc mq zb kn s in Some (tk, k_sleep kn w)
         else mqtt_round nt cb zb kn s)"

text \<open>
  The start: the settings are loaded over what the structure holds, and the two threads are
  created when they say so.
\<close>

definition app_mqtt_ha_client_init ::
  "'w sys_api \<Rightarrow> 'w boot_api \<Rightarrow> mqtt_settings_t \<times> 'w \<Rightarrow> mqtt_settings_t \<times> 'w" where
  "app_mqtt_ha_client_init sys bt s =
     (let (sett, w) = s; sett' = load_mqtt_fields sys w sett
      in if ms_enabled sett' then (sett', k_thread_create bt (k_thread_create bt w Mqtt_Thread) Ha_Thread)
         else (sett', w))"

section \<open>The session with the broker\<close>

text \<open>
  What was published, and the subscriptions of the present session. No callback-free part of
  the client publishes or subscribes: a call keeps what the handler keeps. A new connection
  starts a clean session, and a successful subscription adds its topics.
\<close>

definition cb_keeps :: "('w \<Rightarrow> 'g) \<Rightarrow> 'w handler_t \<Rightarrow> bool" where
  "cb_keeps g cb \<longleftrightarrow> (\<forall>e s. g (snd (cb e s)) = g (snd s))"

definition client_keeps :: "'w net_api \<Rightarrow> ('w \<Rightarrow> 'g) \<Rightarrow> bool" where
  "client_keeps nt g \<longleftrightarrow>
     (\<forall>cb s. cb_keeps g cb \<longrightarrow> g (snd (snd (mqtt_input nt cb s))) = g (snd s) \<and>
        g (snd (snd (mqtt_live nt cb s))) = g (snd s) \<and> g (snd (snd (mqtt_disconnect nt cb s))) = g (snd s)) \<and>
     (\<forall>w host. g (snd (snd (getaddrinfo nt w host))) = g w)"

definition session_lawful ::
  "'w net_api \<Rightarrow> 'w mqtt_api \<Rightarrow> 'w msgq_api \<Rightarrow> 'w zbus_api \<Rightarrow> 'w kernel_api \<Rightarrow>
     ('w \<Rightarrow> mqtt_publish_param list) \<Rightarrow> ('w \<Rightarrow> mqtt_topic list list) \<Rightarrow> bool" where
  "session_lawful nt mc mq zb kn sent subs \<longleftrightarrow>
     (let g = (\<lambda>w. (sent w, subs w)) in
      client_keeps nt g \<and> handler_keeps mc mq zb g \<and>
      (\<forall>w. g (k_sleep kn w) = g w) \<and> (\<forall>w. g (snd (sys_rand16_get kn w)) = g w) \<and>
      (\<forall>w. g (snd (snd (tx_get mq w))) = g w) \<and> (\<forall>w p. subs (snd (mqtt_publish mc w p)) = subs w)) \<and>
     (\<forall>cb c s rc s'. cb_keeps (\<lambda>w. (sent w, subs w)) cb \<longrightarrow> mqtt_connect nt cb c s = (rc, s') \<longrightarrow>
        sent (snd s') = sent (snd s) \<and> (rc = 0 \<longrightarrow> subs (snd s') = [])) \<and>
     (\<forall>w ts i rc w'. mqtt_subscribe mc w ts i = (rc, w') \<longrightarrow>
        sent w' = sent w \<and> subs w' = (if rc < 0 then subs w else subs w @ [ts]))"

lemma client_call_keeps:
  assumes "g (snd (snd (f (tk_conn_stat (fst s), snd s)))) = g (snd s)" and "client_call f s = (rc, s')"
  shows "g (snd s') = g (snd s)" and "\<exists>st. fst s' = (fst s)\<lparr>tk_conn_stat := st\<rparr>"
  using assms by (auto simp: client_call_def split: prod.splits)

lemma input_live_keeps:
  assumes "client_keeps nt g" and "cb_keeps g cb" and "input_live nt cb s = (ok, s')"
  shows "g (snd s') = g (snd s)" and "\<exists>st. fst s' = (fst s)\<lparr>tk_conn_stat := st\<rparr>"
proof -
  obtain rc s1 where 1: "client_call (mqtt_input nt cb) s = (rc, s1)" by (metis prod.collapse)
  obtain rc2 s2 where 2: "client_call (mqtt_live nt cb) s1 = (rc2, s2)" by (metis prod.collapse)
  have k: "g (snd (snd (mqtt_input nt cb x))) = g (snd x)" "g (snd (snd (mqtt_live nt cb x))) = g (snd x)" for x
    using assms(1,2) unfolding client_keeps_def by blast+
  note c1 = client_call_keeps [OF _ 1, of g, OF k(1) [of "(tk_conn_stat (fst s), snd s)", unfolded snd_conv]]
  note c2 = client_call_keeps [OF _ 2, of g, OF k(2) [of "(tk_conn_stat (fst s1), snd s1)", unfolded snd_conv]]
  have "s' = s1 \<or> s' = s2" using assms(3) 1 2 by (auto simp: input_live_def split: if_splits)
  then show "g (snd s') = g (snd s)" and "\<exists>st. fst s' = (fst s)\<lparr>tk_conn_stat := st\<rparr>" using c1 c2 by auto
qed

lemma initial_wait_keeps:
  assumes "client_keeps nt g" and "cb_keeps g cb" and "\<forall>w. g (k_sleep kn w) = g w"
  shows "initial_wait nt cb zb kn i s = s' \<Longrightarrow>
    g (snd s') = g (snd s) \<and> (\<exists>st cs. fst s' = (fst s)\<lparr>tk_conn_stat := cs, tk_status := st\<rparr>)"
proof (induction i arbitrary: s)
  case 0
  then show ?case by (intro conjI exI [of _ "tk_status (fst s)"] exI [of _ "tk_conn_stat (fst s)"]) simp_all
next
  case (Suc i)
  obtain ok tk w where il: "input_live nt cb s = (ok, (tk, w))" by (metis prod_cases3)
  note k = input_live_keeps [OF assms(1,2) il]
  then obtain cs where cs: "tk = (fst s)\<lparr>tk_conn_stat := cs\<rparr>" "g w = g (snd s)" by auto
  let ?st = "chan_read (zbus_read_mqtt zb (k_sleep kn w)) (tk_status tk)"
  consider "\<not> ok" "s' = (tk, w)" | "s' = (tk\<lparr>tk_status := ?st\<rparr>, k_sleep kn w)"
    | "initial_wait nt cb zb kn i (tk\<lparr>tk_status := ?st\<rparr>, k_sleep kn w) = s'"
    using Suc.prems il by (auto simp: Let_def split: if_splits)
  then show ?case
  proof cases
    case 1
    then show ?thesis using cs by (intro conjI exI [of _ "tk_status (fst s)"] exI [of _ cs]) simp_all
  next
    case 2
    then show ?thesis using cs assms(3) by auto
  next
    case 3
    from Suc.IH [OF 3] show ?thesis using cs assms(3) by auto
  qed
qed

text \<open>The invariant: in the inner loop, subscribed to the device's own commands or to nothing yet.\<close>

definition own_topics :: "byte list \<Rightarrow> mqtt_topic list" where
  "own_topics ident = map (\<lambda>n. \<lparr>mt_utf8 = command_topik_text (hex_text ident) component_switch n,
      mt_qos = MQTT_QOS_2_EXACTLY_ONCE\<rparr>) [1, 2, 3]"

definition session_inv :: "('w \<Rightarrow> mqtt_topic list list) \<Rightarrow> byte list \<Rightarrow> 'w mqtt_world \<Rightarrow> bool" where
  "session_inv subs ident s \<longleftrightarrow> helpers_inv (tk_helpers (fst s)) \<and>
     (tk_inner (fst s) \<longrightarrow> subs (snd s) = (if tk_subscrabed (fst s) then [own_topics ident] else []))"

lemma subscribe_topiks_session:
  assumes "cstr (hs_dev_identifier hs) = hex_text ident" and "length ident \<le> 15"
    and "\<And>w ts i rc w'. mqtt_subscribe mc w ts i = (rc, w') \<Longrightarrow> subs w' = (if rc < 0 then subs w else subs w @ [ts])"
    and "\<And>w ts i rc w'. mqtt_subscribe mc w ts i = (rc, w') \<Longrightarrow> sent w' = sent w"
    and "\<And>w. (sent (snd (sys_rand16_get kn w)), subs (snd (sys_rand16_get kn w))) = (sent w, subs w)"
    and "ha_mqtt_subscribe_topiks mc kn hs w = (rc, w')"
  shows "subs w' = (if rc < 0 then subs w else subs w @ [own_topics ident])" and "sent w' = sent w"
proof -
  have "subscribe_loop hs 0 device_relay_count = (0, own_topics ident)"
    using subscribe_loop_topics [OF assms(1,2), of 0 device_relay_count] upt_relays
    by (simp add: own_topics_def device_relay_count_def)
  then obtain i where "mqtt_subscribe mc (snd (sys_rand16_get kn w)) (own_topics ident) i = (rc, w')"
    using assms(6) by (auto simp: ha_mqtt_subscribe_topiks_def split: prod.splits)
  with assms(3,4,5) show "subs w' = (if rc < 0 then subs w else subs w @ [own_topics ident])" and "sent w' = sent w"
    by (metis prod.inject)+
qed


lemma session_laws:
  assumes "session_lawful nt mc mq zb kn sent subs"
  defines "g \<equiv> \<lambda>w. (sent w, subs w)" and "cb \<equiv> mqtt_evt_handler mc mq zb kn"
  shows "client_keeps nt g" and "cb_keeps g cb" and "\<forall>w. g (k_sleep kn w) = g w" and "\<And>w. g (snd (sys_rand16_get kn w)) = g w"
    and "\<And>w. g (snd (snd (tx_get mq w))) = g w" and "\<And>w p. subs (snd (mqtt_publish mc w p)) = subs w"
    and "\<And>w m. g (snd (zbus_pub_mqtt zb w m)) = g w"
    and "\<And>c s rc s'. mqtt_connect nt cb c s = (rc, s') \<Longrightarrow> sent (snd s') = sent (snd s)"
    and "\<And>c s s'. mqtt_connect nt cb c s = (0, s') \<Longrightarrow> subs (snd s') = []"
    and "\<And>w ts i rc w'. mqtt_subscribe mc w ts i = (rc, w') \<Longrightarrow> subs w' = (if rc < 0 then subs w else subs w @ [ts])"
    and "\<And>w ts i rc w'. mqtt_subscribe mc w ts i = (rc, w') \<Longrightarrow> sent w' = sent w"
    and "\<And>s. g (snd (snd (mqtt_disconnect nt cb s))) = g (snd s)" and "\<And>w host. g (snd (snd (getaddrinfo nt w host))) = g w"
proof -
  note l = assms(1) [unfolded session_lawful_def Let_def, folded g_def]
  have hk: "handler_keeps mc mq zb g" using l by blast
  show ck: "client_keeps nt g" using l by blast
  show cb: "cb_keeps g cb" using handler_keeps_world [OF hk] by (simp add: cb_keeps_def cb_def)
  show "\<forall>w. g (k_sleep kn w) = g w" "\<And>w. g (snd (sys_rand16_get kn w)) = g w"
    "\<And>w. g (snd (snd (tx_get mq w))) = g w" "\<And>w p. subs (snd (mqtt_publish mc w p)) = subs w"
    using l unfolding g_def by blast+
  show "\<And>w m. g (snd (zbus_pub_mqtt zb w m)) = g w" using hk unfolding handler_keeps_def by blast
  show "\<And>c s rc s'. mqtt_connect nt cb c s = (rc, s') \<Longrightarrow> sent (snd s') = sent (snd s)"
    "\<And>c s s'. mqtt_connect nt cb c s = (0, s') \<Longrightarrow> subs (snd s') = []" using l cb by blast+
  show "\<And>w ts i rc w'. mqtt_subscribe mc w ts i = (rc, w') \<Longrightarrow> subs w' = (if rc < 0 then subs w else subs w @ [ts])"
    "\<And>w ts i rc w'. mqtt_subscribe mc w ts i = (rc, w') \<Longrightarrow> sent w' = sent w" using l by blast+
  show "\<And>s. g (snd (snd (mqtt_disconnect nt cb s))) = g (snd s)" "\<And>w host. g (snd (snd (getaddrinfo nt w host))) = g w"
    using ck cb unfolding client_keeps_def by blast+
qed

lemma subscribe_step_session:
  assumes laws: "session_lawful nt mc mq zb kn sent subs" and hw: "hw_ident kn ident"
    and inv: "helpers_inv (tk_helpers tk)" and subs: "subs w = []"
    and st: "subscribe_step nt (mqtt_evt_handler mc mq zb kn) mc kn (tk, w) = (tk', w')" and ns: "\<not> tk_subscrabed tk"
  shows "helpers_inv (tk_helpers tk')" and "tk_inner tk' = tk_inner tk" and "sent w' = sent w"
    and "subs w' = (if tk_subscrabed tk' then [own_topics ident] else [])" and "tk_status tk' = tk_status tk"
proof -
  let ?cb = "mqtt_evt_handler mc mq zb kn"
  note sl = session_laws [OF laws]
  obtain rc hs where i: "ha_mqtt_init kn w (tk_helpers tk) = (rc, hs)" by fastforce
  note hi = ha_mqtt_init_inv [OF hw inv i]
  let ?s1 = "(tk\<lparr>tk_helpers := hs\<rparr>, w)"
  obtain tk2 w2 where 2: "(if rc < 0 then snd (client_call (mqtt_disconnect nt ?cb) ?s1) else ?s1) = (tk2, w2)" by fastforce
  have dis: "(sent (snd (snd (client_call (mqtt_disconnect nt ?cb) s))), subs (snd (snd (client_call (mqtt_disconnect nt ?cb) s)))) =
      (sent (snd s), subs (snd s))" "\<exists>cs. fst (snd (client_call (mqtt_disconnect nt ?cb) s)) = (fst s)\<lparr>tk_conn_stat := cs\<rparr>" for s
    using client_call_keeps [of "\<lambda>w. (sent w, subs w)" "mqtt_disconnect nt ?cb" s, OF _ prod.collapse [symmetric]]
      sl(12) [of "(tk_conn_stat (fst s), snd s)"] by simp_all
  have s2: "sent w2 = sent w" "subs w2 = []" "\<exists>cs. tk2 = tk\<lparr>tk_helpers := hs, tk_conn_stat := cs\<rparr>"
    using 2 dis [of ?s1] subs by (auto split: if_splits intro: exI [of _ "tk_conn_stat tk"])
  then have hs2: "tk_helpers tk2 = hs" "tk_inner tk2 = tk_inner tk" "tk_subscrabed tk2 = tk_subscrabed tk"
    "tk_status tk2 = tk_status tk" by auto
  obtain rc' w3 where 3: "ha_mqtt_subscribe_topiks mc kn hs w2 = (rc', w3)" by fastforce
  have len: "length ident \<le> 15" using hw by (simp add: hw_ident_def)
  note ss = subscribe_topiks_session [where subs = subs and sent = sent and mc = mc and kn = kn, OF hi(3) len sl(10) sl(11) sl(4) 3]
  have s': "(tk', w') = (if rc' < 0 then snd (client_call (mqtt_disconnect nt ?cb) (tk2, w3)) else (tk2\<lparr>tk_subscrabed := True\<rparr>, w3))"
    using st i 2 3 hs2(1) by (simp add: subscribe_step_def Let_def)
  have "helpers_inv (tk_helpers tk') \<and> tk_inner tk' = tk_inner tk \<and> sent w' = sent w \<and>
      subs w' = (if tk_subscrabed tk' then [own_topics ident] else []) \<and> tk_status tk' = tk_status tk"
  proof (cases "rc' < 0")
    case True
    then have "(tk', w') = snd (client_call (mqtt_disconnect nt ?cb) (tk2, w3))" using s' by simp
    then have "sent w' = sent w3" "subs w' = subs w3" "\<exists>cs. tk' = tk2\<lparr>tk_conn_stat := cs\<rparr>"
      using dis [of "(tk2, w3)"] by (metis fst_conv snd_conv prod.inject)+
    then show ?thesis using True ss s2 hs2 hi(1) ns by auto
  next
    case False
    then show ?thesis using s' ss s2 hs2 hi(1) by simp
  qed
  then show "helpers_inv (tk_helpers tk')" and "tk_inner tk' = tk_inner tk" and "sent w' = sent w"
    and "subs w' = (if tk_subscrabed tk' then [own_topics ident] else [])" and "tk_status tk' = tk_status tk" by blast+
qed


lemma send_keeps_subs:
  assumes "\<And>w. subs (snd (snd (tx_get mq w))) = subs w" and "\<And>w p. subs (snd (mqtt_publish mc w p)) = subs w"
  shows "subs (snd (snd (ha_send_data_from_q_to_mqtt mc mq (mid, w)))) = subs w"
proof -
  obtain rc m where p: "tx_peek mq w = (rc, m)" by fastforce
  obtain rc1 w1 where pub: "mqtt_publish mc w (publish_param_of m (if needs_mid m then alloc_mid mid else 0)) = (rc1, w1)"
    by fastforce
  have "subs w1 = subs w" using assms(2) pub by (metis snd_conv)
  then show ?thesis using p pub assms(1) by (auto simp: ha_send_data_from_q_to_mqtt_def Let_def)
qed

lemma mqtt_turn_session:
  assumes laws: "session_lawful nt mc mq zb kn sent subs" and hw: "hw_ident kn ident"
    and inv: "session_inv subs ident (tk, w)" and inner: "tk_inner tk"
    and t: "mqtt_turn nt (mqtt_evt_handler mc mq zb kn) mc mq zb kn (tk, w) = (tk', w')"
  shows "session_inv subs ident (tk', w')"
    and "sent w' \<noteq> sent w \<Longrightarrow> mq_connected (tk_status tk') \<and> subs w' = [own_topics ident]"
proof -
  let ?cb = "mqtt_evt_handler mc mq zb kn"
  note sl = session_laws [OF laws]
  obtain ok tk1 w1 where il: "input_live nt ?cb (tk, w) = (ok, (tk1, w1))" by (metis prod_cases3)
  have 1: "sent w1 = sent w" "subs w1 = subs w" "\<exists>st. tk1 = tk\<lparr>tk_conn_stat := st\<rparr>"
    using input_live_keeps [OF sl(1,2) il] by simp_all
  let ?st = "chan_read (zbus_read_mqtt zb w1) (tk_status tk1)"
  let ?tk = "tk1\<lparr>tk_status := ?st\<rparr>"
  have f: "tk_helpers ?tk = tk_helpers tk" "tk_subscrabed ?tk = tk_subscrabed tk" "tk_inner ?tk = True" using 1(3) inner by auto
  have i: "helpers_inv (tk_helpers tk)" "subs w1 = (if tk_subscrabed tk then [own_topics ident] else [])"
    using inv inner 1(2) by (simp_all add: session_inv_def)
  consider (left) "tk_inner tk' = False" "tk_helpers tk' = tk_helpers tk" "w' = w1"
    | (send) "ok" "mq_connected ?st" "tk_subscrabed tk" "snd (ha_send_data_from_q_to_mqtt mc mq (tk_next_mid ?tk, w1)) = (tk_next_mid tk', w')"
        "tk' = ?tk\<lparr>tk_next_mid := tk_next_mid tk'\<rparr>"
    | (subscribe) "mq_connected ?st" "\<not> tk_subscrabed tk" "subscribe_step nt ?cb mc kn (?tk, w1) = (tk', w')"
    using t il f(2) 1(3) by (auto simp: mqtt_turn_def Let_def split: if_splits prod.splits)
  then have "session_inv subs ident (tk', w') \<and>
      (sent w' \<noteq> sent w \<longrightarrow> mq_connected (tk_status tk') \<and> subs w' = [own_topics ident])"
  proof cases
    case left
    then show ?thesis using 1(1) i(1) by (simp add: session_inv_def)
  next
    case send
    have s: "tk_helpers tk' = tk_helpers tk" "tk_subscrabed tk'" "mq_connected (tk_status tk')"
      using send(2,3) f(1,2) by (subst send(5), simp)+
    have "subs w' = subs w1" using send_keeps_subs [of subs mq mc "tk_next_mid ?tk" w1] sl(5,6) send(4) by simp
    then show ?thesis using s i send(3) by (simp add: session_inv_def)
  next
    case subscribe
    have "subs w1 = []" "helpers_inv (tk_helpers ?tk)" "\<not> tk_subscrabed ?tk" using i subscribe(2) f by simp_all
    from subscribe_step_session [OF laws hw this(2,1) subscribe(3) this(3)] 1(1) show ?thesis by (simp add: session_inv_def)
  qed
  then show "session_inv subs ident (tk', w')"
    and "sent w' \<noteq> sent w \<Longrightarrow> mq_connected (tk_status tk') \<and> subs w' = [own_topics ident]" by blast+
qed

lemma mqtt_round_session:
  assumes laws: "session_lawful nt mc mq zb kn sent subs" and inv: "session_inv subs ident (tk, w)" and inner: "\<not> tk_inner tk"
    and r: "mqtt_round nt (mqtt_evt_handler mc mq zb kn) zb kn (tk, w) = Some (tk', w')"
  shows "session_inv subs ident (tk', w')" and "sent w' = sent w"
proof -
  let ?cb = "mqtt_evt_handler mc mq zb kn"
  note sl = session_laws [OF laws]
  have slp: "sent (k_sleep kn x) = sent x" "subs (k_sleep kn x) = subs x" for x using sl(3) by simp_all
  obtain rv addr w1 where d: "dns_query nt (cstr (ms_host (tk_sett tk))) (ms_port (tk_sett tk)) w = (rv, addr, w1)"
    by (metis prod_cases3)
  have w1: "sent w1 = sent w" "subs w1 = subs w"
    using d sl(13) [of w "cstr (ms_host (tk_sett tk))"] by (auto simp: dns_query_def Let_def split: if_splits prod.splits)
  have "session_inv subs ident (tk', w') \<and> sent w' = sent w"
  proof (cases "rv \<noteq> 0")
    case True
    then show ?thesis using r d w1 slp inv inner by (auto simp: mqtt_round_def session_inv_def)
  next
    case False
    then obtain client where c: "client_init (tk_helpers tk) (tk_sett tk) addr = Some client"
      using r d by (auto simp: mqtt_round_def split: option.splits)
    obtain rc st w2 where cn: "mqtt_connect nt ?cb client (tk_conn_stat tk, w1) = (rc, (st, w2))" by (metis prod_cases3)
    let ?tk1 = "tk\<lparr>tk_conn_stat := st\<rparr>"
    have call: "client_call (mqtt_connect nt ?cb client) (tk, w1) = (rc, (?tk1, w2))" using cn by (simp add: client_call_def)
    have w2: "sent w2 = sent w" using sl(8) [OF cn] w1 by simp
    show ?thesis
    proof (cases "rc \<noteq> 0")
      case True
      then show ?thesis using r d False c call w2 slp inv inner
        by (auto simp: mqtt_round_def session_inv_def)
    next
      case False
      then have subs2: "subs w2 = []" using sl(9) [of client "(tk_conn_stat tk, w1)"] cn by simp
      let ?st = "\<lparr>mq_seq = 0, mq_enabled = True, mq_connected = False\<rparr>"
      let ?s3 = "(?tk1\<lparr>tk_status := ?st\<rparr>, snd (zbus_pub_mqtt zb w2 ?st))"
      obtain tk2 w4 where iw: "initial_wait nt ?cb zb kn 100 ?s3 = (tk2, w4)" by fastforce
      have k: "sent w4 = sent w" "subs w4 = []" "tk_helpers tk2 = tk_helpers tk"
        using initial_wait_keeps [OF sl(1,2,3) iw] sl(7) [of w2 ?st] w2 subs2 by auto
      have "(tk', w') = (tk2\<lparr>tk_subscrabed := False, tk_inner := True\<rparr>, w4)"
        using r d \<open>\<not> rv \<noteq> 0\<close> c call False iw by (simp add: mqtt_round_def Let_def)
      then show ?thesis using k inv by (simp add: session_inv_def)
    qed
  qed
  then show "session_inv subs ident (tk', w')" and "sent w' = sent w" by blast+
qed


section \<open>The thread as a loop\<close>

text \<open>A step that dereferences the null pointer has no successor; the loop stays where it is.\<close>

definition mqtt_body ::
  "'w net_api \<Rightarrow> 'w mqtt_api \<Rightarrow> 'w msgq_api \<Rightarrow> 'w zbus_api \<Rightarrow> 'w kernel_api \<Rightarrow> 'w mqtt_world \<Rightarrow> 'w mqtt_world" where
  "mqtt_body nt mc mq zb kn s = (case mqtt_task_step nt mc mq zb kn s of None \<Rightarrow> s | Some s' \<Rightarrow> s')"

definition session_env :: "('w \<Rightarrow> mqtt_publish_param list) \<Rightarrow> ('w \<Rightarrow> mqtt_topic list list) \<Rightarrow> 'w \<Rightarrow> 'w \<Rightarrow> bool" where
  "session_env sent subs w w' \<longleftrightarrow> sent w' = sent w \<and> subs w' = subs w"

lemma mqtt_step_session:
  assumes laws: "session_lawful nt mc mq zb kn sent subs" and hw: "hw_ident kn ident"
    and inv: "session_inv subs ident (tk, w)" and s: "mqtt_task_step nt mc mq zb kn (tk, w) = Some (tk', w')"
  shows "session_inv subs ident (tk', w')"
    and "sent w' \<noteq> sent w \<Longrightarrow> tk_inner tk \<and> mq_connected (tk_status tk') \<and> subs w' = [own_topics ident]"
proof -
  have slp: "sent (k_sleep kn x) = sent x" "subs (k_sleep kn x) = subs x" for x using session_laws(3) [OF laws] by simp_all
  have "session_inv subs ident (tk', w') \<and>
      (sent w' \<noteq> sent w \<longrightarrow> tk_inner tk \<and> mq_connected (tk_status tk') \<and> subs w' = [own_topics ident])"
  proof (cases "tk_inner tk")
    case True
    obtain tk1 w1 where t: "mqtt_turn nt (mqtt_evt_handler mc mq zb kn) mc mq zb kn (tk, w) = (tk1, w1)" by fastforce
    then have "tk' = tk1" "w' = k_sleep kn w1" using s True by (simp_all add: mqtt_task_step_def)
    with mqtt_turn_session [OF laws hw inv True t] slp True show ?thesis by (simp add: session_inv_def)
  next
    case False
    then have "mqtt_round nt (mqtt_evt_handler mc mq zb kn) zb kn (tk, w) = Some (tk', w')"
      using s by (simp add: mqtt_task_step_def)
    from mqtt_round_session [OF laws inv False this] show ?thesis by simp
  qed
  then show "session_inv subs ident (tk', w')"
    and "sent w' \<noteq> sent w \<Longrightarrow> tk_inner tk \<and> mq_connected (tk_status tk') \<and> subs w' = [own_topics ident]" by blast+
qed

interpretation mqtt_loop: thread_loop "mqtt_body nt mc mq zb kn" "session_env sent subs"
  "\<lambda>s. session_lawful nt mc mq zb kn sent subs \<and> hw_ident kn ident \<longrightarrow> session_inv subs ident s"
  for nt mc mq zb kn sent subs ident
proof
  fix s assume i: "session_lawful nt mc mq zb kn sent subs \<and> hw_ident kn ident \<longrightarrow> session_inv subs ident s"
  obtain tk w where s: "s = (tk, w)" by fastforce
  show "session_lawful nt mc mq zb kn sent subs \<and> hw_ident kn ident \<longrightarrow> session_inv subs ident (mqtt_body nt mc mq zb kn s)"
  proof
    assume l: "session_lawful nt mc mq zb kn sent subs \<and> hw_ident kn ident"
    show "session_inv subs ident (mqtt_body nt mc mq zb kn s)"
    proof (cases "mqtt_task_step nt mc mq zb kn s")
      case None
      then show ?thesis using i l by (simp add: mqtt_body_def)
    next
      case (Some s')
      obtain tk' w' where "s' = (tk', w')" by fastforce
      with Some mqtt_step_session(1) [of nt mc mq zb kn sent subs ident tk w tk' w'] i l s show ?thesis
        by (simp add: mqtt_body_def)
    qed
  qed
next
  fix c and w w' :: 'a
  assume "session_lawful nt mc mq zb kn sent subs \<and> hw_ident kn ident \<longrightarrow> session_inv subs ident (c, w)"
    and "session_env sent subs w w'"
  then show "session_lawful nt mc mq zb kn sent subs \<and> hw_ident kn ident \<longrightarrow> session_inv subs ident (c, w')"
    by (simp add: session_inv_def session_env_def)
qed

section \<open>Properties\<close>

text \<open>
  C10. The device talks to the broker only in a session that can command it: from the start
  of the thread on, whatever the other threads and the client do, however often the
  connection is lost or a lookup, connection or subscription fails, a step that publishes a
  message is a turn of the inner loop that found the status "connected", and the session's
  one subscription names exactly the three command topics of this device.
\<close>

theorem publishes_only_when_subscribed:
  assumes "session_lawful nt mc mq zb kn sent subs" and "hw_ident kn ident" and "helpers_inv hs0"
    and "loop_reach (mqtt_body nt mc mq zb kn) (session_env sent subs) (mqtt_task_init sett hs0, w0) (tk, w)"
    and "mqtt_task_step nt mc mq zb kn (tk, w) = Some (tk', w')" and "sent w' \<noteq> sent w"
  shows "tk_inner tk \<and> mq_connected (tk_status tk') \<and> subs w' = [own_topics ident]"
proof -
  have "session_inv subs ident (mqtt_task_init sett hs0, w0)"
    using assms(3) by (simp add: session_inv_def mqtt_task_init_def)
  then have "session_inv subs ident (tk, w)"
    using mqtt_loop.reachable [OF assms(4), of ident] assms(1,2) by simp
  from mqtt_step_session(2) [OF assms(1,2) this assms(5,6)] show ?thesis .
qed

definition demo_subs_mqtt :: "(demo_world \<times> mqtt_topic list list) mqtt_api" where
  "demo_subs_mqtt = \<lparr>mqtt_publish = (\<lambda>(w, ts) p. (0, (w\<lparr>dw_published := dw_published w @ [p]\<rparr>, ts))),
     mqtt_subscribe = (\<lambda>(w, ts) t i. (0, (w, ts @ [t]))),
     mqtt_read_publish_payload = (\<lambda>s n. (0, [], s)), mqtt_reply_send = (\<lambda>s r. (0, s))\<rparr>"

definition demo_subs_msgq :: "(demo_world \<times> mqtt_topic list list) msgq_api" where
  "demo_subs_msgq = \<lparr>tx_put = (\<lambda>s m. (0, s)),
     tx_peek = (\<lambda>(w, ts). case dw_tx w of [] \<Rightarrow> (- ENOMSG, undefined) | m # _ \<Rightarrow> (0, m)),
     tx_get = (\<lambda>(w, ts). (0, undefined, (w\<lparr>dw_tx := tl (dw_tx w)\<rparr>, ts))),
     rx_put = (\<lambda>s m. (0, s)), rx_used = (\<lambda>s. 0), rx_get = (\<lambda>s. (- ENOMSG, undefined, s))\<rparr>"

definition demo_subs_zbus :: "(demo_world \<times> mqtt_topic list list) zbus_api" where
  "demo_subs_zbus = \<lparr>zbus_read_outputs = (\<lambda>(w, ts). (0, dw_outputs w)), zbus_pub_outputs = (\<lambda>s m. (0, s)),
     zbus_read_inputs = (\<lambda>(w, ts). (0, dw_inputs w)), zbus_read_mqtt = (\<lambda>(w, ts). (0, dw_mqtt w)),
     zbus_pub_mqtt = (\<lambda>s m. (0, s))\<rparr>"

definition demo_subs_kernel :: "(demo_world \<times> mqtt_topic list list) kernel_api" where
  "demo_subs_kernel = \<lparr>k_sleep = (\<lambda>s. s), k_uptime_get = (\<lambda>s. 0), k_uptime_seconds = (\<lambda>s. 1), sys_rand16_get = (\<lambda>s. (7, s)),
     hwinfo_get_device_id = (\<lambda>s n. (1, [CHR 0xA5])), inet_pton_ok = (\<lambda>s. True), net_if_get_default = (\<lambda>s. False),
     net_if_ipv4_get_global_addr = (\<lambda>s. None), net_addr_ntop = (\<lambda>a n. None)\<rparr>"

definition demo_subs_net :: "(demo_world \<times> mqtt_topic list list) net_api" where
  "demo_subs_net = \<lparr>getaddrinfo = (\<lambda>w host. (0, \<lparr>sin_addr = [], sin_port = 0\<rparr>, w)),
     mqtt_connect = (\<lambda>cb c (st, (w, ts)). (0, (st, (w, [])))), mqtt_input = (\<lambda>cb s. (- EAGAIN, s)),
     mqtt_live = (\<lambda>cb s. (- EAGAIN, s)), mqtt_disconnect = (\<lambda>cb s. (0, s))\<rparr>"

lemma demo_session_lawful:
  "session_lawful demo_subs_net demo_subs_mqtt demo_subs_msgq demo_subs_zbus demo_subs_kernel (\<lambda>s. dw_published (fst s)) snd"
  by (auto simp: session_lawful_def Let_def client_keeps_def handler_keeps_def reads_keep_def demo_subs_net_def demo_subs_mqtt_def
      demo_subs_msgq_def demo_subs_zbus_def demo_subs_kernel_def)

definition demo_tx_world :: "demo_world \<times> mqtt_topic list list" where
  "demo_tx_world = (demo_init\<lparr>dw_mqtt := \<lparr>mq_seq = 1, mq_enabled = True, mq_connected = True\<rparr>,
     dw_tx := [\<lparr>mm_topic = ''t'', mm_payload = ''x'', mm_qos = 1, mm_retain = False\<rparr>]\<rparr>, [])"

definition demo_steps :: "nat \<Rightarrow> (demo_world \<times> mqtt_topic list list) mqtt_world" where
  "demo_steps n = (mqtt_body demo_subs_net demo_subs_mqtt demo_subs_msgq demo_subs_zbus demo_subs_kernel ^^ n)
     (mqtt_task_init mqtt_settings_zero (snd (set_device_id [CHR 0xA5] ha_helpers_init)), demo_tx_world)"

lemma demo_steps_reach:
  "loop_reach (mqtt_body demo_subs_net demo_subs_mqtt demo_subs_msgq demo_subs_zbus demo_subs_kernel)
     (session_env (\<lambda>s. dw_published (fst s)) snd)
     (mqtt_task_init mqtt_settings_zero (snd (set_device_id [CHR 0xA5] ha_helpers_init)), demo_tx_world) (demo_steps n)"
  by (induction n) (auto simp: demo_steps_def intro: loop_reach.intros)


lemma demo_step_publishes:
  "case mqtt_task_step demo_subs_net demo_subs_mqtt demo_subs_msgq demo_subs_zbus demo_subs_kernel (demo_steps 2) of
     None \<Rightarrow> False | Some s' \<Rightarrow> map pp_topic (dw_published (fst (snd s'))) = [''t''] \<and> dw_published (fst (snd (demo_steps 2))) = []"
  by code_simp


theorem publishes_only_when_subscribed_witness:
  "case mqtt_task_step demo_subs_net demo_subs_mqtt demo_subs_msgq demo_subs_zbus demo_subs_kernel (demo_steps 2) of
     None \<Rightarrow> False | Some s' \<Rightarrow> snd (snd s') = [own_topics [CHR 0xA5]]"
proof -
  obtain tk w where d: "demo_steps 2 = (tk, w)" by (metis prod.collapse)
  obtain tk' w' where s: "mqtt_task_step demo_subs_net demo_subs_mqtt demo_subs_msgq demo_subs_zbus demo_subs_kernel (tk, w) =
      Some (tk', w')"
    using demo_step_publishes by (cases "mqtt_task_step demo_subs_net demo_subs_mqtt demo_subs_msgq demo_subs_zbus
      demo_subs_kernel (demo_steps 2)") (auto simp: d)
  have pub: "dw_published (fst w') \<noteq> dw_published (fst w)" using demo_step_publishes s by (auto simp: d)
  have hw: "hw_ident demo_subs_kernel [CHR 0xA5]" by (simp add: hw_ident_def demo_subs_kernel_def)
  have inv: "helpers_inv (snd (set_device_id [CHR 0xA5] ha_helpers_init))"
    by (simp add: helpers_inv_def set_device_id_def ha_helpers_init_def MQTT_UNIC_IDENTIFIER_LENGTH_def INET6_ADDRSTRLEN_def
        memcpy_at_def hex2_upper_def)
  from publishes_only_when_subscribed [OF demo_session_lawful hw inv demo_steps_reach [of 2, unfolded d] s pub] s d
  show ?thesis by simp
qed

text \<open>
  The thread only stops at a null pointer: a step has no successor exactly when the
  thread is about to connect, the broker's name is found, and the device identifier is
  still unset, which \<open>ha_mqtt.c\<close> itself sets only after it has connected. In every other
  state, whatever fails, there is a next step.
\<close>

lemma step_fails_only_without_identifier:
  "mqtt_task_step nt mc mq zb kn (tk, w) = None \<longleftrightarrow>
     \<not> tk_inner tk \<and> 0 \<le> fst (getaddrinfo nt w (cstr (ms_host (tk_sett tk)))) \<and> hs_dev_identifier (tk_helpers tk) ! 0 = NUL"
proof -
  let ?cb = "mqtt_evt_handler mc mq zb kn"
  obtain rv addr w1 where d: "getaddrinfo nt w (cstr (ms_host (tk_sett tk))) = (rv, addr, w1)" by (metis prod_cases3)
  have "mqtt_round nt ?cb zb kn (tk, w) = None \<longleftrightarrow> 0 \<le> rv \<and> hs_dev_identifier (tk_helpers tk) ! 0 = NUL"
    using d by (auto simp: mqtt_round_def dns_query_def client_init_def ha_mqtt_get_device_id_def get_device_id_def Let_def
        split: prod.splits if_splits)
  then show ?thesis using d by (simp add: mqtt_task_step_def Let_def split: prod.splits)
qed


end
