(* ===== verification/Io.thy ===== *)
theory Io
  imports Rest_Settings Thread_Loop
begin

text \<open>
  \<open>io/io.c\<close>: the thread that switches the relays. \<open>io_init\<close> loads the safe state from the
  settings, \<open>io_task_start\<close> is the part of \<open>io_task\<close> before its loop and \<open>io_task_body\<close> one
  turn of the loop up to the sleep. The variables of the thread are the relay byte it
  applied last and its copy of the MQTT status message; \<open>relays_default_state\<close> is written
  before the thread starts and only read by it.
\<close>

section \<open>The thread\<close>

record io_state =
  io_applied_state :: u8
  io_mqtt_status_msg :: mqtt_status_msg_t

definition write_relays_once :: "'w gpio_api \<Rightarrow> u8 \<Rightarrow> 'w \<Rightarrow> 'w" where
  "write_relays_once gp state w =
     gpio_pin_set gp
       (gpio_pin_set gp
          (gpio_pin_set gp w 0 (state AND 1 \<noteq> 0))
          1 (state AND 2 \<noteq> 0))
       2 (state AND 4 \<noteq> 0)"

text \<open>\<open>None\<close>: a port is not ready and the thread ends.\<close>

definition io_task_start :: "'w sys_api \<Rightarrow> 'w gpio_api \<Rightarrow> 'w \<Rightarrow> (io_state \<times> 'w) option" where
  "io_task_start sys gp w =
     (if \<not> device_is_ready gp w 0 \<or> \<not> device_is_ready gp w 1 \<or> \<not> device_is_ready gp w 2 then None
      else let w1 = gpio_pin_configure gp (gpio_pin_configure gp (gpio_pin_configure gp w 0) 1) 2;
               w2 = write_relays_once gp 0 w1
           in Some (\<lparr>io_applied_state = 0,
                     io_mqtt_status_msg = \<lparr>mq_seq = 0,
                       mq_enabled = load_bool_setting sys w2 mqtt_enabled_settings False,
                       mq_connected = False\<rparr>\<rparr>, w2))"

definition apply_state :: "'w gpio_api \<Rightarrow> u8 \<Rightarrow> io_state \<times> 'w \<Rightarrow> io_state \<times> 'w" where
  "apply_state gp state sw =
     (let (s, w) = sw
      in if state \<noteq> io_applied_state s
         then (s\<lparr>io_applied_state := state\<rparr>, write_relays_once gp state w) else (s, w))"

definition safe_byte :: "relays_def_state \<Rightarrow> u8" where
  "safe_byte d = pack_relays (rd_relay1 d) (rd_relay2 d) (rd_relay3 d)"

definition io_task_body ::
  "'w zbus_api \<Rightarrow> 'w gpio_api \<Rightarrow> relays_def_state \<Rightarrow> io_state \<times> 'w \<Rightarrow> io_state \<times> 'w" where
  "io_task_body zb gp d sw =
     (let (s, w) = sw;
          (rc, msg) = zbus_read_outputs zb w
      in if rc \<noteq> 0 then (s, w)
         else if \<not> mq_enabled (io_mqtt_status_msg s) \<or> \<not> rd_enabled d then apply_state gp (om_state msg) (s, w)
         else let m = chan_read (zbus_read_mqtt zb w) (io_mqtt_status_msg s);
                  s' = s\<lparr>io_mqtt_status_msg := m\<rparr>
              in if \<not> mq_connected m then apply_state gp (safe_byte d) (s', w)
                 else apply_state gp (om_state msg) (s', w))"

definition io_load_default :: "'w sys_api \<Rightarrow> string \<Rightarrow> bool \<Rightarrow> 'w \<Rightarrow> bool \<times> 'w" where
  "io_load_default sys key old w =
     (let (rc, bs) = settings_load_one sys w key 1
      in if rc < 0 then (False, snd (settings_save_one sys w key [bool_byte False]))
         else (load_bool bs old, w))"

definition io_init :: "'w sys_api \<Rightarrow> relays_def_state \<times> 'w \<Rightarrow> relays_def_state \<times> 'w" where
  "io_init sys dw =
     (let (d, w) = dw;
          (en, w1) = io_load_default sys def_relays_state_enable_settings_topik (rd_enabled d) w;
          (r1, w2) = io_load_default sys def_relays1_state_settings_topik (rd_relay1 d) w1;
          (r2, w3) = io_load_default sys def_relays2_state_settings_topik (rd_relay2 d) w2;
          (r3, w4) = io_load_default sys def_relays3_state_settings_topik (rd_relay3 d) w3
      in (\<lparr>rd_enabled = en, rd_relay1 = r1, rd_relay2 = r2, rd_relay3 = r3\<rparr>, w4))"

section \<open>The pins follow the applied byte\<close>

definition pins_show :: "('w \<Rightarrow> nat \<Rightarrow> bool) \<Rightarrow> 'w \<Rightarrow> u8 \<Rightarrow> bool" where
  "pins_show pin w b \<longleftrightarrow> map (pin w) [0, 1, 2] = relay_pins b"

definition io_inv :: "'w gpio_api \<Rightarrow> ('w \<Rightarrow> nat \<Rightarrow> bool) \<Rightarrow> io_state \<times> 'w \<Rightarrow> bool" where
  "io_inv gp pin sw \<longleftrightarrow> (\<forall>i < 3. device_is_ready gp (snd sw) i) \<and> pins_show pin (snd sw) (io_applied_state (fst sw))"

text \<open>The other threads do not touch the relays' pins.\<close>

definition leaves_pins :: "'w gpio_api \<Rightarrow> ('w \<Rightarrow> nat \<Rightarrow> bool) \<Rightarrow> ('w \<Rightarrow> 'w \<Rightarrow> bool) \<Rightarrow> bool" where
  "leaves_pins gp pin env \<longleftrightarrow>
     (\<forall>w w' i. env w w' \<longrightarrow> pin w' i = pin w i \<and> device_is_ready gp w' i = device_is_ready gp w i)"

lemma write_relays_once_pins:
  assumes "gpio_lawful gp pin" and "\<forall>i < 3. device_is_ready gp w i"
  shows "pins_show pin (write_relays_once gp b w) b"
    and "device_is_ready gp (write_relays_once gp b w) i = device_is_ready gp w i"
proof -
  have "device_is_ready gp w 0" "device_is_ready gp w 1" "device_is_ready gp w 2" using assms(2) by auto
  then show "pins_show pin (write_relays_once gp b w) b"
    and "device_is_ready gp (write_relays_once gp b w) i = device_is_ready gp w i"
    using assms(1) by (simp_all add: pins_show_def write_relays_once_def gpio_set_law relay_pins_def)
qed

lemma apply_state_inv:
  assumes "gpio_lawful gp pin" and "io_inv gp pin sw"
  shows "io_inv gp pin (apply_state gp b sw)" and "io_applied_state (fst (apply_state gp b sw)) = b"
    and "io_mqtt_status_msg (fst (apply_state gp b sw)) = io_mqtt_status_msg (fst sw)"
  using assms by (auto simp: io_inv_def apply_state_def write_relays_once_pins split: prod.split)

lemma apply_state_pins:
  "gpio_lawful gp pin \<Longrightarrow> io_inv gp pin sw \<Longrightarrow> pins_show pin (snd (apply_state gp b sw)) b"
  using apply_state_inv [of gp pin sw b] by (simp add: io_inv_def)

lemma io_inv_msg [simp]: "io_inv gp pin (s\<lparr>io_mqtt_status_msg := m\<rparr>, w) = io_inv gp pin (s, w)"
  by (simp add: io_inv_def)

lemma io_task_body_inv:
  "gpio_lawful gp pin \<Longrightarrow> io_inv gp pin sw \<Longrightarrow> io_inv gp pin (io_task_body zb gp d sw)"
  by (auto simp: io_task_body_def Let_def apply_state_inv split: prod.split)

lemma io_task_start_inv:
  assumes "gpio_lawful gp pin" and "io_task_start sys gp w = Some sw"
  shows "io_inv gp pin sw" and "io_applied_state (fst sw) = 0"
proof -
  let ?w1 = "gpio_pin_configure gp (gpio_pin_configure gp (gpio_pin_configure gp w 0) 1) 2"
  have r: "\<forall>i < 3. device_is_ready gp ?w1 i"
    using assms by (auto simp: io_task_start_def gpio_set_law less_Suc_eq numeral_3_eq_3 numeral_2_eq_2 split: if_splits)
  show "io_inv gp pin sw" and "io_applied_state (fst sw) = 0"
    using assms write_relays_once_pins [OF assms(1) r, of 0] r
    by (auto simp: io_task_start_def io_inv_def Let_def split: if_splits)
qed

text \<open>The invariant with what it rests on, in the form the contract of a loop asks for.\<close>

definition io_safe ::
  "'w gpio_api \<Rightarrow> ('w \<Rightarrow> nat \<Rightarrow> bool) \<Rightarrow> ('w \<Rightarrow> 'w \<Rightarrow> bool) \<Rightarrow> io_state \<times> 'w \<Rightarrow> bool" where
  "io_safe gp pin env sw \<longleftrightarrow> (gpio_lawful gp pin \<longrightarrow> leaves_pins gp pin env \<longrightarrow> io_inv gp pin sw)"

interpretation io_loop: thread_loop "io_task_body zb gp d" env "io_safe gp pin env" for zb gp d env pin
proof
  fix sw assume "io_safe gp pin env sw"
  then show "io_safe gp pin env (io_task_body zb gp d sw)"
    by (simp add: io_safe_def io_task_body_inv)
next
  fix c w w' assume *: "io_safe gp pin env (c, w)" and e: "env w w'"
  show "io_safe gp pin env (c, w')"
    unfolding io_safe_def
  proof (intro impI)
    assume g: "gpio_lawful gp pin" and l: "leaves_pins gp pin env"
    have "pin w' i = pin w i" "device_is_ready gp w' i = device_is_ready gp w i" for i
      using l e by (simp_all add: leaves_pins_def)
    then show "io_inv gp pin (c, w')" using * g l by (simp add: io_safe_def io_inv_def pins_show_def)
  qed
qed

lemma io_reachable_inv:
  assumes "gpio_lawful gp pin" and "leaves_pins gp pin env" and "io_task_start sys gp w0 = Some s0"
    and "loop_reach (io_task_body zb gp d) env s0 sw"
  shows "io_inv gp pin sw"
  using io_loop.reachable [OF assms(4), of pin] io_task_start_inv(1) [OF assms(1,3)] assms(1,2)
  by (simp add: io_safe_def)

section \<open>What a turn applies\<close>

text \<open>The byte a turn aims at, given that the outputs channel could be read.\<close>

definition io_target :: "'w zbus_api \<Rightarrow> relays_def_state \<Rightarrow> io_state \<times> 'w \<Rightarrow> u8" where
  "io_target zb d sw =
     (let (s, w) = sw; m = chan_read (zbus_read_mqtt zb w) (io_mqtt_status_msg s)
      in if mq_enabled (io_mqtt_status_msg s) \<and> rd_enabled d \<and> \<not> mq_connected m then safe_byte d
         else om_state (snd (zbus_read_outputs zb w)))"

lemma io_body_target:
  "fst (zbus_read_outputs zb w) = 0 \<Longrightarrow>
     \<exists>m. io_task_body zb gp d (s, w) = apply_state gp (io_target zb d (s, w)) (s\<lparr>io_mqtt_status_msg := m\<rparr>, w)"
  by (rule exI [of _ "if mq_enabled (io_mqtt_status_msg s) \<and> rd_enabled d
      then chan_read (zbus_read_mqtt zb w) (io_mqtt_status_msg s) else io_mqtt_status_msg s"])
    (auto simp: io_task_body_def io_target_def Let_def split: prod.split)

lemma io_turn_pins:
  assumes "gpio_lawful gp pin" and "io_inv gp pin (s, w)" and "fst (zbus_read_outputs zb w) = 0"
  shows "pins_show pin (snd (io_task_body zb gp d (s, w))) (io_target zb d (s, w))"
proof -
  obtain m where "io_task_body zb gp d (s, w) = apply_state gp (io_target zb d (s, w)) (s\<lparr>io_mqtt_status_msg := m\<rparr>, w)"
    using io_body_target [OF assms(3)] by blast
  with apply_state_pins [OF assms(1), of "(s\<lparr>io_mqtt_status_msg := m\<rparr>, w)"] assms(2) show ?thesis by simp
qed

section \<open>The safe state switches itself off\<close>

lemma apply_state_msg [simp]:
  "io_mqtt_status_msg (fst (apply_state gp b sw)) = io_mqtt_status_msg (fst sw)"
  by (simp add: apply_state_def Let_def split: prod.split)

lemma io_body_disabled:
  "\<not> mq_enabled (io_mqtt_status_msg (fst sw)) \<Longrightarrow> io_mqtt_status_msg (fst (io_task_body zb gp d sw)) = io_mqtt_status_msg (fst sw)"
  by (auto simp: io_task_body_def Let_def split: prod.split)

text \<open>Once the thread's copy of the message says "not enabled", no turn reads the channel again.\<close>

interpretation io_off: thread_loop "io_task_body zb gp d" env "\<lambda>sw. \<not> mq_enabled (io_mqtt_status_msg (fst sw))"
  for zb gp d env
  by unfold_locales (auto simp: io_body_disabled)

lemma io_first_turn_disables:
  assumes "fst (zbus_read_outputs zb w) = 0" and "zbus_read_mqtt zb w = (0, m)" and "\<not> mq_enabled m" and "rd_enabled d"
  shows "\<not> mq_enabled (io_mqtt_status_msg (fst (io_task_body zb gp d (s, w))))"
  using assms by (auto simp: io_task_body_def Let_def split: prod.split)

section \<open>Loading the safe state\<close>

lemma io_load_default_stored:
  "settings_load_one sys w key 1 = (1, [bool_byte b]) \<Longrightarrow> io_load_default sys key old w = (b, w)"
  by (simp add: io_load_default_def)

text \<open>After a reboot the settings are what they were.\<close>

definition rebooted :: "'w sys_api \<Rightarrow> 'w \<Rightarrow> 'w \<Rightarrow> bool" where
  "rebooted sys w w' \<longleftrightarrow> (\<forall>k n. settings_load_one sys w' k n = settings_load_one sys w k n)"

lemma io_init_saved:
  assumes "settings_lawful sys" and "saves_succeed sys"
    and "rebooted sys (app_settings_def_relay_state_update sys w d) w'"
  shows "io_init sys (d0, w') = (d, w')"
proof -
  let ?kvs = "[(def_relays_state_enable_settings_topik, [bool_byte (rd_enabled d)]),
        (def_relays1_state_settings_topik, [bool_byte (rd_relay1 d)]),
        (def_relays2_state_settings_topik, [bool_byte (rd_relay2 d)]),
        (def_relays3_state_settings_topik, [bool_byte (rd_relay3 d)])]"
  have "settings_load_one sys w' k 1 = (int (length v), v)" if "(k, v) \<in> set ?kvs" for k v
    using assms(3) save_all_load [OF assms(1,2), of ?kvs k v 1 w] that
    by (auto simp: rebooted_def app_settings_def_relay_state_update_def settings_keys)
  then have "settings_load_one sys w' def_relays_state_enable_settings_topik 1 = (1, [bool_byte (rd_enabled d)])"
    "settings_load_one sys w' def_relays1_state_settings_topik 1 = (1, [bool_byte (rd_relay1 d)])"
    "settings_load_one sys w' def_relays2_state_settings_topik 1 = (1, [bool_byte (rd_relay2 d)])"
    "settings_load_one sys w' def_relays3_state_settings_topik 1 = (1, [bool_byte (rd_relay3 d)])"
    by fastforce+
  then show ?thesis by (simp add: io_init_def io_load_default_stored)
qed

section \<open>Properties\<close>

lemma demo_leaves_pins: "leaves_pins demo_gpio demo_pin (\<lambda>w w'. dw_pins w' = dw_pins w)"
  by (simp add: leaves_pins_def demo_pin_def demo_gpio_def)

definition demo_mqtt_up :: mqtt_status_msg_t where
  "demo_mqtt_up = \<lparr>mq_seq = 5, mq_enabled = True, mq_connected = True\<rparr>"

definition demo_mqtt_lost :: mqtt_status_msg_t where
  "demo_mqtt_lost = \<lparr>mq_seq = 6, mq_enabled = True, mq_connected = False\<rparr>"

definition demo_io_world :: demo_world where
  "demo_io_world = demo_init\<lparr>dw_settings := [(mqtt_enabled_settings, [bool_byte True])],
     dw_outputs := \<lparr>om_seq = 1, om_state = 5\<rparr>, dw_mqtt := demo_mqtt_lost\<rparr>"

definition demo_safe :: relays_def_state where
  "demo_safe = \<lparr>rd_enabled = True, rd_relay1 = False, rd_relay2 = True, rd_relay3 = False\<rparr>"

text \<open>
  C11. The relays follow in one turn: in every state the thread can reach, whatever the other
  threads do in between, a turn leaves on the three pins the safe state when the thread's
  copy of the MQTT status is enabled, the safe state is enabled and the connection is down,
  and otherwise the three bits of the message on the outputs channel.
\<close>

theorem relays_follow_in_one_turn:
  assumes "gpio_lawful gp pin" and "leaves_pins gp pin env" and "io_task_start sys gp w0 = Some s0"
    and "loop_reach (io_task_body zb gp d) env s0 (s, w)"
    and "zbus_read_outputs zb w = (0, m)" and "zbus_read_mqtt zb w = (0, q)"
  shows "map (pin (snd (io_task_body zb gp d (s, w)))) [0, 1, 2] =
    (if mq_enabled (io_mqtt_status_msg s) \<and> rd_enabled d \<and> \<not> mq_connected q
     then [rd_relay1 d, rd_relay2 d, rd_relay3 d]
     else [om_state m AND 1 \<noteq> 0, om_state m AND 2 \<noteq> 0, om_state m AND 4 \<noteq> 0])"
  using io_turn_pins [OF assms(1) io_reachable_inv [OF assms(1-4)], of zb d] assms(5,6)
  by (simp add: pins_show_def io_target_def safe_byte_def relay_pins_def [of "om_state m"])

theorem relays_follow_in_one_turn_witness:
  "\<exists>s0 w1. io_task_start demo_sys demo_gpio demo_io_world = Some (s0, w1) \<and>
     map (demo_pin (snd (io_task_body demo_zbus demo_gpio demo_safe (s0, w1)))) [0, 1, 2] = [False, True, False]"
proof -
  obtain s0 w1 where s: "io_task_start demo_sys demo_gpio demo_io_world = Some (s0, w1)"
    by (simp add: io_task_start_def demo_gpio_def demo_io_world_def demo_init_def Let_def)
  then have m: "io_mqtt_status_msg s0 = \<lparr>mq_seq = 0, mq_enabled = True, mq_connected = False\<rparr>"
    and "dw_mqtt w1 = demo_mqtt_lost"
    by (auto simp: io_task_start_def demo_gpio_def demo_io_world_def demo_init_def Let_def write_relays_once_def
        load_bool_setting_def demo_sys_def demo_load_def mqtt_enabled_settings_def)
  then have q: "zbus_read_mqtt demo_zbus w1 = (0, demo_mqtt_lost)" by (simp add: demo_zbus_def)
  have o: "zbus_read_outputs demo_zbus w1 = (0, dw_outputs w1)" by (simp add: demo_zbus_def)
  from relays_follow_in_one_turn [OF demo_gpio_lawful demo_leaves_pins s loop_reach.start o q, of demo_safe] m s
  show ?thesis by (simp add: demo_safe_def demo_mqtt_lost_def)
qed

text \<open>
  C31. The safe state only works on the first turn after a boot: the thread overwrites the
  "enabled" it loaded from the settings with the one of the channel's message, which is
  false until the MQTT task publishes. After a first turn that read such a message no later
  turn looks at the connection again: every turn puts the outputs message on the pins,
  also when the channel says that the connection is lost.
\<close>

theorem safe_state_lost_after_first_turn:
  assumes "gpio_lawful gp pin" and "leaves_pins gp pin env" and "io_task_start sys gp w0 = Some (s1, w1)"
    and "zbus_read_outputs zb w1 = (0, m1)" and "zbus_read_mqtt zb w1 = (0, mqtt_stat_initial)" and "rd_enabled d"
    and "loop_reach (io_task_body zb gp d) env (io_task_body zb gp d (s1, w1)) (s, w)"
    and "zbus_read_outputs zb w = (0, m)"
  shows "map (pin (snd (io_task_body zb gp d (s, w)))) [0, 1, 2] =
    [om_state m AND 1 \<noteq> 0, om_state m AND 2 \<noteq> 0, om_state m AND 4 \<noteq> 0]"
proof -
  have "\<not> mq_enabled (io_mqtt_status_msg (fst (io_task_body zb gp d (s1, w1))))"
    by (rule io_first_turn_disables [OF _ assms(5) _ assms(6)]) (simp_all add: assms(4) mqtt_stat_initial_def)
  then have "\<not> mq_enabled (io_mqtt_status_msg s)" using io_off.reachable [OF assms(7)] by simp
  moreover have "io_inv gp pin (s, w)"
    by (rule io_reachable_inv [OF assms(1-3) loop_reach_body [OF assms(7)]])
  ultimately show ?thesis
    using io_turn_pins [OF assms(1), of s w zb d] assms(8)
    by (simp add: pins_show_def io_target_def relay_pins_def [of "om_state m"])
qed

theorem safe_state_lost_after_first_turn_witness:
  "\<exists>s1 w1. io_task_start demo_sys demo_gpio (demo_io_world\<lparr>dw_mqtt := mqtt_stat_initial\<rparr>) = Some (s1, w1) \<and>
     (let (s, w) = io_task_body demo_zbus demo_gpio demo_safe (s1, w1)
      in map (demo_pin (snd (io_task_body demo_zbus demo_gpio demo_safe (s, w\<lparr>dw_mqtt := demo_mqtt_lost\<rparr>)))) [0, 1, 2]
         = [True, False, True])"
proof -
  obtain s1 w1 where s: "io_task_start demo_sys demo_gpio (demo_io_world\<lparr>dw_mqtt := mqtt_stat_initial\<rparr>) = Some (s1, w1)"
    by (simp add: io_task_start_def demo_gpio_def demo_io_world_def demo_init_def Let_def)
  then have w1: "dw_mqtt w1 = mqtt_stat_initial" "dw_outputs w1 = \<lparr>om_seq = 1, om_state = 5\<rparr>"
    by (auto simp: io_task_start_def demo_gpio_def demo_io_world_def demo_init_def Let_def write_relays_once_def)
  obtain s w where t: "io_task_body demo_zbus demo_gpio demo_safe (s1, w1) = (s, w)" by fastforce
  then have w: "dw_outputs w = dw_outputs w1"
    by (auto simp: io_task_body_def apply_state_def write_relays_once_def demo_gpio_def demo_zbus_def Let_def split: if_splits)
  have o1: "zbus_read_outputs demo_zbus w1 = (0, dw_outputs w1)"
    and q1: "zbus_read_mqtt demo_zbus w1 = (0, mqtt_stat_initial)" using w1 by (simp_all add: demo_zbus_def)
  let ?env = "\<lambda>w w' :: demo_world. dw_pins w' = dw_pins w"
  let ?w2 = "w\<lparr>dw_mqtt := demo_mqtt_lost\<rparr>"
  have r: "loop_reach (io_task_body demo_zbus demo_gpio demo_safe) ?env (io_task_body demo_zbus demo_gpio demo_safe (s1, w1)) (s, ?w2)"
    unfolding t by (rule loop_reach.others [OF loop_reach.start]) simp
  have o2: "zbus_read_outputs demo_zbus ?w2 = (0, dw_outputs w)" by (simp add: demo_zbus_def)
  have "rd_enabled demo_safe" by (simp add: demo_safe_def)
  from safe_state_lost_after_first_turn [OF demo_gpio_lawful demo_leaves_pins s o1 q1 this r o2] s t w w1
  show ?thesis by simp
qed

end
