(* ===== verification/Fs_Helpers.thy ===== *)
theory Fs_Helpers
  imports Fs_Platform
begin

text \<open>
  \<open>littlefs/filesystem_helpers.c\<close>: deleting a tree and adding up the sizes in one. Both
  recurse into sub-directories and loop until the directory is read to its end, which only
  the file system guarantees to come, so they take fuel: one unit per call and per entry;
  \<open>None\<close> is a run that needed more. The theorems say how much is enough.
\<close>

definition PATH_MAX :: nat where "PATH_MAX = 256"

definition join_path :: "nat \<Rightarrow> string \<Rightarrow> string \<Rightarrow> int \<times> string" where
  "join_path out_sz base name =
     (let n = length (child_path base name)
      in if out_sz \<le> n then (- ENAMETOOLONG, take (out_sz - 1) (child_path base name))
         else (0, child_path base name))"

fun fs_delete_tree :: "'w fs_api \<Rightarrow> nat \<Rightarrow> 'w \<Rightarrow> string \<Rightarrow> (int \<times> 'w) option"
  and fs_delete_loop :: "'w fs_api \<Rightarrow> nat \<Rightarrow> 'w \<Rightarrow> string \<Rightarrow> nat \<Rightarrow> (int \<times> 'w) option" where
  "fs_delete_tree fs 0 w path = None"
| "fs_delete_tree fs (Suc k) w path =
     (if path = [] then Some (- EINVAL, w)
      else let (rc, dir, w1) = fs_opendir fs w path
           in if rc < 0 then Some (fs_unlink fs w1 path) else fs_delete_loop fs k w1 path dir)"
| "fs_delete_loop fs 0 w path dir = None"
| "fs_delete_loop fs (Suc k) w path dir =
     (let (rc, ent, w1) = fs_readdir fs w dir in
      if rc < 0 then Some (rc, fs_closedir fs w1 dir)
      else if de_name ent = [] then Some (fs_unlink fs (fs_closedir fs w1 dir) path)
      else if de_name ent = ''.'' \<or> de_name ent = ''..'' then fs_delete_loop fs k w1 path dir
      else let (rc, child) = join_path PATH_MAX path (de_name ent) in
      if rc < 0 then Some (rc, fs_closedir fs w1 dir)
      else if de_type ent = FS_DIR_ENTRY_DIR then
        (case fs_delete_tree fs k (fs_closedir fs w1 dir) child of
           None \<Rightarrow> None
         | Some (rc, w2) \<Rightarrow>
             let (_, dir', w3) = fs_opendir fs w2 path in
             if rc < 0 then Some (rc, fs_closedir fs w3 dir')
             else let (rc, w4) = fs_unlink fs w3 path
                  in if rc < 0 then Some (rc, fs_closedir fs w4 dir') else fs_delete_loop fs k w4 path dir')
      else let (rc, w2) = fs_unlink fs w1 child
           in if rc < 0 then Some (rc, fs_closedir fs w2 dir) else fs_delete_loop fs k w2 path dir)"

text \<open>
  \<open>fs_calc_dir_size\<close> ends with 0 also when reading failed, and ignores what a recursive
  call returns. Its path buffer has 260 bytes and truncates silently; the sum is a 32-bit
  \<open>size_t\<close>.
\<close>

fun fs_calc_dir_size :: "'w fs_api \<Rightarrow> nat \<Rightarrow> 'w \<Rightarrow> string \<Rightarrow> nat \<Rightarrow> (int \<times> nat \<times> 'w) option"
  and fs_calc_loop :: "'w fs_api \<Rightarrow> nat \<Rightarrow> 'w \<Rightarrow> string \<Rightarrow> nat \<Rightarrow> nat \<Rightarrow> (int \<times> nat \<times> 'w) option" where
  "fs_calc_dir_size fs 0 w path tot = None"
| "fs_calc_dir_size fs (Suc k) w path tot =
     (let (rc, dir, w1) = fs_opendir fs w path
      in if rc < 0 then Some (rc, tot, w1) else fs_calc_loop fs k w1 path dir tot)"
| "fs_calc_loop fs 0 w path dir tot = None"
| "fs_calc_loop fs (Suc k) w path dir tot =
     (let (rc, entry, w1) = fs_readdir fs w dir in
      if rc < 0 \<or> de_name entry = [] then Some (0, tot, fs_closedir fs w1 dir)
      else if de_type entry = FS_DIR_ENTRY_FILE then fs_calc_loop fs k w1 path dir ((tot + de_size entry) mod 2 ^ 32)
      else (case fs_calc_dir_size fs k w1 (take 259 (child_path path (de_name entry))) tot of
              None \<Rightarrow> None
            | Some (_, sum1, w2) \<Rightarrow> fs_calc_loop fs k w2 path dir sum1))"

section \<open>A directory of files\<close>

definition plain_entry :: "fs_dirent \<Rightarrow> bool" where
  "plain_entry e \<longleftrightarrow> de_type e = FS_DIR_ENTRY_FILE \<and> proper_name (de_name e)"

definition files_in :: "'w fs_view \<Rightarrow> 'w \<Rightarrow> string \<Rightarrow> fs_dirent list \<Rightarrow> bool" where
  "files_in v w path es \<longleftrightarrow> distinct (map de_name es) \<and>
     (\<forall>e \<in> set es. plain_entry e \<and> length (child_path path (de_name e)) < PATH_MAX \<and>
        (\<exists>c. fv_node v w (place path @ [de_name e]) = Some (File c)))"

lemma opendir_dir:
  "fs_dir_lawful fs v \<Longrightarrow> below_mount p \<Longrightarrow> fs_opendir fs w p = (rc, h, w') \<Longrightarrow> fv_node v w (place p) = Some Dir \<Longrightarrow>
     rc = 0 \<and> fv_rest v w' h = fv_list v w (place p) \<and> same_files v w w'"
  unfolding fs_dir_lawful_def by (metis (full_types))

lemma readdir_rest:
  assumes "fs_dir_lawful fs v" and "fs_readdir fs w h = (rc, e, w')"
  shows "same_files v w w'" and "rc = 0"
    and "fv_rest v w h = [] \<Longrightarrow> de_name e = []"
    and "fv_rest v w h = d # ds \<Longrightarrow> e = d \<and> fv_rest v w' h = ds"
proof -
  have "same_files v w w' \<and> rc = 0 \<and>
      (case fv_rest v w h of [] \<Rightarrow> de_name e = [] | d # ds \<Rightarrow> e = d \<and> fv_rest v w' h = ds)"
    using assms unfolding fs_dir_lawful_def by blast
  then show "same_files v w w'" and "rc = 0" and "fv_rest v w h = [] \<Longrightarrow> de_name e = []"
    and "fv_rest v w h = d # ds \<Longrightarrow> e = d \<and> fv_rest v w' h = ds" by auto
qed

lemma closedir_same: "fs_dir_lawful fs v \<Longrightarrow> same_files v w (fs_closedir fs w h)"
  unfolding fs_dir_lawful_def by blast

lemma unlink_law:
  assumes "fs_unlink_lawful fs v" and "below_mount p" and "fs_unlink fs w p = (rc, w')"
  shows "fv_rest v w' = fv_rest v w \<and>
    (if fv_node v w (place p) = None \<or> (fv_node v w (place p) = Some Dir \<and> fv_list v w (place p) \<noteq> [])
     then rc < 0 \<and> same_files v w w'
     else rc = 0 \<and> fv_node v w' = (fv_node v w)(place p := None) \<and>
       (\<forall>q. fv_list v w' q =
          (if q = place p then [] else filter (\<lambda>e. q @ [de_name e] \<noteq> place p) (fv_list v w q))))"
  using assms unfolding fs_unlink_lawful_def by blast

lemma unlink_ok:
  assumes "fs_unlink_lawful fs v" and "below_mount p" and "fs_unlink fs w p = (rc, w')"
    and "(\<exists>c. fv_node v w (place p) = Some (File c)) \<or> (fv_node v w (place p) = Some Dir \<and> fv_list v w (place p) = [])"
  shows "rc = 0" and "fv_node v w' = (fv_node v w)(place p := None)" and "fv_rest v w' = fv_rest v w"
    and "fv_list v w' q = (if q = place p then [] else filter (\<lambda>e. q @ [de_name e] \<noteq> place p) (fv_list v w q))"
  using unlink_law [OF assms(1-3)] assms(4) by (auto simp del: fun_upd_apply)

lemma unlink_refused:
  assumes "fs_unlink_lawful fs v" and "below_mount p" and "fs_unlink fs w p = (rc, w')"
    and "fv_node v w (place p) = Some Dir" and "fv_list v w (place p) \<noteq> []"
  shows "rc < 0" and "same_files v w w'"
  using unlink_law [OF assms(1-3)] assms(4,5) by simp_all

definition removed :: "string list \<Rightarrow> fs_dirent list \<Rightarrow> string list set" where
  "removed q es = insert q ((\<lambda>n. q @ [n]) ` de_name ` set es)"

definition files_removed :: "'w fs_view \<Rightarrow> string list set \<Rightarrow> 'w \<Rightarrow> 'w \<Rightarrow> bool" where
  "files_removed v R w w' \<longleftrightarrow>
     fv_node v w' = (\<lambda>q. if q \<in> R then None else fv_node v w q) \<and>
     (\<forall>q. q \<notin> R \<longrightarrow> fv_list v w' q = filter (\<lambda>e. q @ [de_name e] \<notin> R) (fv_list v w q))"

lemma files_removed_same:
  "files_removed v R w1 w' \<Longrightarrow> same_files v w w1 \<Longrightarrow> files_removed v R w w'"
  unfolding files_removed_def same_files_def by (simp cong: if_cong)

lemma files_removed_insert:
  assumes "files_removed v R w2 w'" and "fv_node v w2 = (fv_node v w)(p := None)"
    and "\<And>q. fv_list v w2 q = (if q = p then [] else filter (\<lambda>e. q @ [de_name e] \<noteq> p) (fv_list v w q))"
  shows "files_removed v (insert p R) w w'"
  using assms unfolding files_removed_def
  by (auto simp: fun_eq_iff intro!: filter_cong)

text \<open>The loop over a directory of files: every entry still to come is removed, then the directory.\<close>

lemma delete_loop_files:
  assumes laws: "fs_unlink_lawful fs v" "fs_dir_lawful fs v" and p: "below_mount path"
    and "fv_rest v w h = es" and "files_in v w path es" and "fv_node v w (place path) = Some Dir"
    and "fv_list v w (place path) = es" and "length es < k"
  shows "\<exists>w'. fs_delete_loop fs k w path h = Some (0, w') \<and> files_removed v (removed (place path) es) w w'"
  using assms(4-)
proof (induction es arbitrary: w k)
  case Nil
  obtain k' where k: "k = Suc k'" using Nil.prems(5) by (cases k) auto
  obtain rc e w1 where r: "fs_readdir fs w h = (rc, e, w1)" by (metis prod.collapse)
  note rd = readdir_rest [OF laws(2) r]
  obtain rc' w' where u: "fs_unlink fs (fs_closedir fs w1 h) path = (rc', w')" by (metis prod.collapse)
  have same: "fv_node v (fs_closedir fs w1 h) = fv_node v w" "fv_list v (fs_closedir fs w1 h) = fv_list v w"
    using rd(1) closedir_same [OF laws(2), of w1 h] by (simp_all add: same_files_def)
  then have dir: "fv_node v (fs_closedir fs w1 h) (place path) = Some Dir \<and> fv_list v (fs_closedir fs w1 h) (place path) = []"
    using Nil.prems by simp
  note ul = unlink_ok [OF laws(1) p u disjI2 [OF dir]]
  have "files_removed v {place path} w w'"
    unfolding files_removed_def using ul(2,4) same by (auto simp: fun_eq_iff)
  then show ?case using r rd(2,3) Nil.prems(1) u k ul(1) by (auto simp: removed_def)
next
  case (Cons d es)
  obtain k' where k: "k = Suc k'" and k': "length es < k'" using Cons.prems(5) by (cases k) auto
  obtain rc e w1 where r: "fs_readdir fs w h = (rc, e, w1)" by (metis prod.collapse)
  note rd = readdir_rest [OF laws(2) r]
  have e: "e = d" "fv_rest v w1 h = es" using rd(4) [OF Cons.prems(1)] by auto
  have plain: "plain_entry d" and name: "proper_name (de_name d)"
    using Cons.prems(2) by (simp_all add: files_in_def plain_entry_def)
  let ?c = "child_path path (de_name d)"
  let ?q = "place path @ [de_name d]"
  note c = place_child(1) [OF below_mountD [OF p] name] below_mount_child [OF below_mountD [OF p] name]
  obtain rc2 w2 where u: "fs_unlink fs w1 ?c = (rc2, w2)" by (metis prod.collapse)
  have same: "fv_node v w1 = fv_node v w" "fv_list v w1 = fv_list v w" using rd(1) by (simp_all add: same_files_def)
  have "\<exists>c. fv_node v w1 (place ?c) = Some (File c)"
    using Cons.prems(2) same by (auto simp: files_in_def c(1))
  note ul = unlink_ok [OF laws(1) c(2) u disjI1 [OF this], unfolded c(1)]
  have names: "\<forall>e \<in> set es. de_name e \<noteq> de_name d" using Cons.prems(2) by (simp add: files_in_def) (metis imageI)
  have list2: "fv_list v w2 (place path) = es"
    using names Cons.prems(4) same(2) by (subst ul(4)) (auto simp: filter_id_conv image_iff)
  have files2: "files_in v w2 path es"
    using Cons.prems(2) names same(1) by (auto simp: files_in_def ul(2))
  have dir2: "fv_node v w2 (place path) = Some Dir" using Cons.prems(3) same(1) by (simp add: ul(2))
  have rest2: "fv_rest v w2 h = es" using e(2) ul(3) by simp
  obtain w' where w': "fs_delete_loop fs k' w2 path h = Some (0, w')" "files_removed v (removed (place path) es) w2 w'"
    using Cons.IH [OF rest2 files2 dir2 list2 k'] by blast
  have "join_path PATH_MAX path (de_name d) = (0, ?c)" "de_name d \<notin> {[], ''.'', ''..''}"
    using Cons.prems(2) name by (auto simp: files_in_def join_path_def proper_name_def)
  then have "fs_delete_loop fs k w path h = fs_delete_loop fs k' w2 path h"
    using r rd(2) e(1) u ul(1) k plain by (auto simp: plain_entry_def)
  moreover have "files_removed v (insert ?q (removed (place path) es)) w1 w'"
    by (rule files_removed_insert [OF w'(2) ul(2,4)])
  then have "files_removed v (removed (place path) (d # es)) w w'"
    using files_removed_same [OF _ rd(1)] by (simp add: removed_def insert_commute)
  ultimately show ?case using w'(1) by auto
qed

lemma below_mount_not_Nil [simp]: "below_mount p \<Longrightarrow> p \<noteq> []"
  by (auto simp: below_mount_def mounted_def)

lemma delete_tree_files:
  assumes laws: "fs_unlink_lawful fs v" "fs_dir_lawful fs v" and p: "below_mount path"
    and "fv_node v w (place path) = Some Dir" and "files_in v w path (fv_list v w (place path))"
    and "Suc (length (fv_list v w (place path))) < k"
  shows "\<exists>w'. fs_delete_tree fs k w path = Some (0, w') \<and>
    files_removed v (removed (place path) (fv_list v w (place path))) w w'"
proof -
  obtain k' where k: "k = Suc k'" "length (fv_list v w (place path)) < k'" using assms(6) by (cases k) auto
  obtain rc h w1 where o: "fs_opendir fs w path = (rc, h, w1)" by (metis prod.collapse)
  note od = opendir_dir [OF laws(2) p o assms(4)]
  then have same: "fv_node v w1 = fv_node v w" "fv_list v w1 = fv_list v w" by (simp_all add: same_files_def)
  have "files_in v w1 path (fv_list v w (place path))" using assms(5) same by (simp add: files_in_def)
  from delete_loop_files [OF laws p _ this _ _ k(2)] od same assms(4)
  obtain w' where "fs_delete_loop fs k' w1 path h = Some (0, w')"
    "files_removed v (removed (place path) (fv_list v w (place path))) w1 w'" by auto
  with k o od p show ?thesis using files_removed_same by auto
qed

text \<open>
  After a sub-directory was removed the code removes \<open>path\<close>, not the sub-directory's path:
  when \<open>path\<close> holds anything else this is refused, and the function gives up.
\<close>

lemma delete_tree_subdir:
  assumes laws: "fs_unlink_lawful fs v" "fs_dir_lawful fs v" and p: "below_mount path"
    and "fv_node v w (place path) = Some Dir" and "fv_list v w (place path) = e # es" and "es \<noteq> []"
    and "distinct (map de_name (e # es))"
    and "de_type e = FS_DIR_ENTRY_DIR" and name: "proper_name (de_name e)"
    and "length (child_path path (de_name e)) < PATH_MAX"
    and "fv_node v w (place path @ [de_name e]) = Some Dir" and "fv_list v w (place path @ [de_name e]) = []"
    and "4 < k"
  shows "\<exists>rc w'. fs_delete_tree fs k w path = Some (rc, w') \<and> rc < 0 \<and>
    fv_node v w' = (fv_node v w)(place path @ [de_name e] := None) \<and> fv_list v w' (place path) = es"
proof -
  let ?c = "child_path path (de_name e)"
  let ?q = "place path @ [de_name e]"
  note c = place_child(1) [OF below_mountD [OF p] name] below_mount_child [OF below_mountD [OF p] name]
  obtain n where n: "k = 5 + n" using assms(13) by (metis Suc_leI le_iff_add numeral_eq_Suc pred_numeral_simps(3) semiring_norm(28))
  define k1 where "k1 = 3 + n"
  with n have k1: "k = Suc (Suc k1)" "2 < k1" by simp_all
  obtain rc h w1 where o: "fs_opendir fs w path = (rc, h, w1)" by (metis prod.collapse)
  note od = opendir_dir [OF laws(2) p o assms(4)]
  obtain rc2 d w2 where r: "fs_readdir fs w1 h = (rc2, d, w2)" by (metis prod.collapse)
  note rd = readdir_rest [OF laws(2) r]
  have d: "d = e" using rd(4) [of e es] od assms(5) by simp
  let ?w3 = "fs_closedir fs w2 h"
  have same3: "same_files v w ?w3"
    using od rd(1) closedir_same [OF laws(2), of w2 h] by (simp add: same_files_def)
  then have c3: "fv_node v ?w3 (place ?c) = Some Dir" "fv_list v ?w3 (place ?c) = []"
    using assms(11,12) by (simp_all add: same_files_def c(1))
  then have "files_in v ?w3 ?c (fv_list v ?w3 (place ?c))" by (simp add: files_in_def)
  from delete_tree_files [OF laws c(2) c3(1) this, of k1] c3(2) k1(2)
  obtain w4 where w4: "fs_delete_tree fs k1 ?w3 ?c = Some (0, w4)" and "files_removed v {?q} ?w3 w4"
    by (auto simp: removed_def c(1))
  then have rem: "files_removed v {?q} w w4" using files_removed_same [OF _ same3] by simp
  have "\<forall>x \<in> set es. de_name x \<noteq> de_name e" using assms(7) by (simp add: image_iff) (metis)
  then have "filter (\<lambda>x. place path @ [de_name x] \<noteq> ?q) (e # es) = es" by (simp add: filter_id_conv)
  then have s4: "fv_list v w4 (place path) = es" "fv_node v w4 = (fv_node v w)(?q := None)"
    using rem assms(5) by (auto simp: files_removed_def fun_eq_iff)
  obtain rc5 h5 w5 where o5: "fs_opendir fs w4 path = (rc5, h5, w5)" by (metis prod.collapse)
  have same5: "same_files v w4 w5" using opendir_dir [OF laws(2) p o5] s4(2) assms(4) by simp
  obtain rc6 w6 where u: "fs_unlink fs w5 path = (rc6, w6)" by (metis prod.collapse)
  have "fv_node v w5 (place path) = Some Dir" "fv_list v w5 (place path) \<noteq> []"
    using same5 s4 assms(4,6) by (simp_all add: same_files_def)
  note ref = unlink_refused [OF laws(1) p u this]
  have same7: "same_files v w4 (fs_closedir fs w6 h5)"
    using ref(2) same5 closedir_same [OF laws(2), of w6 h5] by (simp add: same_files_def)
  have "join_path PATH_MAX path (de_name e) = (0, ?c)" using assms(10) by (simp add: join_path_def)
  then have "fs_delete_tree fs k w path = Some (rc6, fs_closedir fs w6 h5)"
    using k1(1) o od r rd(2) d p assms(8) name w4 o5 u ref(1) by (simp add: proper_name_def)
  with ref(1) same7 s4 show ?thesis by (auto simp: same_files_def)
qed

section \<open>Adding up sizes\<close>

lemma calc_loop_files:
  assumes laws: "fs_dir_lawful fs v" and "fv_rest v w h = es" and "\<forall>e \<in> set es. plain_entry e"
    and "length es < k"
  shows "\<exists>w'. fs_calc_loop fs k w path h tot =
    Some (0, if es = [] then tot else (tot + sum_list (map de_size es)) mod 2 ^ 32, w') \<and> same_files v w w'"
  using assms(2-)
proof (induction es arbitrary: w k tot)
  case Nil
  obtain k' where k: "k = Suc k'" using Nil.prems(3) by (cases k) auto
  obtain rc e w1 where r: "fs_readdir fs w h = (rc, e, w1)" by (metis prod.collapse)
  note rd = readdir_rest [OF laws r]
  show ?case using r k rd(3) [OF Nil.prems(1)] rd(1) closedir_same [OF laws, of w1 h]
    by (simp add: same_files_def)
next
  case (Cons d es)
  obtain k' where k: "k = Suc k'" "length es < k'" using Cons.prems(3) by (cases k) auto
  obtain rc e w1 where r: "fs_readdir fs w h = (rc, e, w1)" by (metis prod.collapse)
  note rd = readdir_rest [OF laws r]
  have e: "e = d" "fv_rest v w1 h = es" using rd(4) [OF Cons.prems(1)] by auto
  let ?t = "(tot + de_size d) mod 2 ^ 32"
  have "\<forall>e \<in> set es. plain_entry e" using Cons.prems(2) by simp
  from Cons.IH [OF e(2) this k(2), of ?t]
  obtain w' where w': "fs_calc_loop fs k' w1 path h ?t =
      Some (0, if es = [] then ?t else (?t + sum_list (map de_size es)) mod 2 ^ 32, w')" "same_files v w1 w'"
    by blast
  have "(?t + sum_list (map de_size es)) mod 2 ^ 32 = (tot + sum_list (map de_size (d # es))) mod 2 ^ 32"
    by (simp add: mod_add_left_eq add.assoc)
  moreover have "plain_entry d" using Cons.prems(2) by simp
  ultimately show ?case
    using w' r rd(1,2) e(1) k(1) by (auto simp: plain_entry_def proper_name_def same_files_def)
qed

section \<open>A small tree\<close>

definition demo_flat :: demo_fsw where
  "demo_flat = \<lparr>df_nodes = [([''lfs'', ''w''], Dir), ([''lfs'', ''w'', ''a''], File ''x''), ([''lfs'', ''w'', ''b''], File ''yz'')],
     df_open = []\<rparr>"

definition demo_nested :: demo_fsw where
  "demo_nested = \<lparr>df_nodes = [([''lfs'', ''w''], Dir), ([''lfs'', ''w'', ''css''], Dir), ([''lfs'', ''w'', ''b''], File ''yz'')],
     df_open = []\<rparr>"

lemma demo_view_simps [simp]: "fv_node demo_view = demo_node" "fv_list demo_view = demo_list"
  by (simp_all add: demo_view_def)

lemma demo_w: "place ''/lfs/w'' = [''lfs'', ''w'']" "below_mount ''/lfs/w''"
proof -
  have "segments ''/lfs/w'' = [[], ''lfs'', ''w'']" by code_simp
  then show "place ''/lfs/w'' = [''lfs'', ''w'']" "below_mount ''/lfs/w''"
    by (simp_all add: place_def below_mount_def mounted_def)
qed

lemma demo_flat_props:
  "demo_node demo_flat [''lfs'', ''w''] = Some Dir" "files_in demo_view demo_flat ''/lfs/w'' (demo_list demo_flat [''lfs'', ''w''])"
  "length (demo_list demo_flat [''lfs'', ''w'']) = 2" "sum_list (map de_size (demo_list demo_flat [''lfs'', ''w''])) = 3"
proof -
  have l: "demo_list demo_flat [''lfs'', ''w''] = [demo_dirent ''a'' (File ''x''), demo_dirent ''b'' (File ''yz'')]"
    by code_simp
  show "demo_node demo_flat [''lfs'', ''w''] = Some Dir" by code_simp
  show "length (demo_list demo_flat [''lfs'', ''w'']) = 2" "sum_list (map de_size (demo_list demo_flat [''lfs'', ''w''])) = 3"
    unfolding l by (simp_all add: demo_dirent_def)
  have "demo_node demo_flat [''lfs'', ''w'', ''a''] = Some (File ''x'')" "demo_node demo_flat [''lfs'', ''w'', ''b''] = Some (File ''yz'')"
    by code_simp+
  then show "files_in demo_view demo_flat ''/lfs/w'' (demo_list demo_flat [''lfs'', ''w''])"
    unfolding l by (simp add: files_in_def plain_entry_def proper_name_def demo_dirent_def child_path_def PATH_MAX_def demo_w)
qed

section \<open>What the functions do\<close>

text \<open>
  Deleting a directory of files works: with one unit of fuel per entry and two more the
  function returns 0, and what is gone is the directory and its entries, nothing else.
\<close>

lemma delete_flat_directory:
  assumes "fs_unlink_lawful fs v" and "fs_dir_lawful fs v" and "below_mount path"
    and "fv_node v w (place path) = Some Dir" and "files_in v w path (fv_list v w (place path))"
    and "length (fv_list v w (place path)) + 1 < k"
  shows "\<exists>w'. fs_delete_tree fs k w path = Some (0, w') \<and>
    fv_node v w' = (\<lambda>q. if q = place path \<or> (\<exists>e \<in> set (fv_list v w (place path)). q = place path @ [de_name e])
                       then None else fv_node v w q)"
  using delete_tree_files [OF assms(1-5), of k] assms(6)
  by (auto simp: files_removed_def removed_def fun_eq_iff image_iff)

lemma delete_flat_directory_witness:
  "\<exists>w'. fs_delete_tree demo_fs 4 demo_flat ''/lfs/w'' = Some (0, w') \<and> demo_node w' [''lfs'', ''w''] = None"
proof -
  have "\<exists>w'. fs_delete_tree demo_fs 4 demo_flat ''/lfs/w'' = Some (0, w') \<and>
      fv_node demo_view w' = (\<lambda>q. if q = place ''/lfs/w'' \<or>
          (\<exists>e \<in> set (fv_list demo_view demo_flat (place ''/lfs/w'')). q = place ''/lfs/w'' @ [de_name e])
        then None else fv_node demo_view demo_flat q)"
    by (rule delete_flat_directory [OF demo_unlink_lawful demo_dir_lawful]) (simp_all add: demo_flat_props demo_w)
  then show ?thesis by (auto simp: fun_eq_iff demo_w)
qed

text \<open>
  A tree with a sub-directory is not deleted: when the first entry is an (empty)
  sub-directory and others follow, the sub-directory is removed, then the code removes
  \<open>path\<close> where it means the sub-directory, fails, and leaves the directory with all
  the other entries.
\<close>

lemma delete_tree_stops_at_subdirectory:
  assumes "fs_unlink_lawful fs v" and "fs_dir_lawful fs v" and "below_mount path"
    and "fv_node v w (place path) = Some Dir" and "fv_list v w (place path) = e # es" and "es \<noteq> []"
    and "distinct (map de_name (e # es))"
    and "de_type e = FS_DIR_ENTRY_DIR" and "proper_name (de_name e)"
    and "length (child_path path (de_name e)) < PATH_MAX"
    and "fv_node v w (place path @ [de_name e]) = Some Dir" and "fv_list v w (place path @ [de_name e]) = []"
    and "4 < k"
  shows "\<exists>rc w'. fs_delete_tree fs k w path = Some (rc, w') \<and> rc < 0 \<and>
    fv_node v w' (place path) = Some Dir \<and> fv_list v w' (place path) = es"
  using delete_tree_subdir [OF assms] assms(4) by auto

lemma delete_tree_stops_at_subdirectory_witness:
  "\<exists>rc w'. fs_delete_tree demo_fs 5 demo_nested ''/lfs/w'' = Some (rc, w') \<and> rc < 0 \<and>
    demo_node w' [''lfs'', ''w''] = Some Dir"
proof -
  have l: "demo_list demo_nested [''lfs'', ''w''] = [demo_dirent ''css'' Dir, demo_dirent ''b'' (File ''yz'')]" by code_simp
  have n: "demo_node demo_nested [''lfs'', ''w''] = Some Dir" "demo_node demo_nested [''lfs'', ''w'', ''css''] = Some Dir"
    "demo_list demo_nested [''lfs'', ''w'', ''css''] = []" by code_simp+
  show ?thesis
    using delete_tree_stops_at_subdirectory [OF demo_unlink_lawful demo_dir_lawful, of "''/lfs/w''" demo_nested
        "demo_dirent ''css'' Dir" "[demo_dirent ''b'' (File ''yz'')]" 5] l n
    by (auto simp: demo_w demo_dirent_def proper_name_def child_path_def PATH_MAX_def)
qed

text \<open>
  The size of a directory of files is the sum of their sizes, added to what the caller
  passed, modulo the range of \<open>size_t\<close>, and nothing changes.
\<close>

lemma calc_size_of_files:
  assumes "fs_dir_lawful fs v" and "below_mount path" and "fv_node v w (place path) = Some Dir"
    and "\<forall>e \<in> set (fv_list v w (place path)). plain_entry e" and "length (fv_list v w (place path)) + 1 < k"
    and "tot < 2 ^ 32"
  shows "\<exists>w'. fs_calc_dir_size fs k w path tot =
    Some (0, (tot + sum_list (map de_size (fv_list v w (place path)))) mod 2 ^ 32, w') \<and> same_files v w w'"
proof -
  obtain k' where k: "k = Suc k'" "length (fv_list v w (place path)) < k'" using assms(5) by (cases k) auto
  obtain rc h w1 where o: "fs_opendir fs w path = (rc, h, w1)" by (metis prod.collapse)
  note od = opendir_dir [OF assms(1,2) o assms(3)]
  from calc_loop_files [OF assms(1) _ assms(4) k(2), of w1 h path tot] od
  obtain w' where "fs_calc_loop fs k' w1 path h tot =
      Some (0, (tot + sum_list (map de_size (fv_list v w (place path)))) mod 2 ^ 32, w')" "same_files v w1 w'"
    using assms(6) by (auto split: if_splits)
  with k o od show ?thesis by (auto simp: same_files_def)
qed

lemma calc_size_of_files_witness:
  "\<exists>w'. fs_calc_dir_size demo_fs 4 demo_flat ''/lfs/w'' 0 = Some (0, 3, w')"
proof -
  have "\<forall>e \<in> set (demo_list demo_flat [''lfs'', ''w'']). plain_entry e"
    using demo_flat_props(2) by (simp add: files_in_def)
  with calc_size_of_files [OF demo_dir_lawful, of "''/lfs/w''" demo_flat 4 0] demo_flat_props
  show ?thesis by (auto simp: demo_w)
qed

end
