(* ===== verification/Web_Files.thy ===== *)
theory Web_Files
  imports Fs_Helpers Rest_Relays
begin

text \<open>
  The web UI's files: \<open>http_common.c\<close> (the path check, the query parser and the upload),
  and the handlers \<open>webui_upload.c\<close>, \<open>webui_mkdir.c\<close> and \<open>webui_delete.c\<close>.
\<close>

section \<open>Paths and queries\<close>

definition segment_ok :: "string \<Rightarrow> bool" where
  "segment_ok seg \<longleftrightarrow> length seg \<noteq> 0 \<and> \<not> (length seg = 1 \<and> seg ! 0 = CHR ''.'') \<and>
     \<not> (length seg = 2 \<and> seg ! 0 = CHR ''.'' \<and> seg ! 1 = CHR ''.'')"

lemma strchr_shorter: "strchr p c = Some r \<Longrightarrow> length (drop 1 r) < length p"
  by (cases r) (auto dest!: strchr_SomeD)

function path_segments_ok :: "string \<Rightarrow> bool" where
  "path_segments_ok p =
     (if p = [] then True
      else (case strchr p (CHR ''/'') of
              None \<Rightarrow> segment_ok p
            | Some slash \<Rightarrow> segment_ok (take (length p - length slash) p) \<and> path_segments_ok (drop 1 slash)))"
  by pat_completeness auto
termination by (relation "measure length") (auto dest: strchr_shorter)

declare path_segments_ok.simps [simp del]

definition path_is_sane :: "string \<Rightarrow> bool" where
  "path_is_sane rel \<longleftrightarrow> rel \<noteq> [] \<and> rel ! 0 \<noteq> CHR ''/'' \<and> path_segments_ok rel"

text \<open>
  The value of a key, cut to what the caller's array takes. The keys the code asks for
  contain no \<open>&\<close>, so that where the key matches, the \<open>&\<close> found lies behind the \<open>=\<close>.
\<close>

function query_loop :: "string \<Rightarrow> string \<Rightarrow> nat \<Rightarrow> string option" where
  "query_loop q key out_sz =
     (if q = [] then None
      else (case strchr q (CHR ''='') of
              None \<Rightarrow> None
            | Some eq \<Rightarrow>
                let amp = (case strchr q (CHR ''&'') of Some a \<Rightarrow> a | None \<Rightarrow> []) in
                if length q - length eq = length key \<and> strncmp_eq q key (length key)
                then Some (take (out_sz - 1) (take (length (drop 1 eq) - length amp) (drop 1 eq)))
                else query_loop (drop 1 amp) key out_sz))"
  by pat_completeness auto
termination by (relation "measure (\<lambda>(q, key, n). length q)") (auto dest: strchr_shorter split: option.splits)

declare query_loop.simps [simp del]

definition query_get :: "string \<Rightarrow> string \<Rightarrow> nat \<Rightarrow> string option" where
  "query_get url key out_sz =
     (case strchr url (CHR ''?'') of None \<Rightarrow> None | Some q \<Rightarrow> query_loop (drop 1 q) key out_sz)"

section \<open>Upload\<close>

definition MAX_SIZE :: int where "MAX_SIZE = 150 * 1024"

definition CHUNK_BUF_CAP :: nat where "CHUNK_BUF_CAP = 512"

text \<open>An answer printed into an array of 256 bytes.\<close>

definition respond_err :: "http_response_ctx \<Rightarrow> nat \<Rightarrow> string \<Rightarrow> http_response_ctx" where
  "respond_err resp st text = respond resp st (take 255 text)"

definition upload_write ::
  "'w fs_api \<Rightarrow> string \<Rightarrow> string \<Rightarrow> int \<Rightarrow> byte list \<Rightarrow> http_response_ctx \<Rightarrow> 'w
     \<Rightarrow> (int \<times> http_response_ctx) \<times> 'w" where
  "upload_write fs abs_path file offset body resp w =
     (let (rc, w1) = fs_open_append fs w abs_path in
      if rc < 0
      then ((0, respond_err resp HTTP_400_BAD_REQUEST (''{\"error\":\"open('' @ file @ ''): '' @ int_dec rc @ ''\"}'')), w1)
      else let (w_res, w2) = fs_write fs w1 abs_path body in
      if w_res < 0 \<or> nat w_res \<noteq> length body
      then ((0, respond_err resp HTTP_500_INTERNAL_SERVER_ERROR
                 (''{\"error\":\"write('' @ file @ ''): '' @ int_dec w_res @ ''\"}'')), fs_close fs w2 abs_path)
      else ((0, respond resp HTTP_200_OK (nat_dec (nat (offset + w_res)))),
            fs_close fs (fs_sync fs w2 abs_path) abs_path))"

definition http_upload ::
  "'w fs_api \<Rightarrow> string \<Rightarrow> string \<Rightarrow> byte list \<Rightarrow> http_response_ctx \<Rightarrow> 'w \<Rightarrow> (int \<times> http_response_ctx) \<times> 'w" where
  "http_upload fs base_path url body resp w =
     (case query_get url ''file'' 192 of
        None \<Rightarrow> ((0, respond resp HTTP_400_BAD_REQUEST ''{\"error\":\"file required\"}''), w)
      | Some file \<Rightarrow>
      if \<not> path_is_sane file then ((0, respond resp HTTP_400_BAD_REQUEST ''{\"error\":\"invalid file\"}''), w)
      else (case query_get url ''offset'' 32 of
        None \<Rightarrow> ((0, respond resp HTTP_400_BAD_REQUEST ''{\"error\":\"offset required\"}''), w)
      | Some offsetStr \<Rightarrow>
      let offset = fst (strtol offsetStr 0) in
      if offset < 0 then ((0, respond resp HTTP_400_BAD_REQUEST ''{\"error\":\"offset < 0\"}''), w)
      else if offset + int (length body) > MAX_SIZE
      then ((0, respond_err resp HTTP_400_BAD_REQUEST
               (''{\"error\":\"'' @ file @ '' over max size of '' @ int_dec MAX_SIZE @ ''\"}'')), w)
      else let abs_path = child_path base_path file in
      if 256 \<le> length abs_path then ((0, respond resp HTTP_400_BAD_REQUEST ''{\"error\":\"path too long\"}''), w)
      else let w1 = (if offset = 0 then snd (fs_unlink fs w abs_path) else w);
               (rc, ent) = fs_stat fs w1 abs_path;
               fs_file_stat = (if 0 \<le> rc then ent else fs_uninit_dirent fs w1)
      in if de_type fs_file_stat \<noteq> FS_DIR_ENTRY_FILE \<and> 0 \<le> rc
      then ((0, respond_err resp HTTP_400_BAD_REQUEST (''{\"error\":\"'' @ file @ '' is not a file, it's dir\"}'')), w1)
      else if 0 < offset \<and> offset \<noteq> int (de_size fs_file_stat)
      then ((0, respond_err resp HTTP_400_BAD_REQUEST (''{\"error\":\"'' @ file @ '': offset mismatch\"}'')), w1)
      else upload_write fs abs_path file offset body resp w1))"

text \<open>The handler keeps the cursor where it is after the upload.\<close>

definition webui_chunk_put ::
  "'w fs_api \<Rightarrow> http_client_ctx \<Rightarrow> http_data_status \<Rightarrow> http_request_ctx \<Rightarrow> http_response_ctx
     \<Rightarrow> 'w \<times> post_ctx \<Rightarrow> (int \<times> http_response_ctx) \<times> ('w \<times> post_ctx)" where
  "webui_chunk_put fs client status req resp s =
     (if req_method client = HTTP_POST then
        let (w, pc) = s in
        (case post_receive status (req_data req) pc of
           (Post_Return rc, pc') \<Rightarrow> ((rc, resp), (w, pc'))
         | (Post_More, pc') \<Rightarrow> ((0, resp), (w, pc'))
         | (Post_Body body, pc') \<Rightarrow>
             let (r, w') = http_upload fs base_web_ui_fs_path (url_buffer client) body resp w in (r, (w', pc')))
      else ((- EINVAL, resp), s))"

section \<open>Making directories\<close>

definition mkdir_descr :: json_descr where
  "mkdir_descr = [(''path'', JSON_TOK_STRING_BUF 128)]"

definition mkdir_web_ui_files :: "'w fs_api \<Rightarrow> 'w \<Rightarrow> string \<Rightarrow> int \<times> 'w" where
  "mkdir_web_ui_files fs w path =
     (if path \<noteq> [] \<and> path ! 0 = CHR ''/'' then (- 1, w)
      else if path = [] then (- 1, w)
      else if 256 \<le> length (child_path base_web_ui_fs_path path) then (- 1, w)
      else fs_mkdir fs w (child_path base_web_ui_fs_path path))"

definition mkdir_post ::
  "'w sys_api \<Rightarrow> 'w fs_api \<Rightarrow> http_response_ctx \<Rightarrow> byte list \<Rightarrow> 'w \<Rightarrow> (int \<times> http_response_ctx) \<times> 'w" where
  "mkdir_post sys fs resp body w =
     (let (ret, vs) = json_obj_parse sys mkdir_descr body
      in if ret \<noteq> bit_mask (length mkdir_descr) then ((0, invalid_json resp), w)
         else let (rc, w') = mkdir_web_ui_files fs w (cstr (field_str (vs ! 0) (zeros 128)))
              in if 0 \<le> rc then ((0, respond resp HTTP_200_OK ''{\"success\":\"web ui dir created\"}''), w')
                 else ((0, respond resp HTTP_500_INTERNAL_SERVER_ERROR ''{\"error\":\"err creating web ui dir\"}''), w'))"

definition mkdir_web_ui_handler ::
  "'w sys_api \<Rightarrow> 'w fs_api \<Rightarrow> http_client_ctx \<Rightarrow> http_data_status \<Rightarrow> http_request_ctx \<Rightarrow> http_response_ctx
     \<Rightarrow> 'w \<times> post_ctx \<Rightarrow> (int \<times> http_response_ctx) \<times> ('w \<times> post_ctx)" where
  "mkdir_web_ui_handler sys fs client status req resp s =
     (if req_method client = HTTP_POST
      then post_step (mkdir_post sys fs resp) (\<lambda>rc. (rc, resp)) status (req_data req) s
      else ((- 1, resp), s))"

section \<open>Deleting everything\<close>

definition delete_web_ui_files :: "'w fs_api \<Rightarrow> nat \<Rightarrow> 'w \<Rightarrow> (int \<times> 'w) option" where
  "delete_web_ui_files fs fuel w =
     (case fs_delete_tree fs fuel w base_web_ui_fs_path of
        None \<Rightarrow> None
      | Some (_, w1) \<Rightarrow> Some (fs_mkdir fs (snd (fs_unlink fs w1 base_web_ui_fs_path)) base_web_ui_fs_path))"

definition webui_delete_handler ::
  "'w fs_api \<Rightarrow> nat \<Rightarrow> http_client_ctx \<Rightarrow> http_data_status \<Rightarrow> http_response_ctx \<Rightarrow> 'w
     \<Rightarrow> ((int \<times> http_response_ctx) \<times> 'w) option" where
  "webui_delete_handler fs fuel client status resp w =
     (if req_method client = HTTP_DELETE then
        (if status = HTTP_SERVER_DATA_FINAL then
           (case delete_web_ui_files fs fuel w of
              None \<Rightarrow> None
            | Some (rc, w') \<Rightarrow>
                if rc = 0 then Some ((0, respond resp HTTP_200_OK ''{\"success\":\"web ui files deleted\"}''), w')
                else Some ((0, respond resp HTTP_500_INTERNAL_SERVER_ERROR ''{\"error\":\"err deleting web ui files\"}''), w'))
         else Some ((0, resp), w))
      else Some ((- 1, resp), w))"

definition mkdir_step ::
  "'w sys_api \<Rightarrow> 'w fs_api \<Rightarrow> http_response_ctx \<Rightarrow> http_data_status \<Rightarrow> byte list \<Rightarrow> 'w \<times> post_ctx
     \<Rightarrow> (int \<times> http_response_ctx) \<times> ('w \<times> post_ctx)" where
  "mkdir_step sys fs resp status d = mkdir_web_ui_handler sys fs post_client status (with_body d) resp"

lemma mkdir_step_eq: "mkdir_step sys fs resp = post_step (mkdir_post sys fs resp) (\<lambda>rc. (rc, resp))"
  by (intro ext) (simp add: mkdir_step_def mkdir_web_ui_handler_def)

interpretation mkdir: body_receiver "mkdir_step sys fs resp" "\<lambda>s. post_inv 256 (snd s)"
    "\<lambda>s. post_pending (snd s)" fst "mkdir_post sys fs resp" 256 for sys fs resp
  unfolding mkdir_step_eq by (rule post_step_receiver)

section \<open>What the path check guarantees\<close>

lemma segment_ok_dots: "segment_ok s \<Longrightarrow> s \<noteq> [] \<and> s \<noteq> ''.'' \<and> s \<noteq> ''..''"
  by (auto simp: segment_ok_def)

lemma path_segments_no_dots: "path_segments_ok p \<Longrightarrow> s \<in> set (segments p) \<Longrightarrow> s \<noteq> ''.'' \<and> s \<noteq> ''..''"
proof (induction p rule: path_segments_ok.induct)
  case (1 p)
  show ?case
  proof (cases "p = []")
    case True
    with "1.prems" show ?thesis by simp
  next
    case ne: False
    then have eq: "path_segments_ok p = (case strchr p (CHR ''/'') of None \<Rightarrow> segment_ok p
        | Some slash \<Rightarrow> segment_ok (take (length p - length slash) p) \<and> path_segments_ok (drop 1 slash))"
      by (subst path_segments_ok.simps) simp
    show ?thesis
    proof (cases "strchr p (CHR ''/'')")
      case None
      then have "segments p = [p]" by (simp add: segments_one)
      moreover have "segment_ok p" using "1.prems"(1) unfolding eq None by simp
      ultimately show ?thesis using "1.prems"(2) segment_ok_dots by auto
    next
      case (Some slash)
      then obtain q where q: "p = q @ slash" "CHR ''/'' \<notin> set q" "slash \<noteq> []" "hd slash = CHR ''/''"
        by (auto dest!: strchr_SomeD)
      then obtain r where r: "slash = CHR ''/'' # r" by (cases slash) auto
      have ok: "segment_ok q" "path_segments_ok r"
        using "1.prems"(1) q(1) unfolding eq Some by (simp_all add: r)
      have "segments p = q # segments r" using q r segments_one [of q] by (simp add: segments_join)
      with "1.prems"(2) ok "1.IH" [OF ne Some] segment_ok_dots [OF ok(1)] r show ?thesis by auto
    qed
  qed
qed

lemma sane_first_segment:
  assumes "path_is_sane p"
  shows "\<exists>s \<in> set (segments p). s \<noteq> []"
proof -
  obtain c cs where "p = c # cs" "c \<noteq> CHR ''/''" using assms by (cases p) (auto simp: path_is_sane_def)
  then show ?thesis by (cases "segments cs") auto
qed

lemma place_sane:
  assumes "path_is_sane rel" and "mounted base"
  shows "\<exists>below. below \<noteq> [] \<and> place (child_path base rel) = place base @ below" and "below_mount (child_path base rel)"
proof -
  have "\<forall>s \<in> set (segments rel). s \<noteq> ''.'' \<and> s \<noteq> ''..''"
    using assms(1) path_segments_no_dots by (auto simp: path_is_sane_def)
  note pl = place_child_path [OF assms(2) this]
  have below: "filter (\<lambda>s. s \<noteq> []) (segments rel) \<noteq> []"
    using sane_first_segment [OF assms(1)] by (auto simp: filter_empty_conv)
  obtain ss where "place base = ''lfs'' # ss" by (rule mounted_cases [OF assms(2)])
  with pl below show "below_mount (child_path base rel)" by (simp add: below_mount_def)
  from pl(1) below show "\<exists>below. below \<noteq> [] \<and> place (child_path base rel) = place base @ below" by blast
qed

section \<open>What an upload changes\<close>

lemma paths_other:
  assumes "fs_paths_lawful fs v" and "q \<noteq> place p"
  shows "fv_node v (snd (fs_unlink fs w p)) q = fv_node v w q" and "fv_node v (snd (fs_mkdir fs w p)) q = fv_node v w q"
    and "fv_node v (snd (fs_open_append fs w p)) q = fv_node v w q" and "fv_node v (snd (fs_write fs w p d)) q = fv_node v w q"
  using assms unfolding fs_paths_lawful_def by blast+

lemma paths_same:
  assumes "fs_paths_lawful fs v"
  shows "fv_node v (fs_sync fs w p) = fv_node v w" and "fv_node v (fs_close fs w p) = fv_node v w"
    and "fv_node v (snd (snd (fs_opendir fs w p))) = fv_node v w" and "fv_node v (snd (snd (fs_readdir fs w h))) = fv_node v w"
    and "fv_node v (fs_closedir fs w h) = fv_node v w"
  using assms unfolding fs_paths_lawful_def by blast+

lemma sync_close_node:
  "fs_file_lawful fs v \<Longrightarrow> fv_node v (fs_sync fs w p) = fv_node v w"
  "fs_file_lawful fs v \<Longrightarrow> fv_node v (fs_close fs w p) = fv_node v w"
  unfolding fs_file_lawful_def by blast+

lemma http_upload_other:
  assumes laws: "fs_paths_lawful fs v" and up: "http_upload fs base url body resp w = (r, w')"
    and q: "\<And>rel. path_is_sane rel \<Longrightarrow> q \<noteq> place (child_path base rel)"
  shows "fv_node v w' q = fv_node v w q"
proof -
  have w': "w' = snd (http_upload fs base url body resp w)" by (simp add: up)
  show ?thesis
    unfolding w' http_upload_def upload_write_def
    by (auto simp: Let_def case_prod_beta paths_other [OF laws q] paths_same [OF laws] split: option.split)
qed

section \<open>Uploading in pieces\<close>

definition upload_url :: "string \<Rightarrow> nat \<Rightarrow> string" where
  "upload_url file off = ''/api/webui/upload?file='' @ file @ ''&offset='' @ nat_dec off"

definition file_name_ok :: "string \<Rightarrow> bool" where
  "file_name_ok f \<longleftrightarrow> path_is_sane f \<and> nul_free f \<and> length f < 192 \<and>
     CHR ''?'' \<notin> set f \<and> CHR ''='' \<notin> set f \<and> CHR ''&'' \<notin> set f"

lemma strncmp_eq_prefix: "nul_free k \<Longrightarrow> nul_free s \<Longrightarrow> strncmp_eq (k @ s) k (length k)"
  by (simp add: strncmp_eq_def cstr_id)

lemma query_loop_hit:
  assumes "nul_free key" and "nul_free val" and "CHR ''='' \<notin> set key" and "CHR ''&'' \<notin> set (key @ val)"
    and "length val < n" and "rest = [] \<or> hd rest = CHR ''&''" and "nul_free rest"
  shows "query_loop (key @ CHR ''='' # val @ rest) key n = Some val"
proof -
  let ?q = "key @ CHR ''='' # val @ rest"
  have eq: "strchr ?q (CHR ''='') = Some (CHR ''='' # val @ rest)" using assms(3) by (rule strchr_hit)
  have amp: "(case strchr ?q (CHR ''&'') of Some a \<Rightarrow> a | None \<Rightarrow> []) = rest"
  proof (cases rest)
    case Nil
    have "strchr ?q (CHR ''&'') = None" using assms(4) Nil by simp
    with Nil show ?thesis by (simp del: strchr_None_iff)
  next
    case (Cons c cs)
    with assms(6) have "c = CHR ''&''" by simp
    with Cons strchr_hit [of "CHR ''&''" "key @ CHR ''='' # val" cs] assms(4) show ?thesis by simp
  qed
  have "strncmp_eq ?q key (length key)" using assms by (intro strncmp_eq_prefix) auto
  moreover have "take (n - 1) val = val" using assms(5) by simp
  ultimately show ?thesis
    by (subst query_loop.simps) (simp only: eq amp option.case Let_def, simp)
qed

lemma query_loop_skip:
  assumes "CHR ''='' \<notin> set key'" and "CHR ''&'' \<notin> set (key' @ val)" and "length key' \<noteq> length key"
  shows "query_loop (key' @ CHR ''='' # val @ CHR ''&'' # rest) key n = query_loop rest key n"
proof -
  let ?q = "key' @ CHR ''='' # val @ CHR ''&'' # rest"
  have eq: "strchr ?q (CHR ''='') = Some (CHR ''='' # val @ CHR ''&'' # rest)" using assms(1) by (rule strchr_hit)
  have amp: "strchr ?q (CHR ''&'') = Some (CHR ''&'' # rest)"
    using strchr_hit [of "CHR ''&''" "key' @ CHR ''='' # val" rest] assms(2) by simp
  show ?thesis
    using assms(3) by (subst query_loop.simps) (simp only: eq amp option.case Let_def, simp)
qed

lemma upload_url_query:
  assumes "file_name_ok f" and "off < 10 ^ 8"
  shows "query_get (upload_url f off) ''file'' 192 = Some f"
    and "query_get (upload_url f off) ''offset'' 32 = Some (nat_dec off)"
proof -
  let ?rest = "''file='' @ f @ ''&offset='' @ nat_dec off"
  have q: "strchr (upload_url f off) (CHR ''?'') = Some (CHR ''?'' # ?rest)"
    by (simp add: upload_url_def)
  have "query_loop (''file'' @ CHR ''='' # f @ (''&offset='' @ nat_dec off)) ''file'' 192 = Some f"
    using assms(1) by (intro query_loop_hit) (auto simp: file_name_ok_def)
  then show "query_get (upload_url f off) ''file'' 192 = Some f"
    using q by (simp add: query_get_def)
  have dig: "CHR ''&'' \<notin> set (nat_dec off)" using nat_dec_digits [of "CHR ''&''" off] by (auto simp: is_digit_def char_code_def)
  have len: "length (nat_dec off) \<le> 8" using assms(2) by (intro length_nat_dec_le) auto
  have "query_loop (''file'' @ CHR ''='' # f @ CHR ''&'' # (''offset='' @ nat_dec off)) ''offset'' 32 =
      query_loop (''offset='' @ nat_dec off) ''offset'' 32"
    using assms(1) by (intro query_loop_skip) (auto simp: file_name_ok_def)
  moreover have "query_loop (''offset'' @ CHR ''='' # nat_dec off @ []) ''offset'' 32 = Some (nat_dec off)"
    using dig len by (intro query_loop_hit) auto
  ultimately show "query_get (upload_url f off) ''offset'' 32 = Some (nat_dec off)"
    using q by (simp add: query_get_def)
qed

lemma upload_write_200:
  assumes law: "fs_file_lawful fs v" and p: "below_mount p"
    and up: "upload_write fs p f off body resp w = ((rc, r), w')" "resp_status r = HTTP_200_OK"
  shows "fv_node v w' (place p) = Some (File ((case fv_node v w (place p) of Some (File c) \<Rightarrow> c | _ \<Rightarrow> []) @ body))"
proof -
  obtain rc1 w1 where o: "fs_open_append fs w p = (rc1, w1)" by (metis prod.collapse)
  obtain rc2 w2 where wr: "fs_write fs w1 p body = (rc2, w2)" by (metis prod.collapse)
  have "0 \<le> rc1" "0 \<le> rc2" "nat rc2 = length body" and w': "fv_node v w' = fv_node v w2"
    using law up o wr
    by (auto simp: upload_write_def respond_err_def http_status sync_close_node Let_def split: if_splits)
  have "fv_node v w1 (place p) = Some (File (case fv_node v w (place p) of Some (File c) \<Rightarrow> c | _ \<Rightarrow> []))"
    using law p o \<open>0 \<le> rc1\<close> unfolding fs_file_lawful_def by (metis fun_upd_same)
  moreover have "fv_node v w2 (place p) = Some (File (c @ take (nat rc2) body))" if "fv_node v w1 (place p) = Some (File c)" for c
    using law p wr that \<open>0 \<le> rc2\<close> unfolding fs_file_lawful_def by (metis fun_upd_same)
  ultimately show ?thesis using w' \<open>nat rc2 = length body\<close> by simp
qed

lemma unlink_no_file:
  "fs_unlink_lawful fs v \<Longrightarrow> below_mount p \<Longrightarrow> fv_node v (snd (fs_unlink fs w p)) (place p) \<in> {None, Some Dir}"
  using unlink_law [of fs v p w "fst (fs_unlink fs w p)" "snd (fs_unlink fs w p)"]
  by (auto simp: same_files_def split: if_splits)

lemma http_upload_named:
  assumes "file_name_ok f" and "off \<le> 153600" and "length (child_path base f) < 256"
  shows "http_upload fs base (upload_url f off) body resp w =
     (if off + length body > 153600
      then ((0, respond_err resp HTTP_400_BAD_REQUEST
               (''{\"error\":\"'' @ f @ '' over max size of '' @ int_dec MAX_SIZE @ ''\"}'')), w)
      else let w1 = (if off = 0 then snd (fs_unlink fs w (child_path base f)) else w);
               (rc, ent) = fs_stat fs w1 (child_path base f);
               fs_file_stat = (if 0 \<le> rc then ent else fs_uninit_dirent fs w1)
      in if de_type fs_file_stat \<noteq> FS_DIR_ENTRY_FILE \<and> 0 \<le> rc
      then ((0, respond_err resp HTTP_400_BAD_REQUEST (''{\"error\":\"'' @ f @ '' is not a file, it's dir\"}'')), w1)
      else if 0 < off \<and> off \<noteq> de_size fs_file_stat
      then ((0, respond_err resp HTTP_400_BAD_REQUEST (''{\"error\":\"'' @ f @ '': offset mismatch\"}'')), w1)
      else upload_write fs (child_path base f) f (int off) body resp w1)"
proof -
  have "off < 10 ^ 8" "int off \<le> long_max" using assms(2) by (simp_all add: long_max_def)
  note q = upload_url_query [OF assms(1) this(1)] strtol_0_nat_dec [OF this(2)]
  have sane: "path_is_sane f" using assms(1) by (simp add: file_name_ok_def)
  have "int off + int (length body) > MAX_SIZE \<longleftrightarrow> off + length body > 153600"
    unfolding MAX_SIZE_def by linarith
  then show ?thesis
    using assms(3) sane unfolding http_upload_def q option.case Let_def fst_conv
    by (simp add: not_le split: prod.split)
qed

lemma http_upload_200:
  assumes laws: "fs_file_lawful fs v" "fs_unlink_lawful fs v"
    and f: "file_name_ok f" "length (child_path base f) < 256" and base: "mounted base" and "off \<le> 153600"
    and up: "http_upload fs base (upload_url f off) body resp w = ((rc, r), w')" "resp_status r = HTTP_200_OK"
    and old: "0 < off \<longrightarrow> fv_node v w (place (child_path base f)) = Some (File c)" "length c = off"
  shows "fv_node v w' (place (child_path base f)) = Some (File (c @ body))" and "off + length body \<le> 153600"
proof -
  let ?p = "child_path base f"
  let ?w1 = "if off = 0 then snd (fs_unlink fs w ?p) else w"
  obtain src ent where st: "fs_stat fs ?w1 ?p = (src, ent)" by (metis prod.collapse)
  have p: "below_mount ?p" using place_sane(2) [OF _ base] f(1) by (simp add: file_name_ok_def)
  note eq = http_upload_named [OF f(1) assms(6) f(2), of fs body resp w]
  show "off + length body \<le> 153600"
    using up eq by (auto simp: respond_err_def http_status split: if_splits)
  have "upload_write fs ?p f (int off) body resp ?w1 = ((rc, r), w')" and "src < 0 \<or> de_type ent = FS_DIR_ENTRY_FILE"
    using up eq st by (auto simp: respond_err_def http_status Let_def split: if_splits)
  note res = upload_write_200 [OF laws(1) p this(1) up(2)]
  show "fv_node v w' (place ?p) = Some (File (c @ body))"
  proof (cases "off = 0")
    case True
    then have "fv_node v ?w1 (place ?p) \<in> {None, Some Dir}" using unlink_no_file [OF laws(2) p, of w] by simp
    then show ?thesis using res True old(2) by (auto split: option.splits)
  next
    case False
    with old(1) res show ?thesis by simp
  qed
qed

fun upload_all :: "'w fs_api \<Rightarrow> string \<Rightarrow> string \<Rightarrow> http_response_ctx \<Rightarrow> nat \<Rightarrow> 'w \<Rightarrow> byte list list \<Rightarrow> nat list \<times> 'w" where
  "upload_all fs base f resp off w [] = ([], w)"
| "upload_all fs base f resp off w (b # bs) =
     (let ((rc, r), w') = http_upload fs base (upload_url f off) b resp w;
          (sts, w'') = upload_all fs base f resp (off + length b) w' bs
      in (resp_status r # sts, w''))"

lemma upload_all_content:
  assumes laws: "fs_file_lawful fs v" "fs_unlink_lawful fs v"
    and f: "file_name_ok f" "length (child_path base f) < 256" "mounted base"
    and "length c \<le> 153600" and "0 < length c \<longrightarrow> fv_node v w (place (child_path base f)) = Some (File c)"
    and "upload_all fs base f resp (length c) w (b # bs) = (sts, w')" and "\<forall>st \<in> set sts. st = HTTP_200_OK"
  shows "fv_node v w' (place (child_path base f)) = Some (File (c @ concat (b # bs)))"
  using assms(6-)
proof (induction bs arbitrary: b c w sts)
  case Nil
  obtain rc r w1 where u: "http_upload fs base (upload_url f (length c)) b resp w = ((rc, r), w1)" by (metis prod.collapse)
  with Nil http_upload_200 [OF laws f Nil.prems(1) u _ Nil.prems(2) refl] show ?case by auto
next
  case (Cons b2 bs)
  obtain rc r w1 where u: "http_upload fs base (upload_url f (length c)) b resp w = ((rc, r), w1)" by (metis prod.collapse)
  obtain sts2 w2 where a: "upload_all fs base f resp (length c + length b) w1 (b2 # bs) = (sts2, w2)" by (metis prod.collapse)
  have s: "sts = resp_status r # sts2" "w' = w2" using Cons.prems(3) u a by (simp_all del: upload_all.simps(2) add: upload_all.simps(2) [of fs base f resp "length c" w b])
  then have "resp_status r = HTTP_200_OK" using Cons.prems(4) by simp
  note up = http_upload_200 [OF laws f Cons.prems(1) u this Cons.prems(2) refl]
  have "upload_all fs base f resp (length (c @ b)) w1 (b2 # bs) = (sts2, w')" using a s by simp
  from Cons.IH [OF _ _ this] up Cons.prems(4) s show ?case by auto
qed

section \<open>A web root\<close>

definition demo_root :: demo_fsw where
  "demo_root = \<lparr>df_nodes = [([''lfs''], Dir), ([''lfs'', ''www''], Dir), ([''lfs'', ''www'', ''a''], File ''x'')], df_open = []\<rparr>"

definition demo_root_css :: demo_fsw where
  "demo_root_css = \<lparr>df_nodes = [([''lfs''], Dir), ([''lfs'', ''www''], Dir), ([''lfs'', ''www'', ''css''], Dir),
     ([''lfs'', ''www'', ''a''], File ''x'')], df_open = []\<rparr>"

lemma demo_name_ok: "file_name_ok ''b''" "length (child_path base_web_ui_fs_path ''b'') < 256"
  by code_simp+

lemma web_root_place [simp]:
  "place base_web_ui_fs_path = [''lfs'', ''www'']" "mounted base_web_ui_fs_path" "below_mount base_web_ui_fs_path"
proof -
  have "segments base_web_ui_fs_path = [[], ''lfs'', ''www'']" by code_simp
  then show "place base_web_ui_fs_path = [''lfs'', ''www'']" "mounted base_web_ui_fs_path" "below_mount base_web_ui_fs_path"
    by (simp_all add: place_def mounted_def below_mount_def)
qed

section \<open>Properties\<close>

text \<open>
  Uploads stay inside the web root: whatever the request's URL and body, every place whose
  node an upload changes lies strictly below the base path.
\<close>

lemma upload_stays_below_root:
  assumes "fs_paths_lawful fs v" and "mounted base"
    and "http_upload fs base url body resp w = (r, w')" and "fv_node v w' q \<noteq> fv_node v w q"
  shows "\<exists>below. below \<noteq> [] \<and> q = place base @ below"
proof -
  obtain rel where "path_is_sane rel" "q = place (child_path base rel)"
    using http_upload_other [OF assms(1,3), of q] assms(4) by blast
  with place_sane(1) [OF _ assms(2), of rel] show ?thesis by simp
qed

text \<open>
  A file arrives complete: when it is sent in pieces, each with the number of bytes
  sent before it as its offset, and every request is answered with 200, the file holds
  the pieces one after the other, whatever was there before.
\<close>

lemma upload_in_pieces:
  assumes "fs_file_lawful fs v" and "fs_unlink_lawful fs v"
    and "file_name_ok f" and "length (child_path base f) < 256" and "mounted base"
    and "upload_all fs base f resp 0 w bs = (sts, w')" and "bs \<noteq> []" and "\<forall>st \<in> set sts. st = HTTP_200_OK"
  shows "fv_node v w' (place (child_path base f)) = Some (File (concat bs))"
proof -
  obtain b bs' where bs: "bs = b # bs'" using assms(7) by (cases bs) auto
  from upload_all_content [OF assms(1-5), of "[]" w resp b bs' sts w'] assms(6,8)
  show ?thesis unfolding bs by simp
qed

lemma upload_in_pieces_witness:
  "demo_node (snd (upload_all demo_fs base_web_ui_fs_path ''b'' demo_resp 0 demo_root [''ab'', ''c''])) [''lfs'', ''www'', ''b''] =
     Some (File ''abc'')"
proof -
  obtain sts w' where u: "upload_all demo_fs base_web_ui_fs_path ''b'' demo_resp 0 demo_root [''ab'', ''c''] = (sts, w')"
    by (metis prod.collapse)
  have "fst (upload_all demo_fs base_web_ui_fs_path ''b'' demo_resp 0 demo_root [''ab'', ''c'']) = [HTTP_200_OK, HTTP_200_OK]"
    by code_simp
  with u have "\<forall>st \<in> set sts. st = HTTP_200_OK" by simp
  from upload_in_pieces [OF demo_file_lawful demo_unlink_lawful demo_name_ok _ u _ this] u
  show ?thesis by (simp add: place_child proper_name_def del: upload_all.simps)
qed

text \<open>
  C37. The upload handler forgets to reset its cursor: after a first request has been
  answered, the body of the next one is uploaded with the first body in front of it.
\<close>

theorem second_upload_repeats_first:
  assumes "post_inv 512 pc" and "post_pending pc = []" and "length (d1 @ d2) \<le> 512"
    and "req_method client = HTTP_POST" and "req_method client' = HTTP_POST"
    and "webui_chunk_put fs client HTTP_SERVER_DATA_FINAL (with_body d1) resp (w, pc) = (r1, (w1, pc1))"
  shows "fst (webui_chunk_put fs client' HTTP_SERVER_DATA_FINAL (with_body d2) resp' (w1, pc1)) =
    fst (http_upload fs base_web_ui_fs_path (url_buffer client') (d1 @ d2) resp' w1)"
proof -
  have "HTTP_SERVER_DATA_FINAL \<noteq> HTTP_SERVER_DATA_ABORTED" by simp
  from post_receive_fits [OF assms(1) this, of d1] assms(2,3) obtain pc' where
    pc': "post_inv 512 pc'" "post_pending pc' = d1"
      "post_receive HTTP_SERVER_DATA_FINAL d1 pc = (Post_Body d1, pc')" by auto
  then have "pc1 = pc'" using assms(4,6) by (auto simp: webui_chunk_put_def Let_def split: prod.splits)
  moreover obtain pc'' where "post_receive HTTP_SERVER_DATA_FINAL d2 pc' = (Post_Body (d1 @ d2), pc'')"
    using post_receive_fits [OF pc'(1) \<open>HTTP_SERVER_DATA_FINAL \<noteq> HTTP_SERVER_DATA_ABORTED\<close>, of d2] pc'(2) assms(3)
    by auto
  ultimately show ?thesis using assms(5) by (simp add: webui_chunk_put_def Let_def split: prod.split)
qed

theorem second_upload_repeats_first_witness:
  "\<exists>w1 pc1. fst (webui_chunk_put demo_fs \<lparr>req_method = HTTP_POST, url_buffer = upload_url ''c'' 0\<rparr>
      HTTP_SERVER_DATA_FINAL (with_body ''cd'') demo_resp (w1, pc1)) =
    fst (http_upload demo_fs base_web_ui_fs_path (upload_url ''c'' 0) ''abcd'' demo_resp w1)"
proof -
  obtain r1 w1 pc1 where u: "webui_chunk_put demo_fs \<lparr>req_method = HTTP_POST, url_buffer = upload_url ''b'' 0\<rparr>
      HTTP_SERVER_DATA_FINAL (with_body ''ab'') demo_resp (demo_root, post_ctx_init 512) = (r1, (w1, pc1))"
    by (metis prod.collapse)
  from second_upload_repeats_first [OF post_inv_init post_pending_init _ _ _ u,
      of "''cd''" "\<lparr>req_method = HTTP_POST, url_buffer = upload_url ''c'' 0\<rparr>" demo_resp]
  show ?thesis by (intro exI [of _ w1] exI [of _ pc1]) simp
qed

text \<open>
  C39. The mkdir request has no such check: a path that starts with \<open>../\<close> is accepted and
  creates a directory beside the web root instead of below it.
\<close>

theorem mkdir_leaves_root:
  assumes "fs_dir_lawful fs v" and "proper_name name" and "length name < 200"
    and "fv_node v w [''lfs''] = Some Dir" and "fv_node v w [''lfs'', name] = None"
  shows "\<exists>w'. mkdir_web_ui_files fs w (''../'' @ name) = (0, w') \<and> fv_node v w' = (fv_node v w)([''lfs'', name] \<mapsto> Dir)"
proof -
  let ?p = "child_path base_web_ui_fs_path (''../'' @ name)"
  have "segments (''..'' @ CHR ''/'' # name) = [''..'', name]"
    using segments_one [of name] assms(2) unfolding segments_join by (simp add: proper_name_def)
  then have "segments ?p = [[], ''lfs'', ''www'', ''..'', name]"
    by (simp add: child_path_def base_web_ui_fs_path_def)
  then have p: "place ?p = [''lfs'', name]" "below_mount ?p"
    using assms(2) by (simp_all add: place_def below_mount_def mounted_def proper_name_def)
  obtain rc w' where m: "fs_mkdir fs w ?p = (rc, w')" by (metis prod.collapse)
  from assms(1) have "\<And>w p rc w'. below_mount p \<Longrightarrow> fs_mkdir fs w p = (rc, w') \<Longrightarrow>
      fv_node v w (place p) = None \<Longrightarrow> fv_node v w (butlast (place p)) = Some Dir \<Longrightarrow>
      rc = 0 \<and> fv_node v w' = (fv_node v w)(place p \<mapsto> Dir)"
    unfolding fs_dir_lawful_def by (metis (full_types))
  from this [OF p(2) m] have "rc = 0" "fv_node v w' = (fv_node v w)([''lfs'', name] \<mapsto> Dir)"
    using assms(4,5) p(1) by simp_all
  moreover have "mkdir_web_ui_files fs w (''../'' @ name) = fs_mkdir fs w ?p"
    using assms(3) by (simp add: mkdir_web_ui_files_def child_path_def base_web_ui_fs_path_def)
  ultimately show ?thesis using m by simp
qed

theorem mkdir_leaves_root_witness:
  "\<exists>w'. mkdir_web_ui_files demo_fs demo_root ''../x'' = (0, w') \<and> demo_node w' [''lfs'', ''x''] = Some Dir"
proof -
  have "fv_node demo_view demo_root [''lfs''] = Some Dir" "fv_node demo_view demo_root [''lfs'', ''x''] = None" by code_simp+
  with mkdir_leaves_root [OF demo_dir_lawful, of "''x''" demo_root] show ?thesis by (auto simp: proper_name_def)
qed

section \<open>Clearing the web root\<close>

lemma mkdir_fresh:
  assumes "fs_dir_lawful fs v" and "below_mount p" and "fv_node v w (place p) = None"
    and "fv_node v w (butlast (place p)) = Some Dir" and "\<And>name. fv_node v w (place p @ [name]) = None"
  shows "\<exists>w'. fs_mkdir fs w p = (0, w') \<and> fv_node v w' = (fv_node v w)(place p \<mapsto> Dir) \<and> fv_list v w' (place p) = []"
  using assms unfolding fs_dir_lawful_def by (metis (full_types) prod.exhaust_sel)

lemma mkdir_exists:
  assumes "fs_dir_lawful fs v" and "below_mount p" and "fv_node v w (place p) \<noteq> None"
  shows "\<exists>rc w'. fs_mkdir fs w p = (rc, w') \<and> rc < 0 \<and> same_files v w w'"
  using assms unfolding fs_dir_lawful_def by (metis (full_types) prod.exhaust_sel)

lemma delete_web_ui_flat:
  fixes v w
  defines "q \<equiv> [''lfs'', ''www'']"
  assumes laws: "fs_unlink_lawful fs v" "fs_dir_lawful fs v"
    and root: "fv_node v w [''lfs''] = Some Dir" and dir: "fv_node v w q = Some Dir"
    and flat: "files_in v w base_web_ui_fs_path (fv_list v w q)"
    and all: "\<And>name. fv_node v w (q @ [name]) \<noteq> None \<Longrightarrow> name \<in> de_name ` set (fv_list v w q)"
    and fuel: "length (fv_list v w q) + 1 < k"
  shows "\<exists>w'. delete_web_ui_files fs k w = Some (0, w') \<and>
    fv_node v w' q = Some Dir \<and> fv_list v w' q = [] \<and> (\<forall>name. fv_node v w' (q @ [name]) = None)"
proof -
  let ?p = base_web_ui_fs_path
  have p: "place ?p = q" "below_mount ?p" by (simp_all add: q_def)
  from delete_tree_files [OF laws p(2), of w k] dir flat fuel p(1) obtain w1 where
    w1: "fs_delete_tree fs k w ?p = Some (0, w1)" "files_removed v (removed q (fv_list v w q)) w w1" by auto
  have none: "fv_node v w1 q = None" "fv_node v w1 (q @ [name]) = None" for name
    using w1(2) all [of name] by (auto simp: files_removed_def removed_def)
  have root1: "fv_node v w1 [''lfs''] = Some Dir"
    using w1(2) root by (auto simp: files_removed_def removed_def q_def)
  obtain rc w2 where u: "fs_unlink fs w1 ?p = (rc, w2)" by (metis prod.collapse)
  have same: "same_files v w1 w2" using unlink_law [OF laws(1) p(2) u] none(1) p(1) by simp
  then have "fv_node v w2 (place ?p) = None" "\<And>name. fv_node v w2 (place ?p @ [name]) = None"
    "fv_node v w2 (butlast (place ?p)) = Some Dir"
    using none root1 by (simp_all add: same_files_def q_def)
  from mkdir_fresh [OF laws(2) p(2) this(1,3,2)] p(1) obtain w3 where
    "fs_mkdir fs w2 ?p = (0, w3)" "fv_node v w3 = (fv_node v w2)(q \<mapsto> Dir)" "fv_list v w3 q = []" by auto
  with w1(1) u none same show ?thesis by (simp add: delete_web_ui_files_def same_files_def)
qed

lemma delete_web_ui_subdir:
  fixes v w
  defines "q \<equiv> [''lfs'', ''www'']"
  assumes laws: "fs_unlink_lawful fs v" "fs_dir_lawful fs v"
    and dir: "fv_node v w q = Some Dir" "fv_list v w q = e # es" "es \<noteq> []"
    and d: "distinct (map de_name (e # es))" "de_type e = FS_DIR_ENTRY_DIR" "proper_name (de_name e)"
    "length (child_path base_web_ui_fs_path (de_name e)) < PATH_MAX"
    and sub: "fv_node v w (q @ [de_name e]) = Some Dir" "fv_list v w (q @ [de_name e]) = []"
    and fuel: "4 < k"
  shows "\<exists>rc w'. delete_web_ui_files fs k w = Some (rc, w') \<and> rc < 0 \<and> fv_list v w' q = es \<and>
    fv_node v w' = (fv_node v w)(q @ [de_name e] := None)"
proof -
  let ?p = base_web_ui_fs_path
  have p: "place ?p = q" "below_mount ?p" by (simp_all add: q_def)
  from delete_tree_subdir [OF laws p(2), of w e es k] dir d sub fuel p(1) obtain rc w1 where
    w1: "fs_delete_tree fs k w ?p = Some (rc, w1)"
      "fv_node v w1 = (fv_node v w)(q @ [de_name e] := None)" "fv_list v w1 q = es" by auto
  then have p1: "fv_node v w1 (place ?p) = Some Dir" using dir(1) p(1) by simp
  obtain rc2 w2 where u: "fs_unlink fs w1 ?p = (rc2, w2)" by (metis prod.collapse)
  have s2: "same_files v w1 w2" using unlink_refused(2) [OF laws(1) p(2) u p1] w1(3) dir(3) p(1) by simp
  then have "fv_node v w2 (place ?p) \<noteq> None" using p1 by (simp add: same_files_def)
  from mkdir_exists [OF laws(2) p(2) this] obtain rc3 w3 where
    "fs_mkdir fs w2 ?p = (rc3, w3)" "rc3 < 0" "same_files v w2 w3" by blast
  with w1 u s2 show ?thesis by (simp add: delete_web_ui_files_def same_files_def)
qed

text \<open>
  Deleting the web interface works when it is a flat directory of files: the request is
  answered with 200, and the web root is an empty directory afterwards.
\<close>

lemma webui_delete_clears_flat_root:
  assumes "fs_unlink_lawful fs v" and "fs_dir_lawful fs v"
    and "fv_node v w [''lfs''] = Some Dir" and "fv_node v w [''lfs'', ''www''] = Some Dir"
    and "files_in v w base_web_ui_fs_path (fv_list v w [''lfs'', ''www''])"
    and "\<And>name. fv_node v w [''lfs'', ''www'', name] \<noteq> None \<Longrightarrow> name \<in> de_name ` set (fv_list v w [''lfs'', ''www''])"
    and "length (fv_list v w [''lfs'', ''www'']) + 1 < k" and "req_method client = HTTP_DELETE"
  shows "\<exists>r w'. webui_delete_handler fs k client HTTP_SERVER_DATA_FINAL resp w = Some ((0, r), w') \<and>
    resp_status r = HTTP_200_OK \<and> fv_node v w' (place base_web_ui_fs_path) = Some Dir \<and>
    fv_list v w' (place base_web_ui_fs_path) = [] \<and>
    (\<forall>name. fv_node v w' (place base_web_ui_fs_path @ [name]) = None)"
  using delete_web_ui_flat [OF assms(1-5) _ assms(7)] assms(6,8) by (auto simp: webui_delete_handler_def)

lemma webui_delete_clears_flat_root_witness:
  "\<exists>r w'. webui_delete_handler demo_fs 3 \<lparr>req_method = HTTP_DELETE, url_buffer = []\<rparr> HTTP_SERVER_DATA_FINAL
     demo_resp demo_root = Some ((0, r), w') \<and> demo_list w' [''lfs'', ''www''] = []"
proof -
  have l: "demo_list demo_root [''lfs'', ''www''] = [demo_dirent ''a'' (File ''x'')]" by code_simp
  have n: "demo_node demo_root [''lfs''] = Some Dir" "demo_node demo_root [''lfs'', ''www''] = Some Dir"
    "demo_node demo_root [''lfs'', ''www'', ''a''] = Some (File ''x'')" by code_simp+
  have all: "name \<in> de_name ` set (demo_list demo_root [''lfs'', ''www''])"
    if "demo_node demo_root [''lfs'', ''www'', name] \<noteq> None" for name
    using that unfolding l by (auto simp: demo_node_def demo_root_def demo_dirent_def split: if_splits)
  have "\<exists>r w'. webui_delete_handler demo_fs 3 \<lparr>req_method = HTTP_DELETE, url_buffer = []\<rparr> HTTP_SERVER_DATA_FINAL
      demo_resp demo_root = Some ((0, r), w') \<and> resp_status r = HTTP_200_OK \<and>
      fv_node demo_view w' (place base_web_ui_fs_path) = Some Dir \<and> fv_list demo_view w' (place base_web_ui_fs_path) = [] \<and>
      (\<forall>name. fv_node demo_view w' (place base_web_ui_fs_path @ [name]) = None)"
    by (rule webui_delete_clears_flat_root [OF demo_unlink_lawful demo_dir_lawful])
      (use n l all in \<open>auto simp: files_in_def plain_entry_def proper_name_def demo_dirent_def child_path_def
         base_web_ui_fs_path_def PATH_MAX_def place_def\<close>)
  then show ?thesis by auto
qed

text \<open>
  With a sub-directory it does not: when the web root's first entry is an (empty)
  sub-directory and others follow, the request is answered with 500 and all the other
  files of the interface are still there.
\<close>

lemma webui_delete_fails_on_subdirectory:
  assumes "fs_unlink_lawful fs v" and "fs_dir_lawful fs v"
    and "fv_node v w [''lfs'', ''www''] = Some Dir" and "fv_list v w [''lfs'', ''www''] = e # es" and "es \<noteq> []"
    and "distinct (map de_name (e # es))" and "de_type e = FS_DIR_ENTRY_DIR" and "proper_name (de_name e)"
    and "length (child_path base_web_ui_fs_path (de_name e)) < PATH_MAX"
    and "fv_node v w ([''lfs'', ''www''] @ [de_name e]) = Some Dir" and "fv_list v w ([''lfs'', ''www''] @ [de_name e]) = []"
    and "4 < k" and "req_method client = HTTP_DELETE"
  shows "\<exists>r w'. webui_delete_handler fs k client HTTP_SERVER_DATA_FINAL resp w = Some ((0, r), w') \<and>
    resp_status r = HTTP_500_INTERNAL_SERVER_ERROR \<and> fv_list v w' [''lfs'', ''www''] = es \<and>
    fv_node v w' = (fv_node v w)([''lfs'', ''www''] @ [de_name e] := None)"
  using delete_web_ui_subdir [OF assms(1-12)] assms(13) by (auto simp: webui_delete_handler_def)

lemma webui_delete_fails_on_subdirectory_witness:
  "\<exists>r w'. webui_delete_handler demo_fs 5 \<lparr>req_method = HTTP_DELETE, url_buffer = []\<rparr> HTTP_SERVER_DATA_FINAL
     demo_resp demo_root_css = Some ((0, r), w') \<and> resp_status r = HTTP_500_INTERNAL_SERVER_ERROR"
proof -
  have l: "demo_list demo_root_css [''lfs'', ''www''] = [demo_dirent ''css'' Dir, demo_dirent ''a'' (File ''x'')]" by code_simp
  have n: "demo_node demo_root_css [''lfs'', ''www''] = Some Dir"
    "demo_node demo_root_css [''lfs'', ''www'', ''css''] = Some Dir" "demo_list demo_root_css [''lfs'', ''www'', ''css''] = []"
    by code_simp+
  show ?thesis
    using webui_delete_fails_on_subdirectory [OF demo_unlink_lawful demo_dir_lawful, of demo_root_css
        "demo_dirent ''css'' Dir" "[demo_dirent ''a'' (File ''x'')]" 5 "\<lparr>req_method = HTTP_DELETE, url_buffer = []\<rparr>" demo_resp] l n
    by (auto simp: demo_dirent_def proper_name_def PATH_MAX_def child_path_def base_web_ui_fs_path_def)
qed

end
