(* ===== verification/Main_App.thy ===== *)
theory Main_App
  imports Mqtt_Task Io Authentication Web_Files
begin

text \<open>
  How the parts are started: \<open>main.c\<close>, \<open>littlefs/littlefs_mount.c\<close>, \<open>web/http_server_init.c\<close>,
  \<open>REST_endpoints/system_reboot.c\<close> and the test page of \<open>test_functions.c\<close>. The handler of
  the address event starts the HTTP server and the MQTT threads; \<open>app_state\<close> holds the
  static variables it touches. \<open>app_main\<close> is \<open>main\<close> up to its loop.
\<close>

section \<open>The file system\<close>

definition mount_or_mkfs :: "'w boot_api \<Rightarrow> 'w \<Rightarrow> int \<times> 'w" where
  "mount_or_mkfs bt w =
     (let (rc, w1) = fs_mount bt w
      in if rc = 0 then (0, w1)
         else let (rc, w2) = fs_mkfs bt w1 in if rc \<noteq> 0 then (rc, w2) else fs_mount bt w2)"

definition fs_service_init :: "'w boot_api \<Rightarrow> 'w \<Rightarrow> int \<times> 'w" where
  "fs_service_init bt w = (let (rc, w1) = mount_or_mkfs bt w in if rc \<noteq> 0 then (rc, w1) else (0, w1))"

definition erase_partition_by_id :: "'w boot_api \<Rightarrow> u8 \<Rightarrow> 'w \<Rightarrow> int \<times> 'w" where
  "erase_partition_by_id bt part_id w =
     (let (rc, size, w1) = flash_area_open bt w part_id
      in if rc \<noteq> 0 then (rc, w1)
         else let (rc, w2) = flash_area_erase bt w1 part_id 0 size;
                  w3 = flash_area_close bt w2 part_id
              in if rc \<noteq> 0 then (rc, w3) else (0, w3))"

definition index_html_path :: string where "index_html_path = ''/lfs/www/index.html''"

definition test_page :: string where
  "test_page =
     ''<!DOCTYPE html>'' @ [NL] @ ''<html>'' @ [NL] @ ''<head><title>Test Page</title></head>'' @ [NL] @
     ''<body>'' @ [NL] @ ''  <h1>Hello from Zephyr!</h1>'' @ [NL] @ ''</body>'' @ [NL] @ ''</html>'' @ [NL]"

definition create_index_html :: "'w fs_rw_api \<Rightarrow> 'w \<Rightarrow> int \<times> 'w" where
  "create_index_html rw w =
     (let (ret, w1) = fs_open_rw rw w index_html_path
      in if ret < 0 then (ret, w1)
         else let (ret, w2) = fs_write_front rw w1 index_html_path test_page
              in if ret < 0 then (ret, fs_close_rw rw w2 index_html_path) else (0, fs_close_rw rw w2 index_html_path))"

section \<open>Starting the services\<close>

record app_state =
  ap_auth :: auth_state
  ap_mqtt_sett :: mqtt_settings_t
  ap_relays_default :: relays_def_state

definition app_http_server_init :: "'w sys_api \<Rightarrow> 'w boot_api \<Rightarrow> auth_state \<times> 'w \<Rightarrow> auth_state \<times> 'w" where
  "app_http_server_init sys bt s =
     (let (st, w) = s; (st', w') = authentication_init sys w st in (st', http_server_start bt w'))"

text \<open>
  The event is only looked at after the services were started; what follows reads the
  address into a local array.
\<close>

definition ipv4_addr_add_handler :: "'w sys_api \<Rightarrow> 'w boot_api \<Rightarrow> app_state \<times> 'w \<Rightarrow> app_state \<times> 'w" where
  "ipv4_addr_add_handler sys bt s =
     (let (ap, w) = s;
          (auth, w1) = app_http_server_init sys bt (ap_auth ap, w);
          (sett, w2) = app_mqtt_ha_client_init sys bt (ap_mqtt_sett ap, w1)
      in (ap\<lparr>ap_auth := auth, ap_mqtt_sett := sett\<rparr>, w2))"

text \<open>\<open>reboot_handler\<close>: the reboot happens inside the handler, so no answer is sent.\<close>

definition reboot :: "'w kernel_api \<Rightarrow> 'w boot_api \<Rightarrow> 'w \<Rightarrow> 'w" where
  "reboot kn bt w = sys_reboot bt (k_sleep kn w)"

definition reboot_handler ::
  "'w kernel_api \<Rightarrow> 'w boot_api \<Rightarrow> http_client_ctx \<Rightarrow> http_data_status \<Rightarrow> 'w \<Rightarrow> int \<times> 'w" where
  "reboot_handler kn bt client status w =
     (0, if req_method client = HTTP_POST \<and> status = HTTP_SERVER_DATA_FINAL then reboot kn bt w else w)"

section \<open>Booting\<close>

definition make_mac_from_uid :: "u32 \<times> u32 \<times> u32 \<Rightarrow> byte list" where
  "make_mac_from_uid uid =
     (let (a, b, c) = uid;
          h = a XOR push_bit 11 b XOR push_bit 22 c XOR drop_bit 7 a XOR drop_bit 3 b
      in [CHR 0x02, CHR 0x00, CHR 0x5E] @
         map (\<lambda>n. char_of (unat (ucast (drop_bit n h) :: u8))) [16, 8, 0])"

text \<open>The address that \<open>main\<close> gives the interface.\<close>

definition main_mac :: "byte list" where
  "main_mac = [CHR 0x02, CHR 0x00, CHR 0x00, CHR 0x12, CHR 0x34, CHR 0x56]"

definition make_dirs :: "'w fs_api \<Rightarrow> 'w \<Rightarrow> 'w" where
  "make_dirs fs w =
     foldl (\<lambda>w p. snd (fs_mkdir fs w p)) w
       [''/lfs/test1'', ''/lfs/test1/test2'', ''/lfs/test1/test2/test3'', ''/lfs/www'']"

definition start_network :: "'w boot_api \<Rightarrow> bool \<Rightarrow> 'w \<Rightarrow> 'w" where
  "start_network bt iface w =
     (if iface then net_dhcpv4_start bt (net_if_up bt (net_set_mac bt (net_if_down bt w) main_mac)) else w)"

text \<open>\<open>io_init\<close> with the creation of its thread.\<close>

definition io_start :: "'w sys_api \<Rightarrow> 'w boot_api \<Rightarrow> relays_def_state \<times> 'w \<Rightarrow> relays_def_state \<times> 'w" where
  "io_start sys bt dw = (let (d, w) = io_init sys dw in (d, k_thread_create bt w Io_Thread))"

text \<open>
  \<open>None\<close>: \<open>main\<close> returns early. The interface is looked up before the settings are
  loaded and started after; the \<open>mac\<close> computed from the chip's identifier is not used.
\<close>

definition app_main ::
  "'w sys_api \<Rightarrow> 'w boot_api \<Rightarrow> 'w kernel_api \<Rightarrow> 'w fs_api \<Rightarrow> 'w fs_rw_api \<Rightarrow> app_state \<times> 'w \<Rightarrow> (app_state \<times> 'w) option" where
  "app_main sys bt kn fs rw s =
     (let (ap, w) = s in
      if \<not> led_is_ready bt w then None
      else let (ret, w1) = led_configure bt w in
      if ret < 0 \<or> \<not> flash_is_ready bt w1 \<or> \<not> entropy_is_ready bt w1 then None
      else let w2 = add_ipv4_callback bt w1;
               iface = net_if_get_default kn w2;
               mac = make_mac_from_uid (stm32_uid bt);
               w3 = settings_load bt (settings_subsys_init bt w2);
               w4 = snd (fs_service_init bt w3);
               (d, w5) = io_start sys bt (ap_relays_default ap, w4);
               w6 = start_network bt iface w5;
               w7 = snd (create_index_html rw (make_dirs fs w6))
           in Some (ap\<lparr>ap_relays_default := d\<rparr>, w7))"

text \<open>The loop of \<open>main\<close> with fuel for its turns; \<open>False\<close>: the LED failed and \<open>main\<close> returned.\<close>

fun main_loop :: "'w boot_api \<Rightarrow> 'w kernel_api \<Rightarrow> nat \<Rightarrow> 'w \<Rightarrow> bool \<times> 'w" where
  "main_loop bt kn 0 w = (True, w)"
| "main_loop bt kn (Suc k) w =
     (let (ret, w1) = led_toggle bt w in if ret < 0 then (False, w1) else main_loop bt kn k (k_sleep kn w1))"

section \<open>Lemmas\<close>

lemma empty_table_refuses: "\<not> fst (check_token_at now token (replicate n web_session_zero))"
proof -
  have "strlen (zeros SESSION_TOKEN_SIZE) = 0" by (simp add: strlen_def)
  then have "find_index (\<lambda>s. strlen (ss_token s) \<noteq> 0 \<and> strcmp_eq (ss_token s) token) (replicate n web_session_zero) = None"
    by (auto simp: find_index_None_iff web_session_zero_def)
  then show ?thesis by (simp add: check_token_at_def)
qed

lemma index_html_is_below_root: "child_path base_web_ui_fs_path ''index.html'' = index_html_path"
  by (simp add: child_path_def base_web_ui_fs_path_def index_html_path_def)

lemma index_html_place [simp]: "place index_html_path = [''lfs'', ''www'', ''index.html'']" "below_mount index_html_path"
proof -
  have "segments index_html_path = [[], ''lfs'', ''www'', ''index.html'']" by code_simp
  then show "place index_html_path = [''lfs'', ''www'', ''index.html'']" "below_mount index_html_path"
    by (simp_all add: place_def mounted_def below_mount_def)
qed

lemma index_html_ok: "file_name_ok ''index.html''" "length (child_path base_web_ui_fs_path ''index.html'') < 256"
  by code_simp+

lemma create_index_html_content:
  fixes v w
  defines "q \<equiv> [''lfs'', ''www'', ''index.html'']"
  assumes laws: "fs_rw_lawful rw v"
    and full: "\<forall>w c d. fv_node v w q = Some (File c) \<longrightarrow>
      0 \<le> fst (fs_open_rw rw w index_html_path) \<and> fst (fs_write_front rw w index_html_path d) = int (length d)"
    and old: "fv_node v w q = Some (File c)"
  shows "fv_node v (snd (create_index_html rw w)) q = Some (File (overlay test_page c))"
proof -
  have p: "below_mount index_html_path" "place index_html_path = q" by (simp_all add: q_def)
  obtain rc1 w1 where o: "fs_open_rw rw w index_html_path = (rc1, w1)" by fastforce
  obtain rc2 w2 where wr: "fs_write_front rw w1 index_html_path test_page = (rc2, w2)" by fastforce
  have law: "fs_open_rw rw w p = (rc, w') \<Longrightarrow> 0 \<le> rc \<Longrightarrow>
        fv_node v w' = (fv_node v w)(place p \<mapsto> File (case fv_node v w (place p) of Some (File c) \<Rightarrow> c | _ \<Rightarrow> []))"
    "fs_write_front rw w p d = (rc, w') \<Longrightarrow> fv_node v w (place p) = Some (File c) \<Longrightarrow> 0 \<le> rc \<Longrightarrow>
        fv_node v w' = (fv_node v w)(place p \<mapsto> File (overlay (take (nat rc) d) c))"
    "fv_node v (fs_close_rw rw w p') = fv_node v w" if "below_mount p" for w p p' c d rc w'
    using laws that unfolding fs_rw_lawful_def by blast+
  have rc1: "0 \<le> rc1" using full old o by (metis fst_conv)
  have n1: "fv_node v w1 q = Some (File c)" using law(1) [OF p(1) o rc1] old p(2) by simp
  then have rc2: "rc2 = int (length test_page)" using full wr by (metis fst_conv)
  have "fv_node v w2 = (fv_node v w1)(q \<mapsto> File (overlay test_page c))"
    using law(2) [OF p(1) wr] n1 rc2 p(2) by simp
  then show ?thesis using o wr rc1 rc2 law(3) [OF p(1)] by (simp add: create_index_html_def)
qed

text \<open>
  The order of \<open>main\<close>. A view \<open>g\<close> of the world is kept by its calls if the device's drivers,
  the settings' initialisation, the network and the mount leave it alone; formatting may not,
  but is only tried when the mount fails.
\<close>

definition boot_keeps :: "'w boot_api \<Rightarrow> ('w \<Rightarrow> 'g) \<Rightarrow> bool" where
  "boot_keeps bt g \<longleftrightarrow> (\<forall>w. g (snd (led_configure bt w)) = g w) \<and> (\<forall>w. g (add_ipv4_callback bt w) = g w) \<and>
     (\<forall>w. g (settings_subsys_init bt w) = g w) \<and> (\<forall>w. g (settings_load bt w) = g w) \<and>
     (\<forall>w. g (snd (fs_mount bt w)) = g w) \<and> ((\<forall>w. fst (fs_mount bt w) = 0) \<or> (\<forall>w. g (snd (fs_mkfs bt w)) = g w)) \<and>
     (\<forall>w. g (net_if_down bt w) = g w) \<and> (\<forall>w. g (net_if_up bt w) = g w) \<and> (\<forall>w m. g (net_set_mac bt w m) = g w) \<and>
     (\<forall>w. g (net_dhcpv4_start bt w) = g w)"

lemma boot_keeps_pair: "boot_keeps bt g \<Longrightarrow> boot_keeps bt h \<Longrightarrow> boot_keeps bt (\<lambda>w. (g w, h w))"
  unfolding boot_keeps_def by (elim conjE disjE) simp_all

lemma fs_service_keeps: "boot_keeps bt g \<Longrightarrow> g (snd (fs_service_init bt w)) = g w"
  unfolding boot_keeps_def
  by (elim conjE disjE) (simp_all add: fs_service_init_def mount_or_mkfs_def case_prod_beta Let_def)

lemma start_network_keeps: "boot_keeps bt g \<Longrightarrow> g (start_network bt iface w) = g w"
  by (simp add: boot_keeps_def start_network_def)

lemma app_main_stages:
  assumes keeps: "boot_keeps bt g" and main: "app_main sys bt kn fs rw (ap, w) = Some (ap', w')"
  obtains w4 d w5 w6 where "g w4 = g w" and "io_init sys (ap_relays_default ap, w4) = (d, w5)"
    and "ap' = ap\<lparr>ap_relays_default := d\<rparr>" and "g w6 = g (k_thread_create bt w5 Io_Thread)"
    and "w' = snd (create_index_html rw (make_dirs fs w6))"
proof -
  let ?w3 = "settings_load bt (settings_subsys_init bt (add_ipv4_callback bt (snd (led_configure bt w))))"
  let ?w4 = "snd (fs_service_init bt ?w3)"
  let ?iface = "net_if_get_default kn (add_ipv4_callback bt (snd (led_configure bt w)))"
  obtain d w5 where i: "io_init sys (ap_relays_default ap, ?w4) = (d, w5)" by fastforce
  have "g ?w4 = g w" using keeps fs_service_keeps [OF keeps, of ?w3] by (simp add: boot_keeps_def)
  moreover have "g (start_network bt b (k_thread_create bt w5 Io_Thread)) = g (k_thread_create bt w5 Io_Thread)" for b
    by (rule start_network_keeps [OF keeps])
  ultimately show thesis
    using main i by (intro that [of ?w4 d w5 "start_network bt ?iface (k_thread_create bt w5 Io_Thread)"]) (auto simp: app_main_def io_start_def Let_def case_prod_beta split: if_splits)
qed

text \<open>The directories, and a view that none of them is in.\<close>

lemma make_dirs_keeps: "\<forall>w p. g (snd (fs_mkdir fs w p)) = g w \<Longrightarrow> g (make_dirs fs w) = g w"
  by (simp add: make_dirs_def)

lemma make_dirs_other:
  assumes "fs_paths_lawful fs v"
  shows "fv_node v (make_dirs fs w) [''lfs'', ''www'', ''index.html''] = fv_node v w [''lfs'', ''www'', ''index.html'']"
proof -
  have "place ''/lfs/test1'' \<noteq> [''lfs'', ''www'', ''index.html'']" "place ''/lfs/test1/test2'' \<noteq> [''lfs'', ''www'', ''index.html'']"
    "place ''/lfs/test1/test2/test3'' \<noteq> [''lfs'', ''www'', ''index.html'']" "place ''/lfs/www'' \<noteq> [''lfs'', ''www'', ''index.html'']"
    by code_simp+
  then show ?thesis by (simp add: make_dirs_def paths_other(2) [OF assms])
qed

lemma io_init_keeps: "\<forall>w k x. g (snd (settings_save_one sys w k x)) = g w \<Longrightarrow> g (snd (io_init sys (d, w))) = g w"
  by (simp add: io_init_def io_load_default_def case_prod_beta Let_def)

lemma client_init_fields:
  "client_init hs sett addr = Some c \<Longrightarrow> cl_broker c = addr \<and> cl_user_name c = cstr (ms_user sett) \<and> cl_password c = cstr (ms_pass sett)"
  by (auto simp: client_init_def split: option.splits)

section \<open>Properties\<close>

definition demo_app :: app_state where
  "demo_app = \<lparr>ap_auth = demo_auth, ap_mqtt_sett = mqtt_settings_zero, ap_relays_default = demo_safe\<rparr>"

definition demo_web_sys :: "demo_fsw sys_api" where
  "demo_web_sys = \<lparr>uninit = (\<lambda>w n. replicate n (CHR 0xAA)), settings_load_one = (\<lambda>w k n. (- ENOENT, [])),
     settings_save_one = (\<lambda>w k v. (0, w)), time_now = (\<lambda>w. (1000, w)), sys_csrand_get = (\<lambda>w n. (replicate n (CHR 0x5A), w)),
     mbedtls_sha256 = mbedtls_sha256 demo_sys, base64_decode = base64_decode demo_sys, json_obj_parse = demo_json\<rparr>"

definition demo_web_kernel :: "'w kernel_api" where
  "demo_web_kernel = \<lparr>k_sleep = (\<lambda>w. w), k_uptime_get = (\<lambda>w. 0), k_uptime_seconds = (\<lambda>w. 0), sys_rand16_get = (\<lambda>w. (7, w)),
     hwinfo_get_device_id = (\<lambda>w n. (- EINVAL, [])), inet_pton_ok = (\<lambda>s. s \<noteq> []), net_if_get_default = (\<lambda>w. False),
     net_if_ipv4_get_global_addr = (\<lambda>w. None), net_addr_ntop = (\<lambda>a n. None)\<rparr>"

text \<open>
  C34. The boot damages an uploaded start page: \<open>main\<close> writes its test page over
  \<open>index.html\<close> without truncating it, so a page that was uploaded completely, in any pieces,
  is after the next boot the test page followed by what is left of the uploaded one.
\<close>

theorem boot_overwrites_index_html:
  assumes "fs_file_lawful fs v" and "fs_unlink_lawful fs v" and "fs_paths_lawful fs v" and "fs_rw_lawful rw v"
    and "\<forall>w c d. fv_node v w [''lfs'', ''www'', ''index.html''] = Some (File c) \<longrightarrow>
      0 \<le> fst (fs_open_rw rw w index_html_path) \<and> fst (fs_write_front rw w index_html_path d) = int (length d)"
    and "boot_keeps bt (fv_node v)" and "\<forall>w k x. fv_node v (snd (settings_save_one sys w k x)) = fv_node v w"
    and "\<forall>w t. fv_node v (k_thread_create bt w t) = fv_node v w"
    and "upload_all fs base_web_ui_fs_path ''index.html'' resp 0 w bs = (sts, w1)" and "bs \<noteq> []" and "\<forall>st \<in> set sts. st = HTTP_200_OK"
    and "fv_node v wb = fv_node v w1" and "app_main sys bt kn fs rw (ap, wb) = Some (ap', w')"
  shows "fv_node v w1 (place index_html_path) = Some (File (concat bs)) \<and>
    fv_node v w' (place index_html_path) = Some (File (test_page @ drop (length test_page) (concat bs)))"
proof -
  let ?q = "[''lfs'', ''www'', ''index.html'']"
  note ok = index_html_ok web_root_place(2)
  obtain b bs' where bs: "bs = b # bs'" using assms(10) by (cases bs) auto
  have up: "fv_node v w1 ?q = Some (File (concat bs))"
    using upload_all_content [OF assms(1,2) ok, of "[]" w resp b bs' sts w1] assms(9,11)
    unfolding bs index_html_is_below_root by simp
  obtain w4 d w5 w6 where st: "fv_node v w4 = fv_node v wb" "io_init sys (ap_relays_default ap, w4) = (d, w5)"
    "fv_node v w6 = fv_node v (k_thread_create bt w5 Io_Thread)" "w' = snd (create_index_html rw (make_dirs fs w6))"
    by (rule app_main_stages [OF assms(6,13)])
  have "fv_node v (make_dirs fs w6) ?q = Some (File (concat bs))"
    using make_dirs_other [OF assms(3), of w6] st(1-3) io_init_keeps [OF assms(7), of "ap_relays_default ap" w4] assms(8,12) up
    by simp
  from create_index_html_content [OF assms(4,5) this] up st(4) show ?thesis by (simp add: overlay_def)
qed

theorem boot_overwrites_index_html_witness:
  "map_option (\<lambda>(ap', w'). demo_node w' (place index_html_path)) (app_main demo_web_sys demo_bt demo_web_kernel demo_fs demo_rw
     (demo_app, snd (upload_all demo_fs base_web_ui_fs_path ''index.html'' demo_resp 0 demo_root [replicate 110 (CHR ''a''), ''bc'']))) =
   Some (Some (File (test_page @ drop (length test_page) (replicate 110 (CHR ''a'') @ ''bc''))))"
proof -
  let ?bs = "[replicate 110 (CHR ''a''), ''bc'']"
  obtain sts w1 where u: "upload_all demo_fs base_web_ui_fs_path ''index.html'' demo_resp 0 demo_root ?bs = (sts, w1)"
    by (metis prod.collapse)
  have "fst (upload_all demo_fs base_web_ui_fs_path ''index.html'' demo_resp 0 demo_root ?bs) = [HTTP_200_OK, HTTP_200_OK]"
    by code_simp
  with u have ok: "\<forall>st \<in> set sts. st = HTTP_200_OK" by simp
  have full: "\<forall>w c d. fv_node demo_view w [''lfs'', ''www'', ''index.html''] = Some (File c) \<longrightarrow>
      0 \<le> fst (fs_open_rw demo_rw w index_html_path) \<and> fst (fs_write_front demo_rw w index_html_path d) = int (length d)"
    by (simp add: demo_rw_def demo_open_def)
  have boot: "boot_keeps demo_bt (fv_node demo_view)" "\<forall>w t. fv_node demo_view (k_thread_create demo_bt w t) = fv_node demo_view w"
    "\<forall>w k x. fv_node demo_view (snd (settings_save_one demo_web_sys w k x)) = fv_node demo_view w"
    by (simp_all add: boot_keeps_def demo_bt_def demo_web_sys_def)
  obtain ap' w' where m: "app_main demo_web_sys demo_bt demo_web_kernel demo_fs demo_rw (demo_app, w1) = Some (ap', w')"
    by (simp add: app_main_def demo_bt_def Let_def case_prod_beta)
  from boot_overwrites_index_html [OF demo_file_lawful demo_unlink_lawful demo_paths_lawful demo_rw_lawful full boot(1,3,2) u _ ok refl m] m u
  show ?thesis by (simp add: demo_view_def del: upload_all.simps)
qed

text \<open>
  C35. Every address event restarts the services: each time the interface gets an address,
  the table of sessions is emptied, so that no token opened before is accepted any more,
  and with MQTT enabled both MQTT threads are created again on top of those that run.
\<close>

theorem address_event_restarts_services:
  assumes "threads_lawful bt created" and "\<forall>w k bs. created (snd (settings_save_one sys w k bs)) = created w"
    and "ipv4_addr_add_handler sys bt (ap, w) = (ap', w')"
  shows "(\<forall>now token. \<not> fst (check_token_at now token (as_sessions (ap_auth ap')))) \<and>
    created w' = created w @ (if ms_enabled (ap_mqtt_sett ap') then [Mqtt_Thread, Ha_Thread] else [])"
proof -
  obtain auth w1 where a: "authentication_init sys w (ap_auth ap) = (auth, w1)" by fastforce
  have "created w1 = created w" and s: "as_sessions auth = replicate MAX_SESSIONS web_session_zero"
    using a assms(2) by (auto simp: authentication_init_def users_init_def Let_def split: if_splits prod.splits)
  then have "created (http_server_start bt w1) = created w" using assms(1) by (simp add: threads_lawful_def)
  then show ?thesis
    using assms(1,3) a s
    by (auto simp: ipv4_addr_add_handler_def app_http_server_init_def app_mqtt_ha_client_init_def threads_lawful_def Let_def
        empty_table_refuses split: if_splits)
qed

definition demo_boot_sys :: "(demo_world \<times> app_thread list) sys_api" where
  "demo_boot_sys = \<lparr>uninit = (\<lambda>w n. replicate n (CHR 0xAA)),
     settings_load_one = (\<lambda>(w, ts). demo_load w),
     settings_save_one = (\<lambda>(w, ts) k v. let (rc, w') = demo_save w k v in (rc, (w', ts))),
     time_now = (\<lambda>(w, ts). (dw_clock w, (w, ts))), sys_csrand_get = (\<lambda>s n. (replicate n (CHR 0x5A), s)),
     mbedtls_sha256 = (\<lambda>m. (0, take 32 (m @ replicate 32 NUL))), base64_decode = (\<lambda>n s. (- ENOMEM, [])), json_obj_parse = demo_json\<rparr>"

definition demo_boot :: "(demo_world \<times> app_thread list) boot_api" where
  "demo_boot = \<lparr>k_thread_create = (\<lambda>(w, ts) t. (w, ts @ [t])), http_server_start = (\<lambda>s. s), led_is_ready = (\<lambda>s. True),
     led_configure = (\<lambda>s. (0, s)), led_toggle = (\<lambda>s. (0, s)), flash_is_ready = (\<lambda>s. True), entropy_is_ready = (\<lambda>s. True),
     add_ipv4_callback = (\<lambda>s. s), stm32_uid = (1, 2, 3), settings_subsys_init = (\<lambda>s. s), settings_load = (\<lambda>s. s),
     net_if_down = (\<lambda>s. s), net_if_up = (\<lambda>s. s), net_set_mac = (\<lambda>s m. s), net_dhcpv4_start = (\<lambda>s. s),
     fs_mount = (\<lambda>s. (0, s)), fs_mkfs = (\<lambda>s. (0, s)), flash_area_open = (\<lambda>s i. (0, 0, s)),
     flash_area_erase = (\<lambda>s i a b. (0, s)), flash_area_close = (\<lambda>s i. s), sys_reboot = (\<lambda>s. s)\<rparr>"

lemma demo_threads_lawful: "threads_lawful demo_boot snd"
  by (auto simp: threads_lawful_def demo_boot_def)

lemma demo_saves_create_nothing: "\<forall>w k bs. snd (snd (settings_save_one demo_boot_sys w k bs)) = snd w"
  by (auto simp: demo_boot_sys_def demo_save_def)

lemma demo_boot_lawful: "settings_lawful demo_boot_sys" "saves_succeed demo_boot_sys" "json_lawful demo_boot_sys"
proof -
  show "settings_lawful demo_boot_sys"
    by (auto simp: settings_lawful_def settings_load_ok_def settings_save_ok_def demo_boot_sys_def
        demo_load_def demo_save_def errno split: option.splits if_splits)
  show "saves_succeed demo_boot_sys" by (auto simp: saves_succeed_def demo_boot_sys_def demo_save_def)
  show "json_lawful demo_boot_sys" using demo_json_lawful by (simp add: json_lawful_def demo_boot_sys_def demo_sys_def)
qed

theorem address_event_restarts_services_witness:
  "let s = (demo_init\<lparr>dw_settings := [(mqtt_enabled_settings, [bool_byte True])]\<rparr>, [Mqtt_Thread, Ha_Thread])
   in snd (snd (ipv4_addr_add_handler demo_boot_sys demo_boot (demo_app, s))) = [Mqtt_Thread, Ha_Thread, Mqtt_Thread, Ha_Thread]"
proof -
  let ?s = "(demo_init\<lparr>dw_settings := [(mqtt_enabled_settings, [bool_byte True])]\<rparr>, [Mqtt_Thread, Ha_Thread])"
  obtain ap' w' where h: "ipv4_addr_add_handler demo_boot_sys demo_boot (demo_app, ?s) = (ap', w')" by (metis prod.collapse)
  have "ms_enabled (ap_mqtt_sett ap')"
    using h by (auto simp: ipv4_addr_add_handler_def app_http_server_init_def app_mqtt_ha_client_init_def authentication_init_def
        users_init_def Let_def load_mqtt_fields_def load_bool_setting_def demo_boot_sys_def demo_boot_def demo_load_def demo_save_def
        settings_keys split: prod.splits if_splits)
  with address_event_restarts_services [OF demo_threads_lawful demo_saves_create_nothing h] h show ?thesis by simp
qed

text \<open>
  All devices get the same hardware address: what \<open>main\<close> does does not depend on the
  chip's identifier, from which it computes an address that it then does not use.
\<close>

lemma mac_ignores_chip_identifier:
  "app_main sys (bt\<lparr>stm32_uid := uid\<rparr>) kn fs rw s = app_main sys bt kn fs rw s"
  by (simp add: app_main_def fs_service_init_def mount_or_mkfs_def io_start_def start_network_def Let_def split: prod.split)

lemma authentication_init_loads:
  assumes "settings_lawful sys" and "saves_succeed sys" and "k \<noteq> web_users_settings"
  shows "settings_load_one sys (snd (authentication_init sys w st)) k n = settings_load_one sys w k n"
  using load_after_save(2) [OF assms(1,2) _ assms(3)]
  by (simp add: authentication_init_def users_init_def web_users_bytes_def Let_def case_prod_beta)

lemma authentication_init_created:
  "\<forall>w k bs. created (snd (settings_save_one sys w k bs)) = created w \<Longrightarrow>
     created (snd (authentication_init sys w st)) = created w"
  by (simp add: authentication_init_def users_init_def Let_def case_prod_beta)

lemma load_mqtt_fields_cong:
  assumes "\<And>k n. k \<noteq> web_users_settings \<Longrightarrow> settings_load_one sys w' k n = settings_load_one sys w k n"
  shows "load_mqtt_fields sys w' m = load_mqtt_fields sys w m"
  using assms by (simp add: load_mqtt_fields_def load_bool_setting_def settings_keys)

text \<open>
  C14. Broker settings posted over the REST interface are what the device connects with
  after the next boot: when the device gets its address, the two MQTT threads are created
  exactly when the request enabled MQTT, the host that is looked up and the port (modulo
  65536) are those of the request, and the client logs in with its user name and password.
\<close>

theorem posted_broker_used_at_boot:
  assumes "settings_lawful sys" and "saves_succeed sys" and "json_lawful sys"
    and "ended es" and "length (concat ds @ d) \<le> 256"
    and "json_obj_parse sys mqtt_settings_descr (concat ds @ d) =
      (bit_mask (length mqtt_settings_descr),
       [Some (JBool en), Some (JStr host), Some (JInt port), Some (JStr user), Some (JStr pass)])"
    and "mqtt_step sys resp HTTP_SERVER_DATA_FINAL d
        (calls (mqtt_step sys resp) (es @ pieces ds) (settings_init w u)) = ((rc, r), ((w', u', b'), pc'))"
    and "rebooted sys w' wb" and "\<forall>w k n. settings_load_one sys (http_server_start bt w) k n = settings_load_one sys w k n"
    and "threads_lawful bt created" and "\<forall>w k bs. created (snd (settings_save_one sys w k bs)) = created w"
    and "ap_mqtt_sett ap = mqtt_settings_zero" and "ipv4_addr_add_handler sys bt (ap, wb) = (ap', w2)"
  shows "created w2 = created wb @ (if en then [Mqtt_Thread, Ha_Thread] else []) \<and>
    cstr (ms_host (ap_mqtt_sett ap')) = host \<and> uint (ms_port (ap_mqtt_sett ap')) = port mod 65536 \<and>
    (\<forall>hs addr c. client_init hs (ap_mqtt_sett ap') addr = Some c \<longrightarrow>
       cl_broker c = addr \<and> cl_user_name c = user \<and> cl_password c = pass)"
proof -
  let ?m = "posted_mqtt en host port user pass"
  have m: "app_settings_mqtt_load sys w' = ?m" "cstr (ms_host ?m) = host" "uint (ms_port ?m) = port mod 65536"
    using mqtt_posted [OF assms(1-7)] by simp_all
  have nf: "nul_free user" "nul_free pass" by (rule mqtt_descr_values [OF assms(3,6)], simp)+
  define w1 where "w1 = http_server_start bt (snd (authentication_init sys wb (ap_auth ap)))"
  have "settings_load_one sys w1 k n = settings_load_one sys w' k n" if "k \<noteq> web_users_settings" for k n
    using authentication_init_loads [OF assms(1,2) that] assms(8,9) by (simp add: w1_def rebooted_def)
  then have "load_mqtt_fields sys w1 mqtt_settings_zero = ?m"
    using load_mqtt_fields_cong [of sys w1 w' mqtt_settings_zero] m(1) by (simp add: app_settings_mqtt_load_def)
  moreover have "ms_enabled ?m = en" by (simp add: posted_mqtt_def)
  ultimately have sett: "ap_mqtt_sett ap' = ?m"
    and w2: "w2 = (if en then k_thread_create bt (k_thread_create bt w1 Mqtt_Thread) Ha_Thread else w1)"
    using assms(12,13)
    by (auto simp: ipv4_addr_add_handler_def app_http_server_init_def app_mqtt_ha_client_init_def w1_def Let_def
        case_prod_beta split: if_splits)
  have "created w1 = created wb"
    using authentication_init_created [OF assms(11)] assms(10) by (simp add: w1_def threads_lawful_def)
  moreover have "cstr (ms_user ?m) = user" "cstr (ms_pass ?m) = pass"
    using nf by (simp_all add: posted_mqtt_def cstr_append_NUL)
  ultimately show ?thesis
    using m(2,3) client_init_fields [of _ ?m] assms(10) by (auto simp: sett w2 threads_lawful_def)
qed

theorem posted_broker_used_at_boot_witness:
  "let wb = fst (fst (snd (mqtt_step demo_boot_sys demo_resp HTTP_SERVER_DATA_FINAL ''1h7up''
      (calls (mqtt_step demo_boot_sys demo_resp) (pieces []) (settings_init (demo_init, []) 0)))))
   in snd (snd (ipv4_addr_add_handler demo_boot_sys demo_boot (demo_app, wb))) = snd wb @ [Mqtt_Thread, Ha_Thread]"
proof -
  obtain rc r w' u' b' pc' where s: "mqtt_step demo_boot_sys demo_resp HTTP_SERVER_DATA_FINAL ''1h7up''
      (calls (mqtt_step demo_boot_sys demo_resp) ([] @ pieces []) (settings_init (demo_init, []) 0)) =
      ((rc, r), ((w', u', b'), pc'))" by (metis prod.collapse)
  have js: "json_obj_parse demo_boot_sys mqtt_settings_descr (concat [] @ ''1h7up'') =
      (bit_mask (length mqtt_settings_descr),
       [Some (JBool True), Some (JStr ''h''), Some (JInt 55), Some (JStr ''u''), Some (JStr ''p'')])"
    by code_simp
  obtain ap' w2 where i: "ipv4_addr_add_handler demo_boot_sys demo_boot (demo_app, w') = (ap', w2)"
    by (metis prod.collapse)
  have rb: "rebooted demo_boot_sys w' w'" by (simp add: rebooted_def)
  have st: "\<forall>w k n. settings_load_one demo_boot_sys (http_server_start demo_boot w) k n = settings_load_one demo_boot_sys w k n"
    by (simp add: demo_boot_def)
  have z: "ap_mqtt_sett demo_app = mqtt_settings_zero" by (simp add: demo_app_def)
  from posted_broker_used_at_boot [OF demo_boot_lawful(1-3) ended_Nil _ js s rb st demo_threads_lawful demo_saves_create_nothing z i] s i
  show ?thesis by (simp add: Let_def)
qed

text \<open>
  C18. A safe state set over the REST interface is what the io thread starts with after the
  next boot: when the body of the request parses, the request is answered with 200, the
  flag "reboot required" is set, and \<open>main\<close>, if the device's drivers are ready, loads exactly
  the posted values and creates the io thread, and no other one, with them.
\<close>

theorem posted_safe_state_loaded_at_boot:
  assumes "settings_lawful sys" and "saves_succeed sys"
    and "ended es" and "length (concat ds @ d) \<le> 256"
    and "json_obj_parse sys relays_def_state_descr (concat ds @ d) =
      (bit_mask (length relays_def_state_descr),
       [Some (JBool en), Some (JBool r1), Some (JBool r2), Some (JBool r3)])"
    and "def_relay_step sys resp HTTP_SERVER_DATA_FINAL d
        (calls (def_relay_step sys resp) (es @ pieces ds) (settings_init w u)) = ((rc, r), ((w', u', b'), pc'))"
    and "rebooted sys w' wb" and "boot_keeps bt (settings_load_one sys)"
    and "threads_lawful bt created" and "boot_keeps bt created" and "\<forall>w p. created (snd (fs_mkdir fs w p)) = created w"
    and "\<forall>w. created (snd (create_index_html rw w)) = created w"
    and "app_main sys bt kn fs rw (ap, wb) = Some (ap', w2)"
  shows "resp_status r = HTTP_200_OK \<and> u' = 1 \<and>
    ap' = ap\<lparr>ap_relays_default := \<lparr>rd_enabled = en, rd_relay1 = r1, rd_relay2 = r2, rd_relay3 = r3\<rparr>\<rparr> \<and>
    created w2 = created wb @ [Io_Thread]"
proof -
  let ?d = "\<lparr>rd_enabled = en, rd_relay1 = r1, rd_relay2 = r2, rd_relay3 = r3\<rparr>"
  note post = def_relay_posted [OF assms(3-6)]
  obtain w4 d' w5 w6 where st: "(settings_load_one sys w4, created w4) = (settings_load_one sys wb, created wb)"
    "io_init sys (ap_relays_default ap, w4) = (d', w5)" "ap' = ap\<lparr>ap_relays_default := d'\<rparr>"
    "(settings_load_one sys w6, created w6) = (settings_load_one sys (k_thread_create bt w5 Io_Thread), created (k_thread_create bt w5 Io_Thread))"
    "w2 = snd (create_index_html rw (make_dirs fs w6))"
    by (rule app_main_stages [OF boot_keeps_pair [OF assms(8,10)] assms(13)])
  have "rebooted sys w' w4" using assms(7) st(1) by (simp add: rebooted_def)
  then have "io_init sys (ap_relays_default ap, w4) = (?d, w4)"
    using post io_init_saved [OF assms(1,2)] by auto
  moreover have "created w2 = created w6" using st(5) make_dirs_keeps [OF assms(11)] assms(12) by simp
  ultimately show ?thesis using post st assms(9) by (simp add: threads_lawful_def)
qed

theorem posted_safe_state_loaded_at_boot_witness:
  "let wb = fst (fst (snd (def_relay_step demo_boot_sys demo_resp HTTP_SERVER_DATA_FINAL ''01''
      (calls (def_relay_step demo_boot_sys demo_resp) (pieces [''11'']) (settings_init (demo_init, []) 0)))))
   in \<exists>w2. app_main demo_boot_sys demo_boot demo_web_kernel demo_no_fs demo_no_rw (demo_app, wb) =
        Some (demo_app\<lparr>ap_relays_default := \<lparr>rd_enabled = True, rd_relay1 = True, rd_relay2 = False, rd_relay3 = True\<rparr>\<rparr>, w2) \<and>
      snd w2 = [Io_Thread]"
proof -
  obtain rc r w' u' b' pc' where s: "def_relay_step demo_boot_sys demo_resp HTTP_SERVER_DATA_FINAL ''01''
      (calls (def_relay_step demo_boot_sys demo_resp) ([] @ pieces [''11'']) (settings_init (demo_init, []) 0)) =
      ((rc, r), ((w', u', b'), pc'))" by (metis prod.collapse)
  have js: "json_obj_parse demo_boot_sys relays_def_state_descr (concat [''11''] @ ''01'') =
      (bit_mask (length relays_def_state_descr),
       [Some (JBool True), Some (JBool True), Some (JBool False), Some (JBool True)])"
    by code_simp
  have rb: "rebooted demo_boot_sys w' w'" by (simp add: rebooted_def)
  have boot: "boot_keeps demo_boot g" for g :: "demo_world \<times> app_thread list \<Rightarrow> 'g"
    by (simp add: boot_keeps_def demo_boot_def)
  have mk: "\<forall>w p. snd (snd (fs_mkdir demo_no_fs w p)) = snd w" for w :: "demo_world \<times> app_thread list"
    by (simp add: demo_no_fs_def)
  have cr: "\<forall>w. snd (snd (create_index_html demo_no_rw w)) = snd w"
    by (simp add: create_index_html_def demo_no_rw_def errno)
  obtain ap' w2 where m: "app_main demo_boot_sys demo_boot demo_web_kernel demo_no_fs demo_no_rw (demo_app, w') = Some (ap', w2)"
    by (simp add: app_main_def demo_boot_def Let_def case_prod_beta)
  have "snd (fst (fst (snd (def_relay_step demo_boot_sys demo_resp HTTP_SERVER_DATA_FINAL ''01''
      (calls (def_relay_step demo_boot_sys demo_resp) ([] @ pieces [''11'']) (settings_init (demo_init, []) 0)))))) = []"
    by code_simp
  then have "snd w' = []" unfolding s by simp
  with posted_safe_state_loaded_at_boot [OF demo_boot_lawful(1,2) ended_Nil _ js s rb boot demo_threads_lawful boot mk cr m] s m
  show ?thesis by (cases w2) (simp add: Let_def)
qed

end
