(* ===== verification/Http_Api.thy ===== *)
theory Http_Api
  imports Rest_Users User_Machine Main_App
begin

text \<open>
  The HTTP side of the firmware as one component: the resources the files of
  \<open>web/REST_endpoints/\<close> register with Zephyr's server, the statics of all handlers together
  (\<open>web_state\<close>), and \<open>serve\<close>, the call of the handler behind a resource. The server finds
  the resource and checks the method before it calls the handler (\<open>accepts\<close>). The lemmas say
  what of the world a request leaves alone, for the composition with the other threads.
\<close>

section \<open>The resources\<close>

record http_resource =
  rs_url :: string
  rs_methods :: "http_method list"
  rs_content_type :: "string option"

definition api_relays_state :: http_resource where
  "api_relays_state = \<lparr>rs_url = ''/api/relays/state'', rs_methods = [HTTP_GET, HTTP_POST],
     rs_content_type = Some ''application/json''\<rparr>"

definition api_settings_status_get :: http_resource where
  "api_settings_status_get = \<lparr>rs_url = ''/api/system/reboot_required'', rs_methods = [HTTP_GET],
     rs_content_type = Some ''application/json''\<rparr>"

definition api_def_relay_state :: http_resource where
  "api_def_relay_state = \<lparr>rs_url = ''/api/relays/safe_state'', rs_methods = [HTTP_GET, HTTP_POST],
     rs_content_type = Some ''application/json''\<rparr>"

definition api_mqtt_settings :: http_resource where
  "api_mqtt_settings = \<lparr>rs_url = ''/api/mqtt/settings'', rs_methods = [HTTP_GET, HTTP_POST],
     rs_content_type = Some ''application/json''\<rparr>"

definition api_login :: http_resource where
  "api_login = \<lparr>rs_url = ''/api/auth/login'', rs_methods = [HTTP_GET, HTTP_POST],
     rs_content_type = Some ''application/json''\<rparr>"

definition api_web_user_mgmt :: http_resource where
  "api_web_user_mgmt = \<lparr>rs_url = ''/api/auth/users'', rs_methods = [HTTP_GET, HTTP_POST, HTTP_DELETE],
     rs_content_type = Some ''application/json''\<rparr>"

definition webui_put_resource :: http_resource where
  "webui_put_resource = \<lparr>rs_url = ''/api/webui/upload'', rs_methods = [HTTP_POST], rs_content_type = None\<rparr>"

definition api_webui_mkdir_state :: http_resource where
  "api_webui_mkdir_state = \<lparr>rs_url = ''/api/webui/mkdir'', rs_methods = [HTTP_POST],
     rs_content_type = Some ''application/json''\<rparr>"

definition api_webui_delete_state :: http_resource where
  "api_webui_delete_state = \<lparr>rs_url = ''/api/webui/delete'', rs_methods = [HTTP_DELETE],
     rs_content_type = Some ''application/json''\<rparr>"

definition api_system_reboot :: http_resource where
  "api_system_reboot = \<lparr>rs_url = ''/api/system/reboot'', rs_methods = [HTTP_POST], rs_content_type = None\<rparr>"

datatype endpoint =
  Relays_State | Settings_Status | Def_Relay_State | Mqtt_Settings | Login | Web_User_Mgmt
| Webui_Upload | Webui_Mkdir | Webui_Delete | System_Reboot

fun resource :: "endpoint \<Rightarrow> http_resource" where
  "resource Relays_State = api_relays_state"
| "resource Settings_Status = api_settings_status_get"
| "resource Def_Relay_State = api_def_relay_state"
| "resource Mqtt_Settings = api_mqtt_settings"
| "resource Login = api_login"
| "resource Web_User_Mgmt = api_web_user_mgmt"
| "resource Webui_Upload = webui_put_resource"
| "resource Webui_Mkdir = api_webui_mkdir_state"
| "resource Webui_Delete = api_webui_delete_state"
| "resource System_Reboot = api_system_reboot"

definition accepts :: "endpoint \<Rightarrow> http_client_ctx \<Rightarrow> bool" where
  "accepts ep client \<longleftrightarrow> req_method client \<in> set (rs_methods (resource ep))"

lemmas resources = api_relays_state_def api_settings_status_get_def api_def_relay_state_def api_mqtt_settings_def
  api_login_def api_web_user_mgmt_def webui_put_resource_def api_webui_mkdir_state_def api_webui_delete_state_def
  api_system_reboot_def

lemma resource_urls_distinct: "rs_url (resource ep) = rs_url (resource ep') \<longleftrightarrow> ep = ep'"
  by (cases ep; cases ep') (simp_all add: resources)

section \<open>The handlers' statics\<close>

text \<open>
  A response buffer with the buffer and cursor of the POST body for each handler that has
  both; the flag of \<open>http_common.c\<close> and the statics of \<open>authentication.c\<close> are shared.
\<close>

record web_state =
  wb_auth :: auth_state
  wb_updated :: int
  wb_relays :: "buffer \<times> post_ctx"
  wb_safe :: "buffer \<times> post_ctx"
  wb_broker :: "buffer \<times> post_ctx"
  wb_users :: "buffer \<times> post_ctx"
  wb_status :: buffer
  wb_cookie :: buffer
  wb_upload :: post_ctx
  wb_mkdir :: post_ctx

definition web_state_init :: "auth_state \<Rightarrow> web_state" where
  "web_state_init auth = \<lparr>wb_auth = auth, wb_updated = 0, wb_relays = (zeros 256, post_ctx_init 256),
     wb_safe = (zeros 256, post_ctx_init 256), wb_broker = (zeros 256, post_ctx_init 256),
     wb_users = (zeros JSON_BUF_SIZE, post_ctx_init JSON_BUF_SIZE), wb_status = zeros 64, wb_cookie = zeros 256,
     wb_upload = post_ctx_init CHUNK_BUF_CAP, wb_mkdir = post_ctx_init 256\<rparr>"

type_synonym 'w web = "web_state \<times> 'w"
type_synonym answer = "int \<times> http_response_ctx"

text \<open>\<open>None\<close>: deleting the web interface needed more fuel.\<close>

fun serve ::
  "'w sys_api \<Rightarrow> 'w zbus_api \<Rightarrow> 'w kernel_api \<Rightarrow> 'w boot_api \<Rightarrow> 'w fs_api \<Rightarrow> nat \<Rightarrow> endpoint \<Rightarrow> http_client_ctx
     \<Rightarrow> http_data_status \<Rightarrow> http_request_ctx \<Rightarrow> http_response_ctx \<Rightarrow> 'w web \<Rightarrow> (answer \<times> 'w web) option" where
  "serve sys zb kn bt fs fuel Relays_State client status req resp (wb, w) =
     (let (r, ((w', buf), pc)) = relays_state_handler sys zb client status req resp ((w, fst (wb_relays wb)), snd (wb_relays wb))
      in Some (r, (wb\<lparr>wb_relays := (buf, pc)\<rparr>, w')))"
| "serve sys zb kn bt fs fuel Settings_Status client status req resp (wb, w) =
     (let (r, buf) = settings_handler_get status resp (wb_updated wb) (wb_status wb)
      in Some (r, (wb\<lparr>wb_status := buf\<rparr>, w)))"
| "serve sys zb kn bt fs fuel Def_Relay_State client status req resp (wb, w) =
     (let (r, ((w', u, buf), pc)) = settings_def_relay_state_handler sys client status req resp
            ((w, wb_updated wb, fst (wb_safe wb)), snd (wb_safe wb))
      in Some (r, (wb\<lparr>wb_updated := u, wb_safe := (buf, pc)\<rparr>, w')))"
| "serve sys zb kn bt fs fuel Mqtt_Settings client status req resp (wb, w) =
     (let (r, ((w', u, buf), pc)) = settings_mqtt_handler sys client status req resp
            ((w, wb_updated wb, fst (wb_broker wb)), snd (wb_broker wb))
      in Some (r, (wb\<lparr>wb_updated := u, wb_broker := (buf, pc)\<rparr>, w')))"
| "serve sys zb kn bt fs fuel Login client status req resp (wb, w) =
     (let (r, (w', auth, cookie)) = login_handler sys client status req resp (w, wb_auth wb, wb_cookie wb)
      in Some (r, (wb\<lparr>wb_auth := auth, wb_cookie := cookie\<rparr>, w')))"
| "serve sys zb kn bt fs fuel Web_User_Mgmt client status req resp (wb, w) =
     (let (r, ((w', l, buf), pc)) = web_user_mgmt_handler sys client status req resp
            ((w, as_users (wb_auth wb), fst (wb_users wb)), snd (wb_users wb))
      in Some (r, (wb\<lparr>wb_auth := (wb_auth wb)\<lparr>as_users := l\<rparr>, wb_users := (buf, pc)\<rparr>, w')))"
| "serve sys zb kn bt fs fuel Webui_Upload client status req resp (wb, w) =
     (let (r, (w', pc)) = webui_chunk_put fs client status req resp (w, wb_upload wb)
      in Some (r, (wb\<lparr>wb_upload := pc\<rparr>, w')))"
| "serve sys zb kn bt fs fuel Webui_Mkdir client status req resp (wb, w) =
     (let (r, (w', pc)) = mkdir_web_ui_handler sys fs client status req resp (w, wb_mkdir wb)
      in Some (r, (wb\<lparr>wb_mkdir := pc\<rparr>, w')))"
| "serve sys zb kn bt fs fuel Webui_Delete client status req resp (wb, w) =
     map_option (\<lambda>(r, w'). (r, (wb, w'))) (webui_delete_handler fs fuel client status resp w)"
| "serve sys zb kn bt fs fuel System_Reboot client status req resp (wb, w) =
     (let (rc, w') = reboot_handler kn bt client status w in Some ((rc, resp), (wb, w')))"

text \<open>A sequence of requests, and the answers to them.\<close>

type_synonym request = "endpoint \<times> http_client_ctx \<times> http_data_status \<times> http_request_ctx \<times> http_response_ctx"

fun serve_all ::
  "'w sys_api \<Rightarrow> 'w zbus_api \<Rightarrow> 'w kernel_api \<Rightarrow> 'w boot_api \<Rightarrow> 'w fs_api \<Rightarrow> nat \<Rightarrow> request list \<Rightarrow> 'w web
     \<Rightarrow> (answer list \<times> 'w web) option" where
  "serve_all sys zb kn bt fs fuel [] s = Some ([], s)"
| "serve_all sys zb kn bt fs fuel ((ep, client, status, req, resp) # rs) s =
     (case serve sys zb kn bt fs fuel ep client status req resp s of
        None \<Rightarrow> None
      | Some (a, s') \<Rightarrow> map_option (apfst (Cons a)) (serve_all sys zb kn bt fs fuel rs s'))"

section \<open>What a request leaves alone\<close>

text \<open>
  \<open>g\<close> is any view of the world that a service keeps, like the pins of the relays or what was
  sent to the broker.
\<close>

definition sys_keeps :: "'w sys_api \<Rightarrow> ('w \<Rightarrow> 'g) \<Rightarrow> bool" where
  "sys_keeps sys g \<longleftrightarrow> (\<forall>w k v. g (snd (settings_save_one sys w k v)) = g w) \<and>
     (\<forall>w. g (snd (time_now sys w)) = g w) \<and> (\<forall>w n. g (snd (sys_csrand_get sys w n)) = g w)"

definition outputs_keep :: "'w zbus_api \<Rightarrow> ('w \<Rightarrow> 'g) \<Rightarrow> bool" where
  "outputs_keep zb g \<longleftrightarrow> (\<forall>w m. g (snd (zbus_pub_outputs zb w m)) = g w)"

definition fs_keeps :: "'w fs_api \<Rightarrow> ('w \<Rightarrow> 'g) \<Rightarrow> bool" where
  "fs_keeps fs g \<longleftrightarrow> (\<forall>w p. g (snd (fs_unlink fs w p)) = g w) \<and> (\<forall>w p. g (snd (fs_mkdir fs w p)) = g w) \<and>
     (\<forall>w p. g (snd (fs_open_append fs w p)) = g w) \<and> (\<forall>w p bs. g (snd (fs_write fs w p bs)) = g w) \<and>
     (\<forall>w p. g (fs_sync fs w p) = g w) \<and> (\<forall>w p. g (fs_close fs w p) = g w) \<and>
     (\<forall>w p. g (snd (snd (fs_opendir fs w p))) = g w) \<and> (\<forall>w d. g (snd (snd (fs_readdir fs w d))) = g w) \<and>
     (\<forall>w d. g (fs_closedir fs w d) = g w)"

text \<open>As rewrite rules, for handlers unfolded with their pairs as projections.\<close>

lemma sys_keepsD:
  assumes "sys_keeps sys g"
  shows "g (snd (settings_save_one sys w k v)) = g w" and "g (snd (time_now sys w)) = g w" and "g (snd (sys_csrand_get sys w n)) = g w"
  using assms by (simp_all add: sys_keeps_def)

lemma fs_keepsD:
  assumes "fs_keeps fs g"
  shows "g (snd (fs_unlink fs w p)) = g w" and "g (snd (fs_mkdir fs w p)) = g w"
    and "g (snd (fs_open_append fs w p)) = g w" and "g (snd (fs_write fs w p bs)) = g w"
    and "g (snd (snd (fs_opendir fs w p))) = g w" and "g (snd (snd (fs_readdir fs w d))) = g w"
    and "g (fs_sync fs w p) = g w" and "g (fs_close fs w p) = g w" and "g (fs_closedir fs w d) = g w"
  using assms by (simp_all add: fs_keeps_def)

lemma post_step_keeps:
  assumes "\<And>body c. g (snd (act body c)) = g c"
  shows "g (fst (snd (post_step act early status d s))) = g (fst s)"
  using assms by (simp add: post_step_def case_prod_beta Let_def split: post_result.split)

lemma save_all_keeps: "sys_keeps sys g \<Longrightarrow> g (save_all sys kvs w) = g w"
  by (induction kvs arbitrary: w) (auto simp: sys_keeps_def)

lemma update_users_keeps: "sys_keeps sys g \<Longrightarrow> g (snd (update_users sys w l)) = g w"
  by (simp add: update_users_def case_prod_beta Let_def sys_keepsD split: option.split)

lemma add_web_user_keeps: "sys_keeps sys g \<Longrightarrow> g (snd (snd (add_web_user sys w l name pass))) = g w"
  by (simp add: add_web_user_def case_prod_beta Let_def update_users_keeps split: option.split)

lemma delete_web_user_keeps: "sys_keeps sys g \<Longrightarrow> g (snd (snd (delete_web_user sys w l name))) = g w"
  by (simp add: delete_web_user_def case_prod_beta Let_def update_users_keeps split: option.split)

lemma check_token_valid_keeps: "sys_keeps sys g \<Longrightarrow> g (snd (snd (check_token_valid sys w st t))) = g w"
  by (simp add: check_token_valid_def case_prod_beta Let_def sys_keepsD)

lemma login_user_keeps: "sys_keeps sys g \<Longrightarrow> g (fst (snd (login_user sys w st name tb sz))) = g w"
  by (simp add: login_user_def generate_token_def store_session_token_def case_prod_beta Let_def sys_keepsD)

lemma authentication_keeps: "sys_keeps sys g \<Longrightarrow> g (fst (snd (snd (authentication sys w st hs tb sz)))) = g w"
proof (induction hs arbitrary: w st)
  case (Cons h hs)
  then show ?case
    by (cases tb; cases "sz = 0")
      (simp_all add: case_prod_beta Let_def check_token_valid_keeps login_user_keeps split: option.split)
qed simp

lemma upload_keeps: "fs_keeps fs g \<Longrightarrow> g (snd (http_upload fs base url body resp w)) = g w"
  by (simp add: http_upload_def upload_write_def case_prod_beta Let_def fs_keepsD split: option.split)

lemma mkdir_keeps: "fs_keeps fs g \<Longrightarrow> g (snd (mkdir_post sys fs resp body w)) = g w"
  by (simp add: mkdir_post_def mkdir_web_ui_files_def case_prod_beta Let_def fs_keepsD)

lemma delete_tree_keeps:
  assumes "fs_keeps fs g"
  shows "fs_delete_tree fs k w path = Some r \<Longrightarrow> g (snd r) = g w"
    and "fs_delete_loop fs k w path dir = Some r \<Longrightarrow> g (snd r) = g w"
proof (induction k arbitrary: w path dir r and w path dir r)
  case (Suc k)
  {
    case 1
    then show ?case using Suc.IH
      by (auto simp: case_prod_beta Let_def fs_keepsD [OF assms] split: if_splits)
  next
    case 2
    then show ?case using Suc.IH
      by (auto simp: case_prod_beta Let_def fs_keepsD [OF assms] split: if_splits option.splits)
  }
qed simp_all

lemma delete_files_keeps:
  assumes "fs_keeps fs g" and "delete_web_ui_files fs fuel w = Some (rc, w')"
  shows "g w' = g w"
proof -
  obtain rc1 w1 where d: "fs_delete_tree fs fuel w base_web_ui_fs_path = Some (rc1, w1)"
    and m: "fs_mkdir fs (snd (fs_unlink fs w1 base_web_ui_fs_path)) base_web_ui_fs_path = (rc, w')"
    using assms(2) by (auto simp: delete_web_ui_files_def split: option.splits)
  have "g w' = g (snd (fs_mkdir fs (snd (fs_unlink fs w1 base_web_ui_fs_path)) base_web_ui_fs_path))" by (simp add: m)
  then show ?thesis using delete_tree_keeps(1) [OF assms(1) d] by (simp add: fs_keepsD [OF assms(1)])
qed

lemma webui_delete_keeps:
  assumes "fs_keeps fs g" and "webui_delete_handler fs fuel client status resp w = Some (r, w')"
  shows "g w' = g w"
proof -
  consider "w' = w" | rc where "delete_web_ui_files fs fuel w = Some (rc, w')"
    using assms(2) by (auto simp: webui_delete_handler_def split: if_splits option.splits)
  then show ?thesis using delete_files_keeps [OF assms(1)] by cases simp_all
qed

text \<open>The handlers; their states have the world in front.\<close>

lemma relays_handler_keeps:
  assumes "outputs_keep zb g"
  shows "g (fst (fst (snd (relays_state_handler sys zb client status req resp s)))) = g (fst (fst s))"
proof -
  have "g (fst (snd (relays_state_post sys zb resp body c))) = g (fst c)" for body c
    using assms by (simp add: relays_state_post_def relays_state_update_def outputs_keep_def case_prod_beta Let_def)
  from post_step_keeps [where g = "\<lambda>c. g (fst c)", OF this] show ?thesis
    by (simp add: relays_state_handler_def case_prod_beta Let_def)
qed

lemma def_relay_handler_keeps:
  assumes "sys_keeps sys g"
  shows "g (fst (fst (snd (settings_def_relay_state_handler sys client status req resp s)))) = g (fst (fst s))"
proof -
  have "g (fst (snd (def_relay_state_post sys resp body c))) = g (fst c)" for body c
    by (simp add: def_relay_state_post_def app_settings_def_relay_state_update_def save_all_keeps [OF assms] case_prod_beta Let_def
        del: save_all_simps)
  from post_step_keeps [where g = "\<lambda>c. g (fst c)", OF this] show ?thesis
    by (simp add: settings_def_relay_state_handler_def case_prod_beta Let_def)
qed

lemma mqtt_handler_keeps:
  assumes "sys_keeps sys g"
  shows "g (fst (fst (snd (settings_mqtt_handler sys client status req resp s)))) = g (fst (fst s))"
proof -
  have "g (fst (snd (mqtt_settings_post sys resp body c))) = g (fst c)" for body c
    by (simp add: mqtt_settings_post_def app_settings_mqtt_update_def save_all_keeps [OF assms] case_prod_beta Let_def
        del: save_all_simps)
  from post_step_keeps [where g = "\<lambda>c. g (fst c)", OF this] show ?thesis
    by (simp add: settings_mqtt_handler_def case_prod_beta Let_def)
qed

lemma login_handler_keeps:
  "sys_keeps sys g \<Longrightarrow> g (fst (snd (login_handler sys client status req resp s))) = g (fst s)"
  by (simp add: login_handler_def case_prod_beta Let_def authentication_keeps)

lemma users_handler_keeps:
  assumes "sys_keeps sys g"
  shows "g (fst (fst (snd (web_user_mgmt_handler sys client status req resp s)))) = g (fst (fst s))"
proof -
  have "g (fst (snd (web_user_post sys resp body c))) = g (fst c)"
    "g (fst (snd (web_user_delete sys url resp c))) = g (fst c)" "g (fst (snd (web_user_get sys resp c))) = g (fst c)"
    for body url c
    by (simp_all add: web_user_post_def web_user_delete_def web_user_get_def case_prod_beta Let_def
        add_web_user_keeps [OF assms] delete_web_user_keeps [OF assms] split: option.split)
  note this(2,3) post_step_keeps [where g = "\<lambda>c. g (fst c)", OF this(1)]
  then show ?thesis by (simp add: web_user_mgmt_handler_def case_prod_beta Let_def split: http_method.split)
qed

lemma upload_handler_keeps:
  "fs_keeps fs g \<Longrightarrow> g (fst (snd (webui_chunk_put fs client status req resp s))) = g (fst s)"
  by (simp add: webui_chunk_put_def case_prod_beta Let_def upload_keeps split: post_result.split)

lemma mkdir_handler_keeps:
  assumes "fs_keeps fs g"
  shows "g (fst (snd (mkdir_web_ui_handler sys fs client status req resp s))) = g (fst s)"
  using post_step_keeps [where g = g, OF mkdir_keeps [OF assms]] by (simp add: mkdir_web_ui_handler_def)

text \<open>A request other than the one for a reboot.\<close>

lemma serve_keeps:
  assumes "sys_keeps sys g" and "ep = Relays_State \<Longrightarrow> outputs_keep zb g"
    and "ep \<in> {Webui_Upload, Webui_Mkdir, Webui_Delete} \<Longrightarrow> fs_keeps fs g" and "ep \<noteq> System_Reboot"
    and "serve sys zb kn bt fs fuel ep client status req resp (wb, w) = Some (r, (wb', w'))"
  shows "g w' = g w"
  using assms(4,5)
    relays_handler_keeps [of zb g sys client status req resp "((w, fst (wb_relays wb)), snd (wb_relays wb))", OF assms(2)]
    def_relay_handler_keeps [OF assms(1), of client status req resp "((w, wb_updated wb, fst (wb_safe wb)), snd (wb_safe wb))"]
    mqtt_handler_keeps [OF assms(1), of client status req resp "((w, wb_updated wb, fst (wb_broker wb)), snd (wb_broker wb))"]
    login_handler_keeps [OF assms(1), of client status req resp "(w, wb_auth wb, wb_cookie wb)"]
    users_handler_keeps [OF assms(1), of client status req resp "((w, as_users (wb_auth wb), fst (wb_users wb)), snd (wb_users wb))"]
    upload_handler_keeps [OF assms(3), of client status req resp "(w, wb_upload wb)"]
    mkdir_handler_keeps [OF assms(3), of sys client status req resp "(w, wb_mkdir wb)"]
    webui_delete_keeps [OF assms(3), of fuel client status resp w]
  by (cases ep) (auto simp: case_prod_beta)

text \<open>What any request does to the user table is one operation of its machine.\<close>

lemma users_opI:
  "users_op sys (l, w) (snd (add_web_user sys w l name pass))"
  "users_op sys (l, w) (snd (delete_web_user sys w l name))"
  by (metis prod.collapse users_op.add, metis prod.collapse users_op.delete)

lemma users_handler_op:
  "users_op sys (fst (snd (fst s)), fst (fst s))
     (fst (snd (fst (snd (web_user_mgmt_handler sys client status req resp s)))),
      fst (fst (snd (web_user_mgmt_handler sys client status req resp s))))"
proof -
  have post: "users_op sys (fst (snd c), fst c) (fst (snd (snd (web_user_post sys resp body c))), fst (snd (web_user_post sys resp body c)))"
    for body c
    by (auto simp: web_user_post_def case_prod_beta Let_def intro: users_op.others users_opI)
  have del: "users_op sys (fst (snd c), fst c) (fst (snd (snd (web_user_delete sys url resp c))), fst (snd (web_user_delete sys url resp c)))"
    for url c
    by (auto simp: web_user_delete_def case_prod_beta Let_def intro: users_op.others users_opI
        split: option.split)
  show ?thesis
    using post [of "fst s"] del [of "fst s"]
    by (auto simp: web_user_mgmt_handler_def web_user_get_def post_step_def case_prod_beta Let_def intro: users_op.others
        split: http_method.split post_result.split)
qed

lemma serve_users:
  assumes "serve sys zb kn bt fs fuel ep client status req resp (wb, w) = Some (r, (wb', w'))"
  shows "users_op sys (as_users (wb_auth wb), w) (as_users (wb_auth wb'), w')"
proof (cases "ep = Web_User_Mgmt")
  case True
  then show ?thesis
    using assms users_handler_op [of sys "((w, as_users (wb_auth wb), fst (wb_users wb)), snd (wb_users wb))" client status req resp]
    by (auto simp: case_prod_beta)
next
  case False
  moreover have "as_users (fst (snd (snd (login_handler sys client status req resp s)))) = as_users (fst (snd s))" for s
    by (simp add: login_handler_def case_prod_beta Let_def authentication_users)
  ultimately have "as_users (wb_auth wb') = as_users (wb_auth wb)"
    using assms by (cases ep) (auto simp: case_prod_beta)
  then show ?thesis by (simp add: users_op.others)
qed

text \<open>The handlers but the login read the body of a request only.\<close>

lemma handlers_ignore_headers:
  "relays_state_handler sys zb client status (req\<lparr>req_headers := hs\<rparr>) resp = relays_state_handler sys zb client status req resp"
  "settings_def_relay_state_handler sys client status (req\<lparr>req_headers := hs\<rparr>) resp =
     settings_def_relay_state_handler sys client status req resp"
  "settings_mqtt_handler sys client status (req\<lparr>req_headers := hs\<rparr>) resp = settings_mqtt_handler sys client status req resp"
  "web_user_mgmt_handler sys client status (req\<lparr>req_headers := hs\<rparr>) resp = web_user_mgmt_handler sys client status req resp"
  "webui_chunk_put fs client status (req\<lparr>req_headers := hs\<rparr>) resp = webui_chunk_put fs client status req resp"
  "mkdir_web_ui_handler sys fs client status (req\<lparr>req_headers := hs\<rparr>) resp = mkdir_web_ui_handler sys fs client status req resp"
  by (simp_all add: fun_eq_iff relays_state_handler_def settings_def_relay_state_handler_def settings_mqtt_handler_def
      web_user_mgmt_handler_def webui_chunk_put_def mkdir_web_ui_handler_def split: http_method.split)

section \<open>Properties\<close>

text \<open>
  C7. Only the login looks at who is asking: for every other resource, the answer and the
  effect of a request are the same whatever headers it carries and whatever sessions are
  open, so each of them, from the settings to the user list, the files and the reboot, is
  open to anyone who reaches the port.
\<close>

theorem requests_need_no_authentication:
  assumes "ep \<noteq> Login"
  shows "serve sys zb kn bt fs fuel ep client status (req\<lparr>req_headers := hs\<rparr>) resp
      (wb\<lparr>wb_auth := (wb_auth wb)\<lparr>as_sessions := ss\<rparr>\<rparr>, w) =
    map_option (\<lambda>(a, (wb', w')). (a, (wb'\<lparr>wb_auth := (wb_auth wb')\<lparr>as_sessions := ss\<rparr>\<rparr>, w')))
      (serve sys zb kn bt fs fuel ep client status req resp (wb, w))"
  using assms by (cases ep) (simp_all add: case_prod_beta' Let_def handlers_ignore_headers option.map_comp comp_def)

theorem requests_need_no_authentication_witness:
  "\<forall>bt fs. \<exists>r wb' w'.
     serve demo_sys demo_zbus demo_kernel bt fs 0 Relays_State post_client HTTP_SERVER_DATA_FINAL
       ((with_body ''101'')\<lparr>req_headers := [\<lparr>hdr_name = ''Cookie'', hdr_value = ''session_token=forged''\<rparr>]\<rparr>) demo_resp
       (web_state_init (demo_auth\<lparr>as_sessions := []\<rparr>), demo_init) = Some (r, (wb', w')) \<and>
     resp_status (snd r) = HTTP_200_OK \<and> om_state (dw_outputs w') = 5"
proof (intro allI)
  fix bt fs
  let ?serve = "serve demo_sys demo_zbus demo_kernel bt fs 0 Relays_State post_client HTTP_SERVER_DATA_FINAL"
  have "case relays_state_handler demo_sys demo_zbus post_client HTTP_SERVER_DATA_FINAL (with_body ''101'') demo_resp (rest_init demo_init)
      of (r, s) \<Rightarrow> resp_status (snd r) = HTTP_200_OK \<and> om_state (dw_outputs (fst (fst s))) = 5"
    by code_simp
  then obtain r wb' w' where s: "?serve (with_body ''101'') demo_resp (web_state_init demo_auth, demo_init) = Some (r, (wb', w'))"
    and r: "resp_status (snd r) = HTTP_200_OK" "om_state (dw_outputs w') = 5"
    by (auto simp: web_state_init_def rest_init_def case_prod_beta)
  have "web_state_init (demo_auth\<lparr>as_sessions := []\<rparr>) =
      (web_state_init demo_auth)\<lparr>wb_auth := (wb_auth (web_state_init demo_auth))\<lparr>as_sessions := []\<rparr>\<rparr>"
    by (simp add: web_state_init_def)
  then show "\<exists>r wb' w'. ?serve ((with_body ''101'')\<lparr>req_headers := [\<lparr>hdr_name = ''Cookie'', hdr_value = ''session_token=forged''\<rparr>]\<rparr>)
      demo_resp (web_state_init (demo_auth\<lparr>as_sessions := []\<rparr>), demo_init) = Some (r, (wb', w')) \<and>
      resp_status (snd r) = HTTP_200_OK \<and> om_state (dw_outputs w') = 5"
    using s r requests_need_no_authentication [of Relays_State demo_sys demo_zbus demo_kernel bt fs 0 post_client
        HTTP_SERVER_DATA_FINAL "[\<lparr>hdr_name = ''Cookie'', hdr_value = ''session_token=forged''\<rparr>]" "with_body ''101''" demo_resp
        "[]" "web_state_init demo_auth" demo_init]
    by (simp del: serve.simps)
qed

end
