(* ===== verification/Ha_Task.thy ===== *)
theory Ha_Task
  imports Mqtt_Callback Thread_Loop Rest_Relays
begin

text \<open>
  \<open>mqtt/ha_task.c\<close>: the thread that keeps Home Assistant's picture of the device up to date
  and carries out its commands. The thread's variables are \<open>ha_task_state\<close>; its outer loop
  registers the six entities and then runs the inner loop while the connection lasts. One
  turn of the inner loop, up to its sleep, is \<open>ha_turn\<close>, made of the three parts the code
  has: reporting the inputs, one command, reporting the outputs. The two reporting parts
  are the same lines for another type of device (\<open>ha_report\<close>).
\<close>

section \<open>State\<close>

record ha_task_state =
  ht_message :: mqtt_msg_t
  ht_inputs :: inputs_msg_t
  ht_inputs_old :: inputs_msg_t
  ht_outputs :: outputs_msg_t
  ht_outputs_old :: outputs_msg_t
  ht_mqtt :: mqtt_status_msg_t
  ht_next_input :: u32
  ht_next_output :: u32

definition mqtt_msg_zero :: mqtt_msg_t where
  "mqtt_msg_zero = \<lparr>mm_topic = zeros mqtt_topik_max_len, mm_payload = zeros mqtt_payload_max_len, mm_qos = 0, mm_retain = False\<rparr>"

definition ha_task_init :: ha_task_state where
  "ha_task_init = \<lparr>ht_message = mqtt_msg_zero,
     ht_inputs = \<lparr>im_seq = 0, im_state = 0\<rparr>, ht_inputs_old = \<lparr>im_seq = 0, im_state = 255\<rparr>,
     ht_outputs = \<lparr>om_seq = 0, om_state = 0\<rparr>, ht_outputs_old = \<lparr>om_seq = 0, om_state = 255\<rparr>,
     ht_mqtt = \<lparr>mq_seq = 0, mq_enabled = False, mq_connected = False\<rparr>, ht_next_input = 0, ht_next_output = 0\<rparr>"

type_synonym device_t = "mqtt_ha_dev_type_t \<times> nat"

definition ha_devices :: "device_t list" where
  "ha_devices = [(INPUT_SENSOR, 1), (INPUT_SENSOR, 2), (INPUT_SENSOR, 3),
     (OUTPUT_DEVICE, 1), (OUTPUT_DEVICE, 2), (OUTPUT_DEVICE, 3)]"

definition UPDATE_PERIOD_SEC :: u32 where
  "UPDATE_PERIOD_SEC = of_nat ha_mqtt_keepalive_sec - 100"

section \<open>Registration\<close>

definition registration_msg :: "ha_helpers_state \<Rightarrow> mqtt_msg_t \<Rightarrow> device_t \<Rightarrow> mqtt_msg_t" where
  "registration_msg hs m d =
     \<lparr>mm_topic = snd (get_config_topik_string hs (mm_topic m) mqtt_topik_max_len (fst d) (of_nat (snd d))),
      mm_payload = snd (get_config_payload_string hs (mm_payload m) mqtt_payload_max_len (fst d) (of_nat (snd d))),
      mm_qos = MQTT_QOS_1_AT_LEAST_ONCE, mm_retain = True\<rparr>"

fun register_loop ::
  "'w msgq_api \<Rightarrow> 'w zbus_api \<Rightarrow> 'w kernel_api \<Rightarrow> ha_helpers_state \<Rightarrow> device_t list
     \<Rightarrow> mqtt_msg_t \<times> mqtt_status_msg_t \<times> 'w \<Rightarrow> mqtt_msg_t \<times> mqtt_status_msg_t \<times> 'w" where
  "register_loop mq zb kn hs [] s = s"
| "register_loop mq zb kn hs (d # ds) s =
     (let (m, st, w) = s;
          m' = registration_msg hs m d;
          w' = k_sleep kn (snd (tx_put mq w m'));
          st' = chan_read (zbus_read_mqtt zb w') st
      in if \<not> mq_connected st' then (m', st', w') else register_loop mq zb kn hs ds (m', st', w'))"

section \<open>Reporting\<close>

definition status_msg :: "ha_helpers_state \<Rightarrow> mqtt_msg_t \<Rightarrow> mqtt_ha_dev_type_t \<Rightarrow> u8 \<Rightarrow> nat \<Rightarrow> mqtt_msg_t" where
  "status_msg hs m t state index =
     \<lparr>mm_topic = snd (get_status_topik_string hs (mm_topic m) mqtt_topik_max_len t (of_nat index)),
      mm_payload = snd (generate_sensor_status_payload_JSON (mm_payload m) mqtt_payload_max_len t (of_nat index)
        (get_bit (ucast state) (of_nat (index - 1)))),
      mm_qos = MQTT_QOS_1_AT_LEAST_ONCE, mm_retain = False\<rparr>"

fun publish_changes ::
  "'w msgq_api \<Rightarrow> ha_helpers_state \<Rightarrow> mqtt_ha_dev_type_t \<Rightarrow> u8 \<Rightarrow> u8 \<Rightarrow> device_t list \<Rightarrow> mqtt_msg_t \<times> 'w
     \<Rightarrow> mqtt_msg_t \<times> 'w" where
  "publish_changes mq hs t new old [] s = s"
| "publish_changes mq hs t new old (d # ds) s =
     (if fst d = t \<and> get_bit (ucast new) (of_nat (snd d - 1)) \<noteq> get_bit (ucast old) (of_nat (snd d - 1))
      then let (m, w) = s; m' = status_msg hs m t new (snd d)
           in publish_changes mq hs t new old ds (m', snd (tx_put mq w m'))
      else publish_changes mq hs t new old ds s)"

text \<open>
  The old state byte, the time of the next full report, the message and the world, before
  and after; the first component of the result tells whether the branch that reports was
  taken, at whose end the code copies the new state over the old one.
\<close>

definition ha_report ::
  "'w msgq_api \<Rightarrow> ha_helpers_state \<Rightarrow> mqtt_ha_dev_type_t \<Rightarrow> u32 \<Rightarrow> u8 \<Rightarrow> u8 \<times> u32 \<times> mqtt_msg_t \<times> 'w
     \<Rightarrow> bool \<times> u8 \<times> u32 \<times> mqtt_msg_t \<times> 'w" where
  "ha_report mq hs t now new s =
     (let (old, next, m, w) = s;
          (old1, next1) = (if now > next then (NOT new, now + UPDATE_PERIOD_SEC) else (old, next))
      in if new \<noteq> old1
         then let (m', w') = publish_changes mq hs t new old1 ha_devices (m, w) in (True, new, next1, m', w')
         else (False, old1, next1, m, w))"

definition ha_report_inputs ::
  "'w msgq_api \<Rightarrow> 'w zbus_api \<Rightarrow> ha_helpers_state \<Rightarrow> u32 \<Rightarrow> ha_task_state \<times> 'w \<Rightarrow> ha_task_state \<times> 'w" where
  "ha_report_inputs mq zb hs now sw =
     (let (s, w) = sw;
          inp = chan_read (zbus_read_inputs zb w) (ht_inputs s);
          (changed, old, next, m, w') = ha_report mq hs INPUT_SENSOR now (im_state inp)
                                 (im_state (ht_inputs_old s), ht_next_input s, ht_message s, w)
      in (s\<lparr>ht_inputs := inp, ht_inputs_old := (if changed then inp else (ht_inputs_old s)\<lparr>im_state := old\<rparr>),
            ht_next_input := next, ht_message := m\<rparr>, w'))"

definition ha_report_outputs ::
  "'w msgq_api \<Rightarrow> 'w zbus_api \<Rightarrow> ha_helpers_state \<Rightarrow> u32 \<Rightarrow> ha_task_state \<times> 'w \<Rightarrow> ha_task_state \<times> 'w" where
  "ha_report_outputs mq zb hs now sw =
     (let (s, w) = sw;
          out = chan_read (zbus_read_outputs zb w) (ht_outputs s);
          (changed, old, next, m, w') = ha_report mq hs OUTPUT_DEVICE now (om_state out)
                                 (om_state (ht_outputs_old s), ht_next_output s, ht_message s, w)
      in (s\<lparr>ht_outputs := out, ht_outputs_old := (if changed then out else (ht_outputs_old s)\<lparr>om_state := old\<rparr>),
            ht_next_output := next, ht_message := m\<rparr>, w'))"

section \<open>Commands\<close>

definition command_outputs :: "mqtt_msg_t \<Rightarrow> outputs_msg_t \<Rightarrow> outputs_msg_t option" where
  "command_outputs m out =
     (case parse_incoming_message (mm_payload m) (mm_topic m) of
        Some (OUTPUT_DEVICE, n, st) \<Rightarrow>
          Some \<lparr>om_seq = om_seq out + 1, om_state = set_relay_bit (om_state out) n (st \<noteq> 0)\<rparr>
      | _ \<Rightarrow> None)"

definition ha_command :: "'w msgq_api \<Rightarrow> 'w zbus_api \<Rightarrow> ha_task_state \<times> 'w \<Rightarrow> ha_task_state \<times> 'w" where
  "ha_command mq zb sw =
     (let (s, w) = sw in
      if rx_used mq w = 0 then sw
      else let (rc, m, w1) = rx_get mq w
      in if rc \<noteq> 0 then (s, w1)
         else (case command_outputs m (ht_outputs s) of
                 Some out \<Rightarrow> (s\<lparr>ht_message := m, ht_outputs := out\<rparr>, snd (zbus_pub_outputs zb w1 out))
               | None \<Rightarrow> (s\<lparr>ht_message := m\<rparr>, w1)))"

section \<open>The loops\<close>

text \<open>One turn of the inner loop up to its sleep; \<open>False\<close> in the first component: the loop is left.\<close>

definition ha_turn ::
  "'w msgq_api \<Rightarrow> 'w zbus_api \<Rightarrow> 'w kernel_api \<Rightarrow> ha_helpers_state \<Rightarrow> ha_task_state \<times> 'w
     \<Rightarrow> bool \<times> (ha_task_state \<times> 'w)" where
  "ha_turn mq zb kn hs sw =
     (let (s, w) = sw;
          now = k_uptime_seconds kn w;
          s1 = s\<lparr>ht_mqtt := chan_read (zbus_read_mqtt zb w) (ht_mqtt s)\<rparr>
      in if \<not> mq_connected (ht_mqtt s1) then (False, (s1, w))
         else (True, ha_report_outputs mq zb hs now (ha_command mq zb (ha_report_inputs mq zb hs now (s1, w)))))"

text \<open>The wait for the connection, with fuel for its turns, and one round of the outer loop up to the inner one.\<close>

fun ha_wait :: "'w zbus_api \<Rightarrow> 'w kernel_api \<Rightarrow> nat \<Rightarrow> mqtt_status_msg_t \<times> 'w \<Rightarrow> (mqtt_status_msg_t \<times> 'w) option" where
  "ha_wait zb kn 0 s = None"
| "ha_wait zb kn (Suc k) s =
     (let (st, w) = s; w' = k_sleep kn w; st' = chan_read (zbus_read_mqtt zb w') st
      in if mq_connected st' then Some (st', w') else ha_wait zb kn k (st', w'))"

definition ha_connect ::
  "'w msgq_api \<Rightarrow> 'w zbus_api \<Rightarrow> 'w kernel_api \<Rightarrow> nat \<Rightarrow> ha_helpers_state \<times> ha_task_state \<times> 'w
     \<Rightarrow> (ha_helpers_state \<times> ha_task_state \<times> 'w) option" where
  "ha_connect mq zb kn fuel x =
     (let (hs, s, w) = x; hs' = snd (ha_mqtt_init kn w hs)
      in case ha_wait zb kn fuel (ht_mqtt s, w) of
           None \<Rightarrow> None
         | Some (st, w1) \<Rightarrow>
             let (m, st', w2) = register_loop mq zb kn hs' ha_devices (ht_message s, st, w1)
             in Some (hs', s\<lparr>ht_message := m, ht_mqtt := st'\<rparr>, w2))"

text \<open>
  A turn with its sleep, and when it leaves the inner loop, the sleep and the next round up
  to the inner loop.
\<close>

definition ha_task_step ::
  "'w msgq_api \<Rightarrow> 'w zbus_api \<Rightarrow> 'w kernel_api \<Rightarrow> nat \<Rightarrow> ha_helpers_state \<times> ha_task_state \<times> 'w
     \<Rightarrow> (ha_helpers_state \<times> ha_task_state \<times> 'w) option" where
  "ha_task_step mq zb kn fuel x =
     (let (hs, s, w) = x in
      case ha_turn mq zb kn hs (s, w) of
        (True, (s', w')) \<Rightarrow> Some (hs, s', k_sleep kn w')
      | (False, (s', w')) \<Rightarrow> ha_connect mq zb kn fuel (hs, s', k_sleep kn w'))"

end
