(* ===== verification/Ha_Picture.thy ===== *)
theory Ha_Picture
  imports Ha_Task
begin

text \<open>
  What the task of \<open>Ha_Task\<close> promises Home Assistant, stated on an abstraction of the
  transmit queue: the map from a topic to the payload put last on it. The picture of a
  device is right when its topic shows its bit. Reporting keeps a right picture right and
  makes a periodic one right from scratch; the registration does not touch it. From this
  follows the invariant of the whole thread, across lost connections.
\<close>

section \<open>The picture\<close>

type_synonym wire_t = "byte list \<times> byte list \<times> u8 \<times> bool"

definition component_of :: "mqtt_ha_dev_type_t \<Rightarrow> string" where
  "component_of t = (if t = OUTPUT_DEVICE then component_switch else component_input)"

definition status_topic :: "string \<Rightarrow> device_t \<Rightarrow> string" where
  "status_topic ident d = status_topik_text ident (component_of (fst d)) (snd d)"

definition state_payload :: "device_t \<Rightarrow> bool \<Rightarrow> string" where
  "state_payload d on = io_text (component_of (fst d)) (snd d) on"

definition device_report :: "string \<Rightarrow> device_t \<Rightarrow> bool \<Rightarrow> wire_t" where
  "device_report ident d on = (status_topic ident d, state_payload d on, MQTT_QOS_1_AT_LEAST_ONCE, False)"

definition device_bit :: "u8 \<Rightarrow> device_t \<Rightarrow> bool" where
  "device_bit b d = bit b (snd d - 1)"

text \<open>The payload put last on each topic.\<close>

definition ha_picture :: "wire_t list \<Rightarrow> string \<rightharpoonup> string" where
  "ha_picture ws = foldl (\<lambda>p w. p(fst w \<mapsto> fst (snd w))) Map.empty ws"

lemma ha_picture_snoc [simp]: "ha_picture (ws @ [w]) = (ha_picture ws)(fst w \<mapsto> fst (snd w))"
  by (simp add: ha_picture_def)

definition shows_state :: "string \<Rightarrow> mqtt_ha_dev_type_t \<Rightarrow> u8 \<Rightarrow> (string \<rightharpoonup> string) \<Rightarrow> bool" where
  "shows_state ident t b pic \<longleftrightarrow>
     (\<forall>d \<in> set ha_devices. fst d = t \<longrightarrow> pic (status_topic ident d) = Some (state_payload d (device_bit b d)))"

lemma status_topic_inject:
  "status_topic ident d = status_topic ident d' \<Longrightarrow>
     component_of (fst d) = component_of (fst d') \<and> snd d = snd d'"
  by (auto simp: status_topic_def status_topik_text_def component_of_def component_switch_def component_input_def
      split: if_splits)

lemma ha_devices_facts:
  "d \<in> set ha_devices \<Longrightarrow> snd d < 8" "d \<in> set ha_devices \<Longrightarrow> 0 < snd d"
  "d \<in> set ha_devices \<Longrightarrow> fst d = INPUT_SENSOR \<or> fst d = OUTPUT_DEVICE"
  by (auto simp: ha_devices_def)

section \<open>One report\<close>

lemma get_bit_eq:
  assumes "0 < n" and "n < 8"
  shows "get_bit (ucast (s :: u8)) (of_nat (n - 1)) = of_bool (bit s (n - 1))"
proof -
  have u: "unat (of_nat (n - 1) :: u8) = n - 1" using assms(2) by (simp add: unat_of_nat)
  have "drop_bit (n - 1) (ucast s :: u32) AND 1 = of_bool (bit s (n - 1))"
    using assms(2) by (intro bit_word_eqI) (auto simp: bit_simps)
  then show ?thesis by (simp add: get_bit_def u del: One_nat_def)
qed

lemma cstr_status_topik:
  assumes "helpers_wf hs" and "0 < n" and "n < 8"
  shows "cstr (print_topik buf 128 (status_topik_text (cstr (hs_dev_identifier hs)) (component_of t) n)) =
    status_topik_text (cstr (hs_dev_identifier hs)) (component_of t) n"
proof -
  have "length (nat_dec n) \<le> 3" using assms(3) by (intro length_nat_dec_u8) simp
  moreover have "length (component_of t) \<le> 6" by (simp add: component_of_def component_switch_def component_input_def)
  ultimately have "length (status_topik_text (cstr (hs_dev_identifier hs)) (component_of t) n) < 128"
    using assms(1) by (simp add: length_state_texts helpers_wf_def)
  then show ?thesis by (simp add: print_topik_def cstr_snprintf_fits component_of_def)
qed

lemma cstr_state_payload:
  assumes "n < 8"
  shows "cstr (snprintf_into buf 700 (io_text (component_of t) n on)) = io_text (component_of t) n on"
proof -
  have "length (nat_dec n) \<le> 3" using assms by (intro length_nat_dec_u8) simp
  then show ?thesis
    by (simp add: cstr_snprintf_fits io_text_def component_of_def component_switch_def component_input_def)
qed

lemma status_msg_wire:
  assumes "helpers_wf hs" and "d \<in> set ha_devices"
  shows "wire (status_msg hs m (fst d) s (snd d)) = device_report (cstr (hs_dev_identifier hs)) d (device_bit s d)"
proof -
  have n: "0 < snd d" "snd d < 8" and t: "fst d = INPUT_SENSOR \<or> fst d = OUTPUT_DEVICE"
    using ha_devices_facts assms(2) by blast+
  have u: "unat (of_nat (snd d) :: u8) = snd d" using n by (simp add: unat_of_nat)
  have topic: "cstr (snd (get_status_topik_string hs (mm_topic m) 128 (fst d) (of_nat (snd d)))) =
      status_topic (cstr (hs_dev_identifier hs)) d"
    using t cstr_status_topik [OF assms(1) n, of _ "fst d"]
    by (auto simp: get_status_topik_string_def Let_def u status_topic_def component_of_def)
  have "snd (generate_sensor_status_payload_JSON (mm_payload m) 700 (fst d) (of_nat (snd d))
      (get_bit (ucast s) (of_nat (snd d - 1)))) =
      snprintf_into (mm_payload m) 700 (io_text (component_of (fst d)) (snd d) (device_bit s d))"
    using t by (elim disjE) (simp_all add: generate_sensor_status_payload_JSON_def Let_def u get_bit_eq [OF n] component_of_def device_bit_def
        del: One_nat_def)
  then have payload: "cstr (snd (generate_sensor_status_payload_JSON (mm_payload m) 700 (fst d) (of_nat (snd d))
      (get_bit (ucast s) (of_nat (snd d - 1))))) = state_payload d (device_bit s d)"
    using cstr_state_payload [OF n(2)] by (simp add: state_payload_def)
  show ?thesis
    using topic payload
    by (simp add: wire_def status_msg_def device_report_def mqtt_topik_max_len_def mqtt_payload_max_len_def)
qed

text \<open>Exactly the devices whose bit changed are reported, in the order of the list.\<close>

lemma publish_changes_puts:
  assumes tx: "msgq_tx_lawful mq v" and wf: "helpers_wf hs"
  shows "set ds \<subseteq> set ha_devices \<Longrightarrow> publish_changes mq hs t new old ds (m, w) = (m', w') \<Longrightarrow>
    map wire (mv_put v w') = map wire (mv_put v w) @
      map (\<lambda>d. device_report (cstr (hs_dev_identifier hs)) d (device_bit new d))
        (filter (\<lambda>d. fst d = t \<and> device_bit new d \<noteq> device_bit old d) ds)"
proof (induction ds arbitrary: m w)
  case (Cons d ds)
  have d: "d \<in> set ha_devices" using Cons.prems(1) by simp
  have n: "0 < snd d" "snd d < 8" using ha_devices_facts(1,2) [OF d] by simp_all
  have c: "get_bit (ucast new) (of_nat (snd d - 1)) \<noteq> get_bit (ucast old) (of_nat (snd d - 1)) \<longleftrightarrow>
      device_bit new d \<noteq> device_bit old d"
    unfolding get_bit_eq [OF n] device_bit_def by (simp add: of_bool_eq_iff)
  show ?case
  proof (cases "fst d = t \<and> device_bit new d \<noteq> device_bit old d")
    case True
    then have "publish_changes mq hs t new old ds
        (status_msg hs m t new (snd d), snd (tx_put mq w (status_msg hs m t new (snd d)))) = (m', w')"
      using Cons.prems(2) c by (simp add: Let_def del: One_nat_def)
    with Cons.IH [OF _ this] Cons.prems(1) True status_msg_wire [OF wf d, of m new] show ?thesis
      by (simp add: tx_put_law(4) [OF tx])
  next
    case False
    then have "publish_changes mq hs t new old ds (m, w) = (m', w')"
      using Cons.prems(2) c by (auto simp: Let_def simp del: One_nat_def split: if_splits)
    with Cons.IH [OF _ this] Cons.prems(1) False show ?thesis by auto
  qed
qed simp

lemma picture_reports:
  assumes "set ds \<subseteq> set ha_devices" and "d \<in> set ha_devices"
  shows "ha_picture (ws @ map (\<lambda>d. device_report ident d (g d)) ds) (status_topic ident d) =
    (if d \<in> set ds then Some (state_payload d (g d)) else ha_picture ws (status_topic ident d))"
  using assms(1)
proof (induction ds rule: rev_induct)
  case (snoc e ds)
  have e: "e \<in> set ha_devices" using snoc.prems by simp
  have "status_topic ident d = status_topic ident e \<longleftrightarrow> d = e"
  proof
    assume "status_topic ident d = status_topic ident e"
    then show "d = e"
      using status_topic_inject [of ident d e] ha_devices_facts(3) [OF e] ha_devices_facts(3) [OF assms(2)]
      by (auto simp: component_of_def component_switch_def component_input_def prod_eq_iff)
  qed simp
  moreover have "ha_picture (ws @ map (\<lambda>d. device_report ident d (g d)) (ds @ [e])) =
      (ha_picture (ws @ map (\<lambda>d. device_report ident d (g d)) ds))(status_topic ident e \<mapsto> state_payload e (g e))"
    using ha_picture_snoc [of "ws @ map (\<lambda>d. device_report ident d (g d)) ds"] by (simp add: device_report_def)
  ultimately show ?case using snoc by auto
qed simp

lemma not_eq_self: "NOT b \<noteq> (b :: u8)"
proof
  assume "NOT b = b"
  then have "bit (NOT b) 0 = bit b 0" by simp
  then show False by (simp add: bit_simps)
qed

lemma device_bit_not: "d \<in> set ha_devices \<Longrightarrow> device_bit (NOT b) d \<longleftrightarrow> \<not> device_bit b d"
  using ha_devices_facts(1) [of d] by (simp add: device_bit_def bit_simps less_imp_diff_less)

text \<open>
  A report that is due, or that starts from a right picture, leaves a right one; the
  pictures of the other devices stay.
\<close>

lemma ha_report_shows:
  assumes tx: "msgq_tx_lawful mq v" and wf: "helpers_wf hs"
    and r: "ha_report mq hs t now new (old, next, m, w) = (changed, old', next', m', w')"
  defines "ident \<equiv> cstr (hs_dev_identifier hs)"
  shows "now > next \<or> shows_state ident t old (ha_picture (map wire (mv_put v w))) \<Longrightarrow>
      shows_state ident t new (ha_picture (map wire (mv_put v w')))"
    and "old' = new"
    and "t' \<noteq> t \<Longrightarrow> shows_state ident t' b (ha_picture (map wire (mv_put v w))) \<Longrightarrow>
      shows_state ident t' b (ha_picture (map wire (mv_put v w')))"
proof -
  let ?old1 = "if now > next then NOT new else old"
  have "(changed \<and> publish_changes mq hs t new ?old1 ha_devices (m, w) = (m', w') \<or> new = ?old1 \<and> w' = w) \<and> old' = new"
    using r by (auto simp: ha_report_def Let_def split: if_splits prod.splits)
  then have *: "old' = new" "map wire (mv_put v w') = map wire (mv_put v w) @
      map (\<lambda>d. device_report ident d (device_bit new d))
        (filter (\<lambda>d. fst d = t \<and> device_bit new d \<noteq> device_bit ?old1 d) ha_devices) \<or> new = ?old1 \<and> w' = w"
    using publish_changes_puts [OF tx wf, of ha_devices t new ?old1 m w m' w'] by (auto simp: ident_def)
  let ?ds = "filter (\<lambda>d. fst d = t \<and> device_bit new d \<noteq> device_bit ?old1 d) ha_devices"
  have pic: "ha_picture (map wire (mv_put v w')) (status_topic ident d) =
      (if d \<in> set ?ds then Some (state_payload d (device_bit new d))
       else ha_picture (map wire (mv_put v w)) (status_topic ident d))" if "d \<in> set ha_devices" for d
    using *(2) picture_reports [of ?ds d, OF _ that] by (elim disjE) auto
  show "old' = new" by (rule *(1))
  show "shows_state ident t new (ha_picture (map wire (mv_put v w')))"
    if p: "now > next \<or> shows_state ident t old (ha_picture (map wire (mv_put v w)))"
    unfolding shows_state_def
  proof (intro ballI impI)
    fix d assume d: "d \<in> set ha_devices" "fst d = t"
    show "ha_picture (map wire (mv_put v w')) (status_topic ident d) = Some (state_payload d (device_bit new d))"
      using pic [OF d(1)] p d by (auto simp: shows_state_def device_bit_not)
  qed
  show "shows_state ident t' b (ha_picture (map wire (mv_put v w')))"
    if "t' \<noteq> t" and "shows_state ident t' b (ha_picture (map wire (mv_put v w)))"
    using that pic by (auto simp: shows_state_def)
qed

section \<open>A turn\<close>

text \<open>What the thread relies on: only it puts messages into the transmit queue.\<close>

definition only_ha_puts ::
  "'w msgq_view \<Rightarrow> 'w zbus_api \<Rightarrow> 'w kernel_api \<Rightarrow> ('w \<Rightarrow> 'w \<Rightarrow> bool) \<Rightarrow> bool" where
  "only_ha_puts v zb kn env \<longleftrightarrow>
     (\<forall>w. mv_put v (k_sleep kn w) = mv_put v w) \<and>
     (\<forall>w m. mv_put v (snd (zbus_pub_outputs zb w m)) = mv_put v w) \<and>
     (\<forall>w w'. env w w' \<longrightarrow> mv_put v w' = mv_put v w)"

abbreviation puts_picture :: "'w msgq_view \<Rightarrow> 'w \<Rightarrow> string \<rightharpoonup> string" where
  "puts_picture v w \<equiv> ha_picture (map wire (mv_put v w))"

text \<open>Nothing was reported yet, or the picture shows the state reported last.\<close>

definition synced :: "'w msgq_view \<Rightarrow> string \<Rightarrow> ha_task_state \<times> 'w \<Rightarrow> bool" where
  "synced v ident sw \<longleftrightarrow>
     (ht_next_input (fst sw) = 0 \<or>
        shows_state ident INPUT_SENSOR (im_state (ht_inputs_old (fst sw))) (puts_picture v (snd sw))) \<and>
     (ht_next_output (fst sw) = 0 \<or>
        shows_state ident OUTPUT_DEVICE (om_state (ht_outputs_old (fst sw))) (puts_picture v (snd sw)))"

lemma report_inputs_shows:
  assumes tx: "msgq_tx_lawful mq v" and wf: "helpers_wf hs" and now: "0 < now"
    and s: "synced v (cstr (hs_dev_identifier hs)) (s, w)" and r: "ha_report_inputs mq zb hs now (s, w) = (s', w')"
  shows "shows_state (cstr (hs_dev_identifier hs)) INPUT_SENSOR (im_state (ht_inputs s')) (puts_picture v w')"
    and "ht_inputs s' = chan_read (zbus_read_inputs zb w) (ht_inputs s)"
    and "im_state (ht_inputs_old s') = im_state (ht_inputs s')" and "ht_next_output s' = ht_next_output s"
    and "ht_outputs_old s' = ht_outputs_old s" and "ht_outputs s' = ht_outputs s"
    and "shows_state (cstr (hs_dev_identifier hs)) OUTPUT_DEVICE b (puts_picture v w) \<Longrightarrow>
      shows_state (cstr (hs_dev_identifier hs)) OUTPUT_DEVICE b (puts_picture v w')"
proof -
  let ?inp = "chan_read (zbus_read_inputs zb w) (ht_inputs s)"
  obtain changed old nxt m where h: "ha_report mq hs INPUT_SENSOR now (im_state ?inp)
      (im_state (ht_inputs_old s), ht_next_input s, ht_message s, w) = (changed, old, nxt, m, w')"
    and s': "s' = s\<lparr>ht_inputs := ?inp, ht_inputs_old := (if changed then ?inp else (ht_inputs_old s)\<lparr>im_state := old\<rparr>),
      ht_next_input := nxt, ht_message := m\<rparr>"
    using r by (auto simp: ha_report_inputs_def Let_def split: prod.splits)
  have "now > ht_next_input s \<or> shows_state (cstr (hs_dev_identifier hs)) INPUT_SENSOR (im_state (ht_inputs_old s)) (puts_picture v w)"
    using s now by (auto simp: synced_def)
  note sh = ha_report_shows [OF tx wf h]
  show "shows_state (cstr (hs_dev_identifier hs)) INPUT_SENSOR (im_state (ht_inputs s')) (puts_picture v w')"
    using sh(1) \<open>now > _ \<or> _\<close> s' by simp
  show "ht_inputs s' = ?inp" "im_state (ht_inputs_old s') = im_state (ht_inputs s')" "ht_next_output s' = ht_next_output s"
    "ht_outputs_old s' = ht_outputs_old s" "ht_outputs s' = ht_outputs s"
    using s' sh(2) by simp_all
  show "shows_state (cstr (hs_dev_identifier hs)) OUTPUT_DEVICE b (puts_picture v w) \<Longrightarrow>
      shows_state (cstr (hs_dev_identifier hs)) OUTPUT_DEVICE b (puts_picture v w')"
    by (rule sh(3)) simp_all
qed

lemma report_outputs_shows:
  assumes tx: "msgq_tx_lawful mq v" and wf: "helpers_wf hs" and now: "0 < now"
    and s: "synced v (cstr (hs_dev_identifier hs)) (s, w)" and r: "ha_report_outputs mq zb hs now (s, w) = (s', w')"
  shows "shows_state (cstr (hs_dev_identifier hs)) OUTPUT_DEVICE (om_state (ht_outputs s')) (puts_picture v w')"
    and "ht_outputs s' = chan_read (zbus_read_outputs zb w) (ht_outputs s)"
    and "om_state (ht_outputs_old s') = om_state (ht_outputs s')" and "ht_next_input s' = ht_next_input s"
    and "ht_inputs_old s' = ht_inputs_old s" and "ht_inputs s' = ht_inputs s"
    and "shows_state (cstr (hs_dev_identifier hs)) INPUT_SENSOR b (puts_picture v w) \<Longrightarrow>
      shows_state (cstr (hs_dev_identifier hs)) INPUT_SENSOR b (puts_picture v w')"
proof -
  let ?out = "chan_read (zbus_read_outputs zb w) (ht_outputs s)"
  obtain changed old nxt m where h: "ha_report mq hs OUTPUT_DEVICE now (om_state ?out)
      (om_state (ht_outputs_old s), ht_next_output s, ht_message s, w) = (changed, old, nxt, m, w')"
    and s': "s' = s\<lparr>ht_outputs := ?out, ht_outputs_old := (if changed then ?out else (ht_outputs_old s)\<lparr>om_state := old\<rparr>),
      ht_next_output := nxt, ht_message := m\<rparr>"
    using r by (auto simp: ha_report_outputs_def Let_def split: prod.splits)
  have "now > ht_next_output s \<or> shows_state (cstr (hs_dev_identifier hs)) OUTPUT_DEVICE (om_state (ht_outputs_old s)) (puts_picture v w)"
    using s now by (auto simp: synced_def)
  note sh = ha_report_shows [OF tx wf h]
  show "shows_state (cstr (hs_dev_identifier hs)) OUTPUT_DEVICE (om_state (ht_outputs s')) (puts_picture v w')"
    using sh(1) \<open>now > _ \<or> _\<close> s' by simp
  show "ht_outputs s' = ?out" "om_state (ht_outputs_old s') = om_state (ht_outputs s')" "ht_next_input s' = ht_next_input s"
    "ht_inputs_old s' = ht_inputs_old s" "ht_inputs s' = ht_inputs s"
    using s' sh(2) by simp_all
  show "shows_state (cstr (hs_dev_identifier hs)) INPUT_SENSOR b (puts_picture v w) \<Longrightarrow>
      shows_state (cstr (hs_dev_identifier hs)) INPUT_SENSOR b (puts_picture v w')"
    by (rule sh(3)) simp_all
qed

lemma command_keeps:
  assumes "msgq_rx_lawful mq v" and "only_ha_puts v zb kn env" and "ha_command mq zb (s, w) = (s', w')"
  shows "mv_put v w' = mv_put v w" and "ht_inputs s' = ht_inputs s" and "ht_inputs_old s' = ht_inputs_old s"
    and "ht_outputs_old s' = ht_outputs_old s" and "ht_next_input s' = ht_next_input s" and "ht_next_output s' = ht_next_output s"
proof -
  obtain rc m w1 where g: "rx_get mq w = (rc, m, w1)" by (metis prod_cases3)
  have "mv_put v w1 = mv_put v w" by (rule rx_get_law(2) [OF assms(1) g])
  then show "mv_put v w' = mv_put v w" and "ht_inputs s' = ht_inputs s" and "ht_inputs_old s' = ht_inputs_old s"
    and "ht_outputs_old s' = ht_outputs_old s" and "ht_next_input s' = ht_next_input s" and "ht_next_output s' = ht_next_output s"
    using assms(2,3) g by (auto simp: ha_command_def only_ha_puts_def split: if_splits option.splits)
qed

lemma turn_shows:
  assumes laws: "msgq_tx_lawful mq v" "msgq_rx_lawful mq v" "only_ha_puts v zb kn env"
    and wf: "helpers_wf hs" and now: "0 < k_uptime_seconds kn w"
    and s: "synced v (cstr (hs_dev_identifier hs)) (s, w)" and t: "ha_turn mq zb kn hs (s, w) = (c, (s', w'))"
  shows "synced v (cstr (hs_dev_identifier hs)) (s', w')"
    and "c \<Longrightarrow> shows_state (cstr (hs_dev_identifier hs)) INPUT_SENSOR (im_state (ht_inputs s')) (puts_picture v w')"
    and "c \<Longrightarrow> shows_state (cstr (hs_dev_identifier hs)) OUTPUT_DEVICE (om_state (ht_outputs s')) (puts_picture v w')"
    and "c \<Longrightarrow> ht_inputs s' = chan_read (zbus_read_inputs zb w) (ht_inputs s)"
proof -
  let ?id = "cstr (hs_dev_identifier hs)" and ?now = "k_uptime_seconds kn w"
  let ?s0 = "s\<lparr>ht_mqtt := chan_read (zbus_read_mqtt zb w) (ht_mqtt s)\<rparr>"
  have s0: "synced v ?id (?s0, w)" using s by (simp add: synced_def)
  have "synced v ?id (s', w') \<and> (c \<longrightarrow> shows_state ?id INPUT_SENSOR (im_state (ht_inputs s')) (puts_picture v w') \<and>
      shows_state ?id OUTPUT_DEVICE (om_state (ht_outputs s')) (puts_picture v w') \<and>
      ht_inputs s' = chan_read (zbus_read_inputs zb w) (ht_inputs s))"
  proof (cases "mq_connected (ht_mqtt ?s0)")
    case False
    then show ?thesis using t s0 by (auto simp: ha_turn_def Let_def)
  next
    case True
    obtain s1 w1 where 1: "ha_report_inputs mq zb hs ?now (?s0, w) = (s1, w1)" by fastforce
    obtain s2 w2 where 2: "ha_command mq zb (s1, w1) = (s2, w2)" by fastforce
    have 3: "ha_report_outputs mq zb hs ?now (s2, w2) = (s', w')" and c using t True 1 2 by (simp_all add: ha_turn_def Let_def)
    note r1 = report_inputs_shows [OF laws(1) wf now s0 1]
    note k = command_keeps [OF laws(2,3) 2]
    have s2: "synced v ?id (s2, w2)" using r1 k s0 by (auto simp: synced_def)
    note r2 = report_outputs_shows [OF laws(1) wf now s2 3]
    have "shows_state ?id INPUT_SENSOR (im_state (ht_inputs s')) (puts_picture v w')"
      using r2(7) r1(1) k r2(6) by simp
    moreover from this have "synced v ?id (s', w')" using r2 r1(3) k by (simp add: synced_def)
    moreover have "ht_inputs s' = chan_read (zbus_read_inputs zb w) (ht_inputs s)" using r2(6) k(2) r1(2) by simp
    ultimately show ?thesis using r2(1) by blast
  qed
  then show "synced v ?id (s', w')"
    and "c \<Longrightarrow> shows_state ?id INPUT_SENSOR (im_state (ht_inputs s')) (puts_picture v w')"
    and "c \<Longrightarrow> shows_state ?id OUTPUT_DEVICE (om_state (ht_outputs s')) (puts_picture v w')"
    and "c \<Longrightarrow> ht_inputs s' = chan_read (zbus_read_inputs zb w) (ht_inputs s)" by blast+
qed


section \<open>Registration and connecting\<close>

definition registration_wire :: "ha_helpers_state \<Rightarrow> device_t \<Rightarrow> wire_t" where
  "registration_wire hs d =
     (config_topik_text (fst (config_names (fst d))) (cstr (hs_dev_identifier hs)) (snd (config_names (fst d))) (snd d),
      registration_text hs (fst d) (of_nat (snd d)), MQTT_QOS_1_AT_LEAST_ONCE, True)"

lemma registration_msg_wire:
  assumes "helpers_wf hs" and "d \<in> set ha_devices"
  shows "wire (registration_msg hs m d) = registration_wire hs d"
proof -
  have t: "fst d = OUTPUT_DEVICE \<or> fst d = INPUT_SENSOR" and n: "snd d < 8" using ha_devices_facts assms(2) by blast+
  have u: "unat (of_nat (snd d) :: u8) = snd d" using n by (simp add: unat_of_nat)
  note p = registration_payload(1) [OF assms(1) t prod.collapse [symmetric], of "mm_payload m" "of_nat (snd d)"]
  note tp = registration_topic(2) [OF assms(1) t prod.collapse [symmetric], of "mm_topic m" "of_nat (snd d)"]
  show ?thesis
    using p tp
    by (simp add: wire_def registration_msg_def registration_wire_def mqtt_topik_max_len_def mqtt_payload_max_len_def u)
qed

text \<open>The registration puts a prefix of the six registrations, all of them while the connection lasts.\<close>

lemma register_loop_puts:
  assumes tx: "msgq_tx_lawful mq v" and wf: "helpers_wf hs" and puts: "only_ha_puts v zb kn env"
  shows "set ds \<subseteq> set ha_devices \<Longrightarrow> register_loop mq zb kn hs ds (m, st, w) = (m', st', w') \<Longrightarrow>
    \<exists>k. map wire (mv_put v w') = map wire (mv_put v w) @ map (registration_wire hs) (take k ds) \<and>
      (mq_connected st' \<longrightarrow> ds \<noteq> [] \<longrightarrow> length ds \<le> k)"
proof (induction ds arbitrary: m st w)
  case (Cons d ds)
  let ?m = "registration_msg hs m d"
  let ?w = "k_sleep kn (snd (tx_put mq w ?m))"
  let ?st = "chan_read (zbus_read_mqtt zb ?w) st"
  have "mv_put v ?w = mv_put v w @ [?m]" using puts by (simp add: only_ha_puts_def tx_put_law(4) [OF tx])
  then have 1: "map wire (mv_put v ?w) = map wire (mv_put v w) @ [registration_wire hs d]"
    using registration_msg_wire [OF wf, of d m] Cons.prems(1) by simp
  show ?case
  proof (cases "mq_connected ?st")
    case False
    then have "w' = ?w" "st' = ?st" using Cons.prems(2) by (auto simp: Let_def)
    with 1 False show ?thesis by (intro exI [of _ 1]) simp
  next
    case True
    then have r: "register_loop mq zb kn hs ds (?m, ?st, ?w) = (m', st', w')" using Cons.prems(2) by (simp add: Let_def)
    with Cons.IH [OF _ r] Cons.prems(1) obtain k where
      k: "map wire (mv_put v w') = map wire (mv_put v ?w) @ map (registration_wire hs) (take k ds)"
        "mq_connected st' \<longrightarrow> ds \<noteq> [] \<longrightarrow> length ds \<le> k" by auto
    then show ?thesis using 1 by (cases "ds = []") (intro exI [of _ "Suc k"]; simp)+
  qed
qed simp

lemma registration_keeps_picture:
  assumes "d \<in> set ha_devices"
  shows "ha_picture (ws @ map (registration_wire hs) ds) (status_topic ident d) = ha_picture ws (status_topic ident d)"
proof (induction ds rule: rev_induct)
  case (snoc e ds)
  have "status_topic ident d \<noteq> fst (registration_wire hs e)"
    by (simp add: status_topic_def registration_wire_def status_topik_text_def config_topik_text_def dev_system_def)
  then show ?case
    using snoc ha_picture_snoc [of "ws @ map (registration_wire hs) ds" "registration_wire hs e"] by simp
qed simp

lemma ha_wait_puts:
  "only_ha_puts v zb kn env \<Longrightarrow> ha_wait zb kn fuel (st, w) = Some (st', w') \<Longrightarrow>
     mv_put v w' = mv_put v w \<and> mq_connected st'"
proof (induction fuel arbitrary: st w)
  case (Suc fuel)
  let ?w = "k_sleep kn w"
  have "mv_put v ?w = mv_put v w" using Suc.prems(1) by (simp add: only_ha_puts_def)
  with Suc show ?case by (auto simp: Let_def split: if_splits)
qed simp

lemma register_synced:
  assumes "msgq_tx_lawful mq v" and "helpers_wf hs" and "only_ha_puts v zb kn env" and "synced v ident (s, w0)"
    and "mv_put v w = mv_put v w0" and "register_loop mq zb kn hs ha_devices (m, st, w) = (m', st', w')"
  shows "synced v ident (s\<lparr>ht_message := m', ht_mqtt := st'\<rparr>, w')"
proof -
  obtain k where "map wire (mv_put v w') = map wire (mv_put v w0) @ map (registration_wire hs) (take k ha_devices)"
    using register_loop_puts [OF assms(1-3) _ assms(6)] assms(5) by auto
  then have "puts_picture v w' (status_topic ident d) = puts_picture v w0 (status_topic ident d)"
    if "d \<in> set ha_devices" for d
    using registration_keeps_picture [OF that] by simp
  then show ?thesis using assms(4) by (simp add: synced_def shows_state_def)
qed

lemma connect_synced:
  assumes laws: "msgq_tx_lawful mq v" "only_ha_puts v zb kn env" "hw_ident kn ident"
    and inv: "helpers_inv hs" and s: "synced v (hex_text ident) (s, w)"
    and c: "ha_connect mq zb kn fuel (hs, s, w) = Some (hs', s', w')"
  shows "helpers_inv hs'" and "helpers_wf hs'" and "cstr (hs_dev_identifier hs') = hex_text ident"
    and "synced v (hex_text ident) (s', w')"
proof -
  obtain st w1 where wt: "ha_wait zb kn fuel (ht_mqtt s, w) = Some (st, w1)"
    using c by (cases "ha_wait zb kn fuel (ht_mqtt s, w)") (auto simp: ha_connect_def Let_def)
  define hs0 where "hs0 = snd (ha_mqtt_init kn w hs)"
  obtain m st' w2 where r0: "register_loop mq zb kn hs0 ha_devices (ht_message s, st, w1) = (m, st', w2)"
    by (metis prod_cases3)
  have eqs: "hs' = hs0" "s' = s\<lparr>ht_message := m, ht_mqtt := st'\<rparr>" "w' = w2"
    using c wt r0 by (simp_all add: ha_connect_def Let_def hs0_def)
  then have r: "register_loop mq zb kn hs' ha_devices (ht_message s, st, w1) = (m, st', w')"
    and hs': "hs' = snd (ha_mqtt_init kn w hs)" using r0 by (simp_all add: hs0_def)
  note i = ha_mqtt_init_inv [OF laws(3) inv prod.collapse [symmetric], of w, folded hs']
  then show "helpers_inv hs'" and wf: "helpers_wf hs'" and "cstr (hs_dev_identifier hs') = hex_text ident" by simp_all
  have "mv_put v w1 = mv_put v w" using ha_wait_puts [OF laws(2) wt] by simp
  from register_synced [OF laws(1) wf laws(2) s this r] show "synced v (hex_text ident) (s', w')" by (simp add: eqs(2))
qed


section \<open>The thread\<close>

text \<open>A step of the thread as the body of a loop; while the wait for a connection lasts nothing is done.\<close>

definition ha_body ::
  "'w msgq_api \<Rightarrow> 'w zbus_api \<Rightarrow> 'w kernel_api \<Rightarrow> nat \<Rightarrow> (ha_helpers_state \<times> ha_task_state) \<times> 'w
     \<Rightarrow> (ha_helpers_state \<times> ha_task_state) \<times> 'w" where
  "ha_body mq zb kn fuel x =
     (let ((hs, s), w) = x
      in case ha_task_step mq zb kn fuel (hs, s, w) of None \<Rightarrow> x | Some (hs', s', w') \<Rightarrow> ((hs', s'), w'))"

definition ha_laws ::
  "'w msgq_api \<Rightarrow> 'w zbus_api \<Rightarrow> 'w kernel_api \<Rightarrow> 'w msgq_view \<Rightarrow> ('w \<Rightarrow> 'w \<Rightarrow> bool) \<Rightarrow> byte list \<Rightarrow> bool" where
  "ha_laws mq zb kn v env ident \<longleftrightarrow>
     msgq_tx_lawful mq v \<and> msgq_rx_lawful mq v \<and> only_ha_puts v zb kn env \<and> hw_ident kn ident \<and>
     (\<forall>w. 0 < k_uptime_seconds kn w)"

definition ha_inv :: "'w msgq_view \<Rightarrow> byte list \<Rightarrow> (ha_helpers_state \<times> ha_task_state) \<times> 'w \<Rightarrow> bool" where
  "ha_inv v ident x \<longleftrightarrow>
     (let ((hs, s), w) = x
      in helpers_inv hs \<and> helpers_wf hs \<and> cstr (hs_dev_identifier hs) = hex_text ident \<and> synced v (hex_text ident) (s, w))"

lemma ha_body_inv:
  assumes "ha_laws mq zb kn v env ident" and "ha_inv v ident x"
  shows "ha_inv v ident (ha_body mq zb kn fuel x)"
proof -
  obtain hs s w where x: "x = ((hs, s), w)" by (metis prod.collapse)
  obtain c s1 w1 where t: "ha_turn mq zb kn hs (s, w) = (c, (s1, w1))" by (metis prod_cases3)
  have laws: "msgq_tx_lawful mq v" "msgq_rx_lawful mq v" "only_ha_puts v zb kn env" "hw_ident kn ident"
      "0 < k_uptime_seconds kn w" using assms(1) by (simp_all add: ha_laws_def)
  have i: "helpers_inv hs" "helpers_wf hs" "cstr (hs_dev_identifier hs) = hex_text ident" "synced v (hex_text ident) (s, w)"
    using assms(2) by (simp_all add: ha_inv_def x)
  have "synced v (hex_text ident) (s1, w1)"
    using turn_shows(1) [OF laws(1-3) i(2) laws(5) _ t] i(3,4) by simp
  then have s1: "synced v (hex_text ident) (s1, k_sleep kn w1)"
    using laws(3) by (simp add: synced_def only_ha_puts_def)
  show ?thesis
  proof (cases c)
    case True
    then show ?thesis using t s1 i by (simp add: ha_body_def ha_task_step_def x ha_inv_def)
  next
    case False
    show ?thesis
    proof (cases "ha_connect mq zb kn fuel (hs, s1, k_sleep kn w1)")
      case None
      then show ?thesis using False t assms(2) by (simp add: ha_body_def ha_task_step_def x)
    next
      case (Some y)
      obtain hs' s' w' where y: "y = (hs', s', w')" by (metis prod_cases3)
      show ?thesis
        using connect_synced [OF laws(1,3,4) i(1) s1] Some False t
        by (simp add: ha_body_def ha_task_step_def x y ha_inv_def)
    qed
  qed
qed

interpretation ha_loop: thread_loop "ha_body mq zb kn fuel" env "\<lambda>x. ha_laws mq zb kn v env ident \<longrightarrow> ha_inv v ident x"
  for mq zb kn fuel env v ident
  by unfold_locales
    (auto simp: ha_body_inv, auto simp: ha_inv_def ha_laws_def only_ha_puts_def synced_def)

lemma ha_start_inv:
  assumes "ha_laws mq zb kn v env ident"
    and "ha_connect mq zb kn fuel (ha_helpers_init, ha_task_init, w0) = Some (hs, s, w)"
  shows "ha_inv v ident ((hs, s), w)"
proof -
  have i: "helpers_inv ha_helpers_init" by (simp add: helpers_inv_def ha_helpers_init_def)
  have s: "synced v (hex_text ident) (ha_task_init, w0)" by (simp add: synced_def ha_task_init_def)
  have laws: "msgq_tx_lawful mq v" "only_ha_puts v zb kn env" "hw_ident kn ident"
    using assms(1) by (simp_all add: ha_laws_def)
  show ?thesis using connect_synced [OF laws i s assms(2)] by (simp add: ha_inv_def)
qed

section \<open>Commands\<close>

lemma ha_command_published:
  assumes "msgq_rx_lawful mq v" and "zbus_outputs_lawful zb" and "\<forall>w m. fst (zbus_pub_outputs zb w m) = 0"
    and "mv_rx v w = m # ms" and "parse_incoming_message (mm_payload m) (mm_topic m) = Some (OUTPUT_DEVICE, n, st)"
    and "ha_command mq zb (s, w) = (s', w')"
  shows "zbus_read_outputs zb w' = (0, ht_outputs s')"
    and "ht_outputs s' = \<lparr>om_seq = om_seq (ht_outputs s) + 1, om_state = set_relay_bit (om_state (ht_outputs s)) n (st \<noteq> 0)\<rparr>"
proof -
  obtain rc m1 w1 where g: "rx_get mq w = (rc, m1, w1)" by (metis prod_cases3)
  have u: "rx_used mq w \<noteq> 0" using assms(1,4) by (simp add: msgq_rx_lawful_def)
  have "rc = 0" "m1 = m" using rx_get_law(5) [OF assms(1) g assms(4)] by simp_all
  then have c: "ha_command mq zb (s, w) =
      (let out = \<lparr>om_seq = om_seq (ht_outputs s) + 1, om_state = set_relay_bit (om_state (ht_outputs s)) n (st \<noteq> 0)\<rparr>
       in (s\<lparr>ht_message := m, ht_outputs := out\<rparr>, snd (zbus_pub_outputs zb w1 out)))"
    using g u assms(5) by (simp add: ha_command_def command_outputs_def Let_def)
  have "zbus_read_outputs zb (snd (zbus_pub_outputs zb w1 out)) = (0, out)" for out
    using assms(2,3) unfolding zbus_outputs_lawful_def by (metis prod.collapse)
  then show "zbus_read_outputs zb w' = (0, ht_outputs s')"
    and "ht_outputs s' = \<lparr>om_seq = om_seq (ht_outputs s) + 1, om_state = set_relay_bit (om_state (ht_outputs s)) n (st \<noteq> 0)\<rparr>"
    using assms(6) c by (auto simp: Let_def)
qed

lemma relay_pins_command:
  assumes "1 \<le> n" and "n \<le> 3"
  shows "relay_pins (set_relay_bit b (of_nat n) on) = (relay_pins b)[n - 1 := on]"
  using relay.pins_set [of "n - 1" b on] assms by (simp del: of_nat_Suc)


lemma ha_wait_returns:
  "0 < n \<Longrightarrow> n \<le> fuel \<Longrightarrow> zbus_read_mqtt zb ((k_sleep kn ^^ n) w) = (0, q) \<Longrightarrow> mq_connected q \<Longrightarrow>
     \<exists>st w'. ha_wait zb kn fuel (st0, w) = Some (st, w')"
proof (induction fuel arbitrary: n w st0)
  case (Suc fuel)
  let ?st = "chan_read (zbus_read_mqtt zb (k_sleep kn w)) st0"
  show ?case
  proof (cases "mq_connected ?st")
    case True
    then show ?thesis by (simp add: Let_def)
  next
    case False
    obtain k where n: "n = Suc k" using Suc.prems(1) by (cases n) simp_all
    have shift: "(k_sleep kn ^^ Suc k) w = (k_sleep kn ^^ k) (k_sleep kn w)"
      unfolding funpow_Suc_right comp_def by (rule refl)
    have "0 < k" using False Suc.prems(3,4) n by (cases k) auto
    with Suc.IH [of k "k_sleep kn w" ?st] Suc.prems n shift False show ?thesis by (simp add: Let_def)
  qed
qed simp

section \<open>Properties\<close>

text \<open>
  C4. Home Assistant's picture follows the device: from the first connection on, in every
  state the thread can reach, whatever the other threads do and however often the
  connection is lost, a turn of the loop that finds the connection up ends with the last
  payload on the status topic of each input showing the bit of the state the turn read
  from the inputs channel, and on that of each relay the bit of the state it read last
  from the outputs channel.
\<close>

theorem ha_picture_follows:
  assumes "ha_laws mq zb kn v env ident"
    and "ha_connect mq zb kn fuel (ha_helpers_init, ha_task_init, w0) = Some (hs0, s0, w1)"
    and "loop_reach (ha_body mq zb kn fuel) env ((hs0, s0), w1) ((hs, s), w)"
    and "zbus_read_inputs zb w = (0, inp)" and "ha_turn mq zb kn hs (s, w) = (True, (s', w'))"
  shows "shows_state (hex_text ident) INPUT_SENSOR (im_state inp) (ha_picture (map wire (mv_put v w'))) \<and>
    shows_state (hex_text ident) OUTPUT_DEVICE (om_state (ht_outputs s')) (ha_picture (map wire (mv_put v w')))"
proof -
  have "ha_inv v ident ((hs, s), w)"
    using ha_loop.reachable [OF assms(3), of v ident] ha_start_inv [OF assms(1,2)] assms(1) by simp
  then have i: "helpers_wf hs" "synced v (cstr (hs_dev_identifier hs)) (s, w)" "cstr (hs_dev_identifier hs) = hex_text ident"
    by (simp_all add: ha_inv_def)
  have laws: "msgq_tx_lawful mq v" "msgq_rx_lawful mq v" "only_ha_puts v zb kn env" "0 < k_uptime_seconds kn w"
    using assms(1) by (simp_all add: ha_laws_def)
  from turn_shows(2-4) [OF laws(1-3) i(1) laws(4) i(2) assms(5)] assms(4) i(3) show ?thesis by simp
qed

definition demo_ha_kernel :: "demo_world kernel_api" where
  "demo_ha_kernel = demo_kernel\<lparr>k_uptime_seconds := (\<lambda>w. 1000)\<rparr>"

definition demo_ha_env :: "demo_world \<Rightarrow> demo_world \<Rightarrow> bool" where
  "demo_ha_env w w' \<longleftrightarrow> dw_put w' = dw_put w"

definition demo_ha_world :: demo_world where
  "demo_ha_world = demo_init\<lparr>dw_mqtt := \<lparr>mq_seq = 1, mq_enabled = True, mq_connected = True\<rparr>,
     dw_inputs := \<lparr>im_seq = 1, im_state = 5\<rparr>\<rparr>"

lemma demo_ha_laws: "ha_laws demo_msgq demo_zbus demo_ha_kernel demo_queues demo_ha_env (replicate 12 (CHR 0xA5))"
  by (simp add: ha_laws_def only_ha_puts_def hw_ident_def demo_ha_kernel_def demo_kernel_def demo_zbus_def
      demo_ha_env_def min_def)

lemma demo_register_keeps:
  "register_loop demo_msgq demo_zbus demo_ha_kernel hs ds (m, st, w) = (m', st', w') \<Longrightarrow>
     dw_mqtt w' = dw_mqtt w \<and> dw_inputs w' = dw_inputs w \<and> dw_outputs w' = dw_outputs w \<and> dw_rx w' = dw_rx w"
  by (induction ds arbitrary: m st w)
    (auto simp: Let_def demo_msgq_def demo_ha_kernel_def demo_kernel_def split: if_splits)

lemma demo_connect:
  "\<exists>hs s w. ha_connect demo_msgq demo_zbus demo_ha_kernel 1 (ha_helpers_init, ha_task_init, demo_ha_world) = Some (hs, s, w) \<and>
     dw_mqtt w = dw_mqtt demo_ha_world \<and> dw_inputs w = dw_inputs demo_ha_world \<and> dw_rx w = []"
proof -
  let ?hs = "snd (ha_mqtt_init demo_ha_kernel demo_ha_world ha_helpers_init)"
  have wait: "ha_wait demo_zbus demo_ha_kernel 1 (ht_mqtt ha_task_init, demo_ha_world) = Some (dw_mqtt demo_ha_world, demo_ha_world)"
    by (simp add: Let_def demo_zbus_def demo_ha_kernel_def demo_kernel_def demo_ha_world_def)
  obtain m st w where r: "register_loop demo_msgq demo_zbus demo_ha_kernel ?hs ha_devices
      (ht_message ha_task_init, dw_mqtt demo_ha_world, demo_ha_world) = (m, st, w)" by (metis prod_cases3)
  have "dw_rx demo_ha_world = []" by (simp add: demo_ha_world_def demo_init_def)
  with demo_register_keeps [OF r] wait r show ?thesis by (simp add: ha_connect_def Let_def)
qed

theorem ha_picture_follows_witness:
  "\<exists>hs s w s' w'. ha_connect demo_msgq demo_zbus demo_ha_kernel 1 (ha_helpers_init, ha_task_init, demo_ha_world) = Some (hs, s, w) \<and>
     ha_turn demo_msgq demo_zbus demo_ha_kernel hs (s, w) = (True, (s', w')) \<and>
     shows_state (hex_text (replicate 12 (CHR 0xA5))) INPUT_SENSOR 5 (ha_picture (map wire (dw_put w')))"
proof -
  obtain hs s w where c: "ha_connect demo_msgq demo_zbus demo_ha_kernel 1 (ha_helpers_init, ha_task_init, demo_ha_world) = Some (hs, s, w)"
    and w: "dw_mqtt w = dw_mqtt demo_ha_world" "dw_inputs w = dw_inputs demo_ha_world" using demo_connect by blast
  obtain b s' w' where t: "ha_turn demo_msgq demo_zbus demo_ha_kernel hs (s, w) = (b, (s', w'))" by (metis prod_cases3)
  then have b: b using w(1) by (auto simp: ha_turn_def Let_def demo_zbus_def demo_ha_world_def split: if_splits)
  have inp: "zbus_read_inputs demo_zbus w = (0, \<lparr>im_seq = 1, im_state = 5\<rparr>)"
    using w(2) by (simp add: demo_zbus_def demo_ha_world_def)
  from ha_picture_follows [OF demo_ha_laws c loop_reach.start inp] t b c show ?thesis by auto
qed

text \<open>
  C17. The device registers: when the connection is up after the \<open>n\<close>-th sleep, the wait
  for it ends within \<open>n\<close> turns, and if it lasts until the end of the registration, exactly
  the six registrations, with their whole texts, were put into the transmit queue in the
  order of the list.
\<close>

theorem connected_device_registers:
  assumes "ha_laws mq zb kn v env ident" and "helpers_inv hs"
    and "0 < n" and "n \<le> fuel" and "zbus_read_mqtt zb ((k_sleep kn ^^ n) w) = (0, q)" and "mq_connected q"
  shows "\<exists>hs' s' w'. ha_connect mq zb kn fuel (hs, s, w) = Some (hs', s', w') \<and>
    (mq_connected (ht_mqtt s') \<longrightarrow>
       map wire (mv_put v w') = map wire (mv_put v w) @ map (registration_wire hs') ha_devices)"
proof -
  have laws: "msgq_tx_lawful mq v" "only_ha_puts v zb kn env" "hw_ident kn ident" using assms(1) by (simp_all add: ha_laws_def)
  obtain st w1 where wt: "ha_wait zb kn fuel (ht_mqtt s, w) = Some (st, w1)"
    using ha_wait_returns [OF assms(3-6)] by blast
  define hs' where "hs' = snd (ha_mqtt_init kn w hs)"
  have wf: "helpers_wf hs'" using ha_mqtt_init_inv(2) [OF laws(3) assms(2) prod.collapse [symmetric]] by (simp add: hs'_def)
  obtain m st' w2 where r: "register_loop mq zb kn hs' ha_devices (ht_message s, st, w1) = (m, st', w2)"
    by (metis prod_cases3)
  obtain k where k: "map wire (mv_put v w2) = map wire (mv_put v w1) @ map (registration_wire hs') (take k ha_devices)"
    "mq_connected st' \<longrightarrow> ha_devices \<noteq> [] \<longrightarrow> length ha_devices \<le> k"
    using register_loop_puts [OF laws(1) wf laws(2) _ r] by blast
  have "ha_connect mq zb kn fuel (hs, s, w) = Some (hs', s\<lparr>ht_message := m, ht_mqtt := st'\<rparr>, w2)"
    using wt r by (simp add: ha_connect_def Let_def hs'_def)
  then show ?thesis using k ha_wait_puts [OF laws(2) wt] by (auto simp: ha_devices_def)
qed

theorem connected_device_registers_witness:
  "\<exists>hs s w. ha_connect demo_msgq demo_zbus demo_ha_kernel 1 (ha_helpers_init, ha_task_init, demo_ha_world) = Some (hs, s, w) \<and>
     (mq_connected (ht_mqtt s) \<longrightarrow> map wire (dw_put w) = map (registration_wire hs) ha_devices)"
proof -
  have i: "helpers_inv ha_helpers_init" by (simp add: helpers_inv_def ha_helpers_init_def)
  have q: "zbus_read_mqtt demo_zbus ((k_sleep demo_ha_kernel ^^ 1) demo_ha_world) = (0, dw_mqtt demo_ha_world)"
    "mq_connected (dw_mqtt demo_ha_world)" "dw_put demo_ha_world = []"
    by (simp_all add: demo_zbus_def demo_ha_kernel_def demo_kernel_def demo_ha_world_def demo_init_def)
  from connected_device_registers [OF demo_ha_laws i zero_less_one order_refl q(1,2), of ha_task_init] q(3)
  show ?thesis by simp
qed

text \<open>
  C32. A command loses an update over the REST interface: relay states posted since the
  thread last read the outputs channel are acknowledged and then overwritten by the next
  command, which sets its relay in the thread's own older copy: after it every other relay
  on the channel is as in that copy, whatever was posted.
\<close>

theorem command_loses_rest_update:
  assumes "msgq_rx_lawful mq v" and "zbus_outputs_lawful zb" and "\<forall>w m. fst (zbus_pub_outputs zb w m) = 0"
    and "1 \<le> n" and "n \<le> 3"
    and "relays_state_update zb w0 posted = w" and "mv_rx v w = m # ms"
    and "parse_incoming_message (mm_payload m) (mm_topic m) = Some (OUTPUT_DEVICE, of_nat n, of_bool on)"
    and "ha_command mq zb (s, w) = (s', w')"
  shows "relay_pins (relays_state_get zb w) = [rl_relay1 posted, rl_relay2 posted, rl_relay3 posted] \<and>
    relay_pins (relays_state_get zb w') = (relay_pins (om_state (ht_outputs s)))[n - 1 := on]"
proof -
  have "relays_state_get zb w = pack_relays (rl_relay1 posted) (rl_relay2 posted) (rl_relay3 posted)"
    unfolding assms(6) [symmetric] using relays_update_get [OF assms(2)] assms(3) by simp
  moreover have "relays_state_get zb w' = set_relay_bit (om_state (ht_outputs s)) (of_nat n) on"
    using ha_command_published [OF assms(1-3,7,8,9)] by (simp add: relays_state_get_def)
  ultimately show ?thesis using relay_pins_command [OF assms(4,5)] by simp
qed


theorem command_loses_rest_update_witness:
  "let w = relays_state_update demo_zbus
         (demo_init\<lparr>dw_rx := [\<lparr>mm_topic = ''cedar_A5/switch1/set'', mm_payload = ''ON'', mm_qos = 2, mm_retain = False\<rparr>]\<rparr>)
         \<lparr>rl_relay1 = False, rl_relay2 = True, rl_relay3 = True\<rparr>
   in relay_pins (relays_state_get demo_zbus w) = [False, True, True] \<and>
      relay_pins (relays_state_get demo_zbus (snd (ha_command demo_msgq demo_zbus (ha_task_init, w)))) = [True, False, False]"
proof -
  let ?m = "\<lparr>mm_topic = ''cedar_A5/switch1/set'', mm_payload = ''ON'', mm_qos = 2, mm_retain = False\<rparr>"
  let ?p = "\<lparr>rl_relay1 = False, rl_relay2 = True, rl_relay3 = True\<rparr>"
  let ?w = "relays_state_update demo_zbus (demo_init\<lparr>dw_rx := [?m]\<rparr>) ?p"
  have pub: "\<forall>w m. fst (zbus_pub_outputs demo_zbus w m) = 0" by (simp add: demo_zbus_def)
  have rx: "mv_rx demo_queues ?w = [?m]" by (simp add: relays_state_update_def demo_zbus_def Let_def)
  have "parse_incoming_message ''ON'' ''cedar_A5/switch1/set'' = Some (OUTPUT_DEVICE, 1, 1)" by code_simp
  then have p: "parse_incoming_message (mm_payload ?m) (mm_topic ?m) = Some (OUTPUT_DEVICE, of_nat 1, of_bool True)"
    by simp
  obtain s' w' where c: "ha_command demo_msgq demo_zbus (ha_task_init, ?w) = (s', w')" by fastforce
  have "relay_pins 0 = [False, False, False]" by (simp add: relay_pins_def)
  with command_loses_rest_update [OF demo_msgq_rx_lawful demo_zbus_outputs_lawful pub _ _ refl rx p c] c
  show ?thesis by (simp add: ha_task_init_def)
qed


end
