(* ===== verification/Firmware.thy ===== *)
theory Firmware
  imports Http_Api Ha_Picture
begin

text \<open>
  The running firmware: the io thread, the two MQTT threads and the HTTP server side by side
  on one world. A state holds the variables of each, with the one copy of the statics of
  \<open>ha_mqtt_helpers.c\<close> that both MQTT threads use; a step is one turn of a thread, one call of
  a handler, or something that happens outside. The run starts when \<open>main\<close> and the address
  event have started everything and goes on until the device is rebooted.

  The theories of the threads assume what the others leave alone. Here the others are the
  actual code, so these assumptions become lemmas: only the io thread touches the pins,
  only the Home Assistant task fills the transmit queue, and only the client thread talks to
  the broker. What remains assumed is that a service of the platform does not do the work
  of another one.
\<close>

section \<open>The state and the steps\<close>

record 'w platform =
  pl_sys :: "'w sys_api"
  pl_zb :: "'w zbus_api"
  pl_gp :: "'w gpio_api"
  pl_mq :: "'w msgq_api"
  pl_mc :: "'w mqtt_api"
  pl_kn :: "'w kernel_api"
  pl_nt :: "'w net_api"
  pl_fs :: "'w fs_api"
  pl_bt :: "'w boot_api"

text \<open>Where the Home Assistant task is: before its initialisation, waiting for the connection, in its inner loop.\<close>

datatype ha_phase = Ha_Init | Ha_Wait | Ha_Loop

record 'w firmware =
  fw_io :: io_state
  fw_phase :: ha_phase
  fw_ha :: ha_task_state
  fw_mqtt :: mqtt_task_state
  fw_helpers :: ha_helpers_state
  fw_web :: web_state
  fw_world :: 'w

definition fw_boot :: "'w platform \<Rightarrow> mqtt_settings_t \<Rightarrow> 'w \<Rightarrow> 'w firmware option" where
  "fw_boot P sett w =
     (case io_task_start (pl_sys P) (pl_gp P) w of
        None \<Rightarrow> None
      | Some (i, w1) \<Rightarrow>
          let (auth, w2) = authentication_init (pl_sys P) w1 \<lparr>as_users = web_users_zero, as_sessions = []\<rparr>
          in Some \<lparr>fw_io = i, fw_phase = Ha_Init, fw_ha = ha_task_init, fw_mqtt = mqtt_task_init sett ha_helpers_init,
                  fw_helpers = ha_helpers_init, fw_web = web_state_init auth, fw_world = w2\<rparr>)"

text \<open>One turn of the wait for the connection; when it is up, the registration.\<close>

definition ha_poll ::
  "'w msgq_api \<Rightarrow> 'w zbus_api \<Rightarrow> 'w kernel_api \<Rightarrow> ha_helpers_state \<Rightarrow> ha_task_state \<times> 'w \<Rightarrow> bool \<times> ha_task_state \<times> 'w" where
  "ha_poll mq zb kn hs sw =
     (let (s, w) = sw; w1 = k_sleep kn w; st = chan_read (zbus_read_mqtt zb w1) (ht_mqtt s)
      in if mq_connected st
         then let (m, st', w2) = register_loop mq zb kn hs ha_devices (ht_message s, st, w1)
              in (True, s\<lparr>ht_message := m, ht_mqtt := st'\<rparr>, w2)
         else (False, s\<lparr>ht_mqtt := st\<rparr>, w1))"

inductive fw_step ::
  "'w platform \<Rightarrow> relays_def_state \<Rightarrow> nat \<Rightarrow> ('w \<Rightarrow> 'w \<Rightarrow> bool) \<Rightarrow> 'w firmware \<Rightarrow> 'w firmware \<Rightarrow> bool"
  for P d fuel outside where
  io: "io_task_body (pl_zb P) (pl_gp P) d (fw_io s, fw_world s) = (i, w) \<Longrightarrow>
    fw_step P d fuel outside s (s\<lparr>fw_io := i, fw_world := w\<rparr>)"
| ha_init: "fw_phase s = Ha_Init \<Longrightarrow> ha_mqtt_init (pl_kn P) (fw_world s) (fw_helpers s) = (rc, hs) \<Longrightarrow>
    fw_step P d fuel outside s (s\<lparr>fw_phase := Ha_Wait, fw_helpers := hs\<rparr>)"
| ha_poll: "fw_phase s = Ha_Wait \<Longrightarrow>
    ha_poll (pl_mq P) (pl_zb P) (pl_kn P) (fw_helpers s) (fw_ha s, fw_world s) = (up, ha, w) \<Longrightarrow>
    fw_step P d fuel outside s (s\<lparr>fw_phase := (if up then Ha_Loop else Ha_Wait), fw_ha := ha, fw_world := w\<rparr>)"
| ha_turn: "fw_phase s = Ha_Loop \<Longrightarrow>
    ha_turn (pl_mq P) (pl_zb P) (pl_kn P) (fw_helpers s) (fw_ha s, fw_world s) = (up, ha, w) \<Longrightarrow>
    fw_step P d fuel outside s
      (s\<lparr>fw_phase := (if up then Ha_Loop else Ha_Init), fw_ha := ha, fw_world := k_sleep (pl_kn P) w\<rparr>)"
| mqtt: "mqtt_task_step (pl_nt P) (pl_mc P) (pl_mq P) (pl_zb P) (pl_kn P) ((fw_mqtt s)\<lparr>tk_helpers := fw_helpers s\<rparr>, fw_world s) =
      Some (tk, w) \<Longrightarrow>
    fw_step P d fuel outside s (s\<lparr>fw_mqtt := tk, fw_helpers := tk_helpers tk, fw_world := w\<rparr>)"
| http: "ep \<noteq> System_Reboot \<Longrightarrow> accepts ep client \<Longrightarrow>
    serve (pl_sys P) (pl_zb P) (pl_kn P) (pl_bt P) (pl_fs P) fuel ep client status req resp (fw_web s, fw_world s) =
      Some (answer, (wb, w)) \<Longrightarrow>
    fw_step P d fuel outside s (s\<lparr>fw_web := wb, fw_world := w\<rparr>)"
| outside: "outside (fw_world s) w \<Longrightarrow> fw_step P d fuel outside s (s\<lparr>fw_world := w\<rparr>)"

inductive_cases fw_stepE: "fw_step P d fuel outside s s'"

text \<open>The turns of the wait are those of \<open>ha_connect\<close>, with the other threads in between.\<close>

lemma ha_connect_polls:
  "ha_connect mq zb kn (Suc fuel) (hs, s, w) =
     (let hs' = snd (ha_mqtt_init kn w hs); (up, s', w') = ha_poll mq zb kn hs' (s, w)
      in if up then Some (hs', s', w')
         else (case ha_wait zb kn fuel (ht_mqtt s', w') of
                 None \<Rightarrow> None
               | Some (st, w1) \<Rightarrow>
                   let (m, st', w2) = register_loop mq zb kn hs' ha_devices (ht_message s', st, w1)
                   in Some (hs', s'\<lparr>ht_message := m, ht_mqtt := st'\<rparr>, w2)))"
  by (simp add: ha_connect_def ha_poll_def Let_def case_prod_beta' split: option.split)

section \<open>What the services leave alone\<close>

definition gpio_keeps :: "'w gpio_api \<Rightarrow> ('w \<Rightarrow> 'g) \<Rightarrow> bool" where
  "gpio_keeps gp g \<longleftrightarrow> (\<forall>w i b. g (gpio_pin_set gp w i b) = g w)"

definition broker_keeps :: "'w mqtt_api \<Rightarrow> 'w net_api \<Rightarrow> ('w \<Rightarrow> 'g) \<Rightarrow> bool" where
  "broker_keeps mc nt g \<longleftrightarrow> (\<forall>w p. g (snd (mqtt_publish mc w p)) = g w) \<and> (\<forall>w ts i. g (snd (mqtt_subscribe mc w ts i)) = g w) \<and>
     (\<forall>cb c s. cb_keeps g cb \<longrightarrow> g (snd (snd (mqtt_connect nt cb c s))) = g (snd s))"

definition tx_put_keeps :: "'w msgq_api \<Rightarrow> ('w \<Rightarrow> 'g) \<Rightarrow> bool" where
  "tx_put_keeps mq g \<longleftrightarrow> (\<forall>w m. g (snd (tx_put mq w m)) = g w)"

text \<open>The services that serve no view of the following section; and with the outputs channel.\<close>

definition base_keeps :: "'w platform \<Rightarrow> ('w \<Rightarrow> 'g) \<Rightarrow> bool" where
  "base_keeps P g \<longleftrightarrow> sys_keeps (pl_sys P) g \<and> fs_keeps (pl_fs P) g \<and>
     (\<forall>w. g (k_sleep (pl_kn P) w) = g w) \<and> (\<forall>w. g (snd (sys_rand16_get (pl_kn P) w)) = g w) \<and>
     (\<forall>w. g (snd (snd (tx_get (pl_mq P) w))) = g w) \<and> (\<forall>w. g (snd (snd (rx_get (pl_mq P) w))) = g w) \<and>
     handler_keeps (pl_mc P) (pl_mq P) (pl_zb P) g \<and> client_keeps (pl_nt P) g"

definition common_keeps :: "'w platform \<Rightarrow> ('w \<Rightarrow> 'g) \<Rightarrow> bool" where
  "common_keeps P g \<longleftrightarrow> base_keeps P g \<and> outputs_keep (pl_zb P) g"

text \<open>Everything but the named device.\<close>

definition io_keeps :: "'w platform \<Rightarrow> ('w \<Rightarrow> 'g) \<Rightarrow> bool" where
  "io_keeps P g \<longleftrightarrow> gpio_keeps (pl_gp P) g"

definition ha_keeps :: "'w platform \<Rightarrow> ('w \<Rightarrow> 'g) \<Rightarrow> bool" where
  "ha_keeps P g \<longleftrightarrow> common_keeps P g \<and> tx_put_keeps (pl_mq P) g"

definition mqtt_keeps :: "'w platform \<Rightarrow> ('w \<Rightarrow> 'g) \<Rightarrow> bool" where
  "mqtt_keeps P g \<longleftrightarrow> common_keeps P g \<and> broker_keeps (pl_mc P) (pl_nt P) g"

section \<open>What the threads leave alone\<close>

lemma io_body_keeps: "gpio_keeps gp g \<Longrightarrow> g (snd (io_task_body zb gp d (s, w))) = g w"
  by (simp add: io_task_body_def apply_state_def write_relays_once_def gpio_keeps_def case_prod_beta Let_def)

lemma publish_changes_keeps:
  "tx_put_keeps mq g \<Longrightarrow> g (snd (publish_changes mq hs t new old ds s)) = g (snd s)"
  by (induction mq hs t new old ds s rule: publish_changes.induct) (auto simp: tx_put_keeps_def Let_def split: prod.splits)

lemma ha_report_keeps:
  assumes "tx_put_keeps mq g"
  shows "g (snd (ha_report_inputs mq zb hs now sw)) = g (snd sw)" and "g (snd (ha_report_outputs mq zb hs now sw)) = g (snd sw)"
  using publish_changes_keeps [OF assms]
  by (simp_all add: ha_report_inputs_def ha_report_outputs_def ha_report_def case_prod_beta' Let_def)

lemma ha_command_keeps:
  assumes "outputs_keep zb g" and "\<forall>w. g (snd (snd (rx_get mq w))) = g w"
  shows "g (snd (ha_command mq zb sw)) = g (snd sw)"
  using assms by (simp add: ha_command_def outputs_keep_def case_prod_beta Let_def split: option.split)

lemma ha_turn_keeps:
  assumes "ha_keeps P g" and "ha_turn (pl_mq P) (pl_zb P) kn hs (s, w) = (up, s', w')"
  shows "g w' = g w"
proof -
  have k: "tx_put_keeps (pl_mq P) g" "outputs_keep (pl_zb P) g" "\<forall>w. g (snd (snd (rx_get (pl_mq P) w))) = g w"
    using assms(1) unfolding ha_keeps_def common_keeps_def base_keeps_def by blast+
  have "g (snd (snd (ha_turn (pl_mq P) (pl_zb P) kn hs (s, w)))) = g w"
    by (simp add: ha_turn_def Let_def ha_report_keeps [OF k(1)] ha_command_keeps [OF k(2,3)])
  then show ?thesis using assms(2) by simp
qed

lemma register_loop_keeps:
  "tx_put_keeps mq g \<Longrightarrow> \<forall>w. g (k_sleep kn w) = g w \<Longrightarrow>
     g (snd (snd (register_loop mq zb kn hs ds (m, st, w)))) = g w"
  by (induction ds arbitrary: m st w) (simp_all add: Let_def tx_put_keeps_def)

lemma base_poll_keeps:
  assumes "base_keeps P g" and "tx_put_keeps (pl_mq P) g" and "ha_poll (pl_mq P) zb (pl_kn P) hs (s, w) = (up, s', w')"
  shows "g w' = g w"
proof -
  have k: "tx_put_keeps (pl_mq P) g" "\<forall>w. g (k_sleep (pl_kn P) w) = g w"
    using assms(1,2) by (simp_all add: base_keeps_def)
  have "g (snd (snd (ha_poll (pl_mq P) zb (pl_kn P) hs (s, w)))) = g w"
    using k(2) by (simp add: ha_poll_def Let_def case_prod_beta register_loop_keeps [OF k])
  then show ?thesis using assms(3) by simp
qed

lemma ha_poll_keeps:
  "ha_keeps P g \<Longrightarrow> ha_poll (pl_mq P) zb (pl_kn P) hs (s, w) = (up, s', w') \<Longrightarrow> g w' = g w"
  unfolding ha_keeps_def common_keeps_def by (blast intro: base_poll_keeps)

text \<open>The client thread; and the identifier it leaves is the one it found, or initialised again.\<close>

lemma client_connect_keeps:
  assumes "broker_keeps mc nt g" and "cb_keeps g cb" and "client_call (mqtt_connect nt cb c) s = (rc, s')"
  shows "g (snd s') = g (snd s)" and "\<exists>st. fst s' = (fst s)\<lparr>tk_conn_stat := st\<rparr>"
proof -
  have "g (snd (snd (mqtt_connect nt cb c (tk_conn_stat (fst s), snd s)))) = g (snd s)"
    using assms(1,2) by (simp add: broker_keeps_def)
  from client_call_keeps [where g = g, OF this assms(3)]
  show "g (snd s') = g (snd s)" and "\<exists>st. fst s' = (fst s)\<lparr>tk_conn_stat := st\<rparr>" by simp_all
qed

lemma client_disconnect_keeps:
  assumes "client_keeps nt g" and "cb_keeps g cb" and "client_call (mqtt_disconnect nt cb) s = (rc, s')"
  shows "g (snd s') = g (snd s)" and "\<exists>st. fst s' = (fst s)\<lparr>tk_conn_stat := st\<rparr>"
proof -
  have "g (snd (snd (mqtt_disconnect nt cb (tk_conn_stat (fst s), snd s)))) = g (snd s)"
    using assms(1,2) by (simp add: client_keeps_def)
  from client_call_keeps [where g = g, OF this assms(3)]
  show "g (snd s') = g (snd s)" and "\<exists>st. fst s' = (fst s)\<lparr>tk_conn_stat := st\<rparr>" by simp_all
qed

lemma mqtt_round_keeps:
  assumes c: "client_keeps nt g" "cb_keeps g cb" "\<forall>w. g (k_sleep kn w) = g w" "\<forall>w m. g (snd (zbus_pub_mqtt zb w m)) = g w"
      "broker_keeps mc nt g"
    and r: "mqtt_round nt cb zb kn (tk, w) = Some (tk', w')"
  shows "g w' = g w" and "tk_helpers tk' = tk_helpers tk"
proof -
  obtain rv addr w1 where d: "dns_query nt (cstr (ms_host (tk_sett tk))) (ms_port (tk_sett tk)) w = (rv, addr, w1)"
    by (metis prod_cases3)
  have "g (snd (snd (getaddrinfo nt w (cstr (ms_host (tk_sett tk)))))) = g w" using c(1) by (simp add: client_keeps_def)
  then have w1: "g w1 = g w" using d by (auto simp: dns_query_def Let_def split: if_splits prod.splits)
  have "g w' = g w \<and> tk_helpers tk' = tk_helpers tk"
  proof (cases "rv \<noteq> 0")
    case True
    then show ?thesis using r d w1 c(3) by (auto simp: mqtt_round_def)
  next
    case False
    then obtain client where cl: "client_init (tk_helpers tk) (tk_sett tk) addr = Some client"
      using r d by (auto simp: mqtt_round_def split: option.splits)
    obtain rc tk1 w2 where call: "client_call (mqtt_connect nt cb client) (tk, w1) = (rc, (tk1, w2))" by (metis prod_cases3)
    note k = client_connect_keeps [OF c(5,2) call]
    let ?st = "\<lparr>mq_seq = 0, mq_enabled = True, mq_connected = False\<rparr>"
    obtain tk2 w4 where iw: "initial_wait nt cb zb kn 100 (tk1\<lparr>tk_status := ?st\<rparr>, snd (zbus_pub_mqtt zb w2 ?st)) = (tk2, w4)"
      by fastforce
    have k4: "g w4 = g w2 \<and> tk_helpers tk2 = tk_helpers tk1"
      using initial_wait_keeps [OF c(1-3) iw] c(4) by auto
    consider "tk' = tk1" "w' = k_sleep kn w2" | "tk' = tk2\<lparr>tk_subscrabed := False, tk_inner := True\<rparr>" "w' = w4"
      using r d False cl call iw by (auto simp: mqtt_round_def Let_def split: if_splits)
    then show ?thesis using k k4 w1 c(3) by cases auto
  qed
  then show "g w' = g w" and "tk_helpers tk' = tk_helpers tk" by blast+
qed

lemma subscribe_topiks_keeps:
  assumes "broker_keeps mc nt g" and "\<forall>w. g (snd (sys_rand16_get kn w)) = g w"
  shows "g (snd (ha_mqtt_subscribe_topiks mc kn hs w)) = g w"
  using assms by (simp add: ha_mqtt_subscribe_topiks_def broker_keeps_def case_prod_beta Let_def)

lemma send_keeps:
  assumes "broker_keeps mc nt g" and "\<forall>w. g (snd (snd (tx_get mq w))) = g w"
  shows "g (snd (snd (ha_send_data_from_q_to_mqtt mc mq s))) = g (snd s)"
  using assms by (simp add: ha_send_data_from_q_to_mqtt_def broker_keeps_def case_prod_beta Let_def)

lemma subscribe_step_helpers:
  assumes "subscribe_step nt cb mc kn (tk, w) = (tk', w')"
  shows "tk_helpers tk' = snd (ha_mqtt_init kn w (tk_helpers tk))"
  using assms by (auto simp: subscribe_step_def client_call_def Let_def split: if_splits prod.splits)

lemma subscribe_step_keeps:
  assumes c: "client_keeps nt g" "cb_keeps g cb" "broker_keeps mc nt g" "\<forall>w. g (snd (sys_rand16_get kn w)) = g w"
  shows "g (snd (subscribe_step nt cb mc kn (tk, w))) = g w"
proof -
  have dis: "g (snd (snd (client_call (mqtt_disconnect nt cb) s))) = g (snd s)" for s
    using client_disconnect_keeps(1) [OF c(1,2) prod.collapse [symmetric]] by simp
  show ?thesis
    by (simp add: subscribe_step_def Let_def case_prod_beta subscribe_topiks_keeps [OF c(3,4)] dis)
qed

lemma mqtt_turn_keeps:
  assumes c: "client_keeps nt g" "cb_keeps g cb" "broker_keeps mc nt g" "\<forall>w. g (snd (sys_rand16_get kn w)) = g w"
      "\<forall>w. g (snd (snd (tx_get mq w))) = g w"
    and t: "mqtt_turn nt cb mc mq zb kn (tk, w) = (tk', w')"
  shows "g w' = g w" and "tk_helpers tk' = tk_helpers tk \<or> (\<exists>w. tk_helpers tk' = snd (ha_mqtt_init kn w (tk_helpers tk)))"
proof -
  obtain ok tk1 w1 where il: "input_live nt cb (tk, w) = (ok, (tk1, w1))" by (metis prod_cases3)
  have 1: "g w1 = g w" "tk_helpers tk1 = tk_helpers tk" using input_live_keeps [OF c(1,2) il] by auto
  let ?tk = "tk1\<lparr>tk_status := chan_read (zbus_read_mqtt zb w1) (tk_status tk1)\<rparr>"
  consider (left) "tk_helpers tk' = tk_helpers tk" "w' = w1"
    | (send) "snd (ha_send_data_from_q_to_mqtt mc mq (tk_next_mid ?tk, w1)) = (tk_next_mid tk', w')" "tk_helpers tk' = tk_helpers tk"
    | (subscribe) "subscribe_step nt cb mc kn (?tk, w1) = (tk', w')"
    using t il 1(2) by (auto simp: mqtt_turn_def Let_def split: if_splits prod.splits)
  then have "g w' = g w \<and> (tk_helpers tk' = tk_helpers tk \<or> (\<exists>w. tk_helpers tk' = snd (ha_mqtt_init kn w (tk_helpers tk))))"
  proof cases
    case send
    then show ?thesis using send_keeps [OF c(3,5), of "(tk_next_mid ?tk, w1)"] 1(1) by simp
  next
    case subscribe
    then show ?thesis
      using subscribe_step_keeps [OF c(1-4), of ?tk w1] subscribe_step_helpers [OF subscribe] 1 by auto
  qed (use 1 in simp)
  then show "g w' = g w" and "tk_helpers tk' = tk_helpers tk \<or> (\<exists>w. tk_helpers tk' = snd (ha_mqtt_init kn w (tk_helpers tk)))"
    by blast+
qed

lemma base_mqtt_keeps:
  assumes k: "base_keeps P g" "broker_keeps (pl_mc P) (pl_nt P) g"
    and s: "mqtt_task_step (pl_nt P) (pl_mc P) (pl_mq P) (pl_zb P) (pl_kn P) (tk, w) = Some (tk', w')"
  shows "g w' = g w"
    and "tk_helpers tk' = tk_helpers tk \<or> (\<exists>w. tk_helpers tk' = snd (ha_mqtt_init (pl_kn P) w (tk_helpers tk)))"
proof -
  let ?cb = "mqtt_evt_handler (pl_mc P) (pl_mq P) (pl_zb P) (pl_kn P)"
  have l: "client_keeps (pl_nt P) g" "\<forall>w. g (k_sleep (pl_kn P) w) = g w"
      "\<forall>w m. g (snd (zbus_pub_mqtt (pl_zb P) w m)) = g w"
      "broker_keeps (pl_mc P) (pl_nt P) g" "\<forall>w. g (snd (sys_rand16_get (pl_kn P) w)) = g w"
      "\<forall>w. g (snd (snd (tx_get (pl_mq P) w))) = g w" "handler_keeps (pl_mc P) (pl_mq P) (pl_zb P) g"
    using k unfolding base_keeps_def handler_keeps_def by blast+
  have cb: "cb_keeps g ?cb" using handler_keeps_world [OF l(7)] by (simp add: cb_keeps_def)
  have "g w' = g w \<and> (tk_helpers tk' = tk_helpers tk \<or> (\<exists>w. tk_helpers tk' = snd (ha_mqtt_init (pl_kn P) w (tk_helpers tk))))"
  proof (cases "tk_inner tk")
    case True
    obtain tk1 w1 where t: "mqtt_turn (pl_nt P) ?cb (pl_mc P) (pl_mq P) (pl_zb P) (pl_kn P) (tk, w) = (tk1, w1)" by fastforce
    then have "tk' = tk1" "w' = k_sleep (pl_kn P) w1" using s True by (simp_all add: mqtt_task_step_def)
    with mqtt_turn_keeps [OF l(1) cb l(4,5,6) t] l(2) show ?thesis by simp
  next
    case False
    then have "mqtt_round (pl_nt P) ?cb (pl_zb P) (pl_kn P) (tk, w) = Some (tk', w')"
      using s by (simp add: mqtt_task_step_def)
    from mqtt_round_keeps [OF l(1) cb l(2-4) this] show ?thesis by simp
  qed
  then show "g w' = g w"
    and "tk_helpers tk' = tk_helpers tk \<or> (\<exists>w. tk_helpers tk' = snd (ha_mqtt_init (pl_kn P) w (tk_helpers tk)))" by blast+
qed

lemma mqtt_step_keeps:
  assumes "mqtt_keeps P g"
    and "mqtt_task_step (pl_nt P) (pl_mc P) (pl_mq P) (pl_zb P) (pl_kn P) (tk, w) = Some (tk', w')"
  shows "g w' = g w"
    and "tk_helpers tk' = tk_helpers tk \<or> (\<exists>w. tk_helpers tk' = snd (ha_mqtt_init (pl_kn P) w (tk_helpers tk)))"
  using assms(1) base_mqtt_keeps [OF _ _ assms(2)] by (auto simp: mqtt_keeps_def common_keeps_def)

section \<open>The invariant of the firmware\<close>

text \<open>
  The documented behaviour of the services, and that each minds its own business; nothing
  outside switches the pins, fills the transmit queue or publishes.
\<close>

definition pins_view :: "'w gpio_api \<Rightarrow> ('w \<Rightarrow> nat \<Rightarrow> bool) \<Rightarrow> 'w \<Rightarrow> (nat \<Rightarrow> bool) \<times> (nat \<Rightarrow> bool)" where
  "pins_view gp pin w = (pin w, device_is_ready gp w)"

definition session_view ::
  "('w \<Rightarrow> mqtt_publish_param list) \<Rightarrow> ('w \<Rightarrow> mqtt_topic list list) \<Rightarrow> 'w \<Rightarrow> mqtt_publish_param list \<times> mqtt_topic list list" where
  "session_view sent subs w = (sent w, subs w)"

definition platform_lawful ::
  "'w platform \<Rightarrow> ('w \<Rightarrow> nat \<Rightarrow> bool) \<Rightarrow> 'w msgq_view \<Rightarrow> ('w \<Rightarrow> mqtt_publish_param list) \<Rightarrow> ('w \<Rightarrow> mqtt_topic list list)
     \<Rightarrow> byte list \<Rightarrow> ('w \<Rightarrow> 'w \<Rightarrow> bool) \<Rightarrow> bool" where
  "platform_lawful P pin v sent subs ident outside \<longleftrightarrow>
     gpio_lawful (pl_gp P) pin \<and> msgq_tx_lawful (pl_mq P) v \<and> msgq_rx_lawful (pl_mq P) v \<and>
     session_lawful (pl_nt P) (pl_mc P) (pl_mq P) (pl_zb P) (pl_kn P) sent subs \<and>
     hw_ident (pl_kn P) ident \<and> (\<forall>w. 0 < k_uptime_seconds (pl_kn P) w) \<and>
     sha256_lawful (pl_sys P) \<and> settings_load_ok (pl_sys P) \<and>
     ha_keeps P (pins_view (pl_gp P) pin) \<and> mqtt_keeps P (pins_view (pl_gp P) pin) \<and>
     io_keeps P (mv_put v) \<and> mqtt_keeps P (mv_put v) \<and>
     io_keeps P (session_view sent subs) \<and> ha_keeps P (session_view sent subs) \<and>
     (\<forall>w w'. outside w w' \<longrightarrow> pins_view (pl_gp P) pin w' = pins_view (pl_gp P) pin w \<and> mv_put v w' = mv_put v w \<and>
        session_view sent subs w' = session_view sent subs w)"

definition fw_inv ::
  "'w platform \<Rightarrow> ('w \<Rightarrow> nat \<Rightarrow> bool) \<Rightarrow> 'w msgq_view \<Rightarrow> ('w \<Rightarrow> mqtt_topic list list) \<Rightarrow> byte list \<Rightarrow> 'w firmware \<Rightarrow> bool" where
  "fw_inv P pin v subs ident s \<longleftrightarrow>
     io_inv (pl_gp P) pin (fw_io s, fw_world s) \<and>
     helpers_inv (fw_helpers s) \<and>
     (fw_phase s \<noteq> Ha_Init \<longrightarrow> helpers_wf (fw_helpers s) \<and> cstr (hs_dev_identifier (fw_helpers s)) = hex_text ident) \<and>
     synced v (hex_text ident) (fw_ha s, fw_world s) \<and>
     session_inv subs ident ((fw_mqtt s)\<lparr>tk_helpers := fw_helpers s\<rparr>, fw_world s) \<and>
     web_users_wf (as_users (wb_auth (fw_web s)))"

text \<open>Each part of the invariant depends on one view of the world.\<close>

lemma io_inv_view: "pins_view gp pin w' = pins_view gp pin w \<Longrightarrow> io_inv gp pin (i, w') = io_inv gp pin (i, w)"
  by (simp add: pins_view_def io_inv_def pins_show_def)

lemma synced_view: "mv_put v w' = mv_put v w \<Longrightarrow> synced v ident (ha, w') = synced v ident (ha, w)"
  by (simp add: synced_def)

lemma session_inv_view: "session_view sent subs w' = session_view sent subs w \<Longrightarrow> session_inv subs ident (tk, w') = session_inv subs ident (tk, w)"
  by (simp add: session_view_def session_inv_def)

lemma only_ha_puts_common: "common_keeps P (mv_put v) \<Longrightarrow> only_ha_puts v (pl_zb P) (pl_kn P) (\<lambda>_ _. False)"
  by (simp add: only_ha_puts_def common_keeps_def base_keeps_def outputs_keep_def)

lemma base_serve_keeps:
  "base_keeps P g \<Longrightarrow> (ep = Relays_State \<Longrightarrow> outputs_keep (pl_zb P) g) \<Longrightarrow> ep \<noteq> System_Reboot \<Longrightarrow>
     serve (pl_sys P) (pl_zb P) kn bt (pl_fs P) fuel ep client status req resp (wb, w) = Some (r, (wb', w')) \<Longrightarrow> g w' = g w"
  by (rule serve_keeps) (simp_all add: base_keeps_def)

lemma common_serve_keeps:
  "common_keeps P g \<Longrightarrow> ep \<noteq> System_Reboot \<Longrightarrow>
     serve (pl_sys P) (pl_zb P) kn bt (pl_fs P) fuel ep client status req resp (wb, w) = Some (r, (wb', w')) \<Longrightarrow> g w' = g w"
  unfolding common_keeps_def by (rule base_serve_keeps) blast+

lemma web_users_wf_step: "sha256_lawful sys \<Longrightarrow> users_op sys s s' \<Longrightarrow> web_users_wf (fst s) \<Longrightarrow> web_users_wf (fst s')"
  using users_ops_keep [of sys "\<lambda>u. True" s s'] by (simp add: users_sat_wf r_into_rtranclp)

lemma platform_laws:
  assumes "platform_lawful P pin v sent subs ident outside"
  shows "gpio_lawful (pl_gp P) pin" and "msgq_tx_lawful (pl_mq P) v" and "msgq_rx_lawful (pl_mq P) v"
    and "session_lawful (pl_nt P) (pl_mc P) (pl_mq P) (pl_zb P) (pl_kn P) sent subs"
    and "hw_ident (pl_kn P) ident" and "0 < k_uptime_seconds (pl_kn P) w" and "sha256_lawful (pl_sys P)"
    and "settings_load_ok (pl_sys P)" and "only_ha_puts v (pl_zb P) (pl_kn P) (\<lambda>_ _. False)"
  using assms only_ha_puts_common [of P v] unfolding platform_lawful_def mqtt_keeps_def by blast+

lemma platform_keeps:
  assumes "platform_lawful P pin v sent subs ident outside"
  shows "ha_keeps P (pins_view (pl_gp P) pin)" and "mqtt_keeps P (pins_view (pl_gp P) pin)"
    and "gpio_keeps (pl_gp P) (mv_put v)" and "mqtt_keeps P (mv_put v)"
    and "gpio_keeps (pl_gp P) (session_view sent subs)" and "ha_keeps P (session_view sent subs)"
    and "common_keeps P (pins_view (pl_gp P) pin)" and "common_keeps P (mv_put v)" and "common_keeps P (session_view sent subs)"
    and "outside w w' \<Longrightarrow> pins_view (pl_gp P) pin w' = pins_view (pl_gp P) pin w"
    and "outside w w' \<Longrightarrow> mv_put v w' = mv_put v w" and "outside w w' \<Longrightarrow> session_view sent subs w' = session_view sent subs w"
  using assms unfolding platform_lawful_def io_keeps_def ha_keeps_def mqtt_keeps_def by blast+

text \<open>A step that changes the world only, or only variables that no part of the invariant reads.\<close>

lemma fw_inv_world:
  assumes "fw_inv P pin v subs ident s" and "pins_view (pl_gp P) pin w = pins_view (pl_gp P) pin (fw_world s)"
    and "mv_put v w = mv_put v (fw_world s)" and "session_view sent subs w = session_view sent subs (fw_world s)"
  shows "fw_inv P pin v subs ident (s\<lparr>fw_world := w\<rparr>)"
  using assms(1) io_inv_view [OF assms(2)] synced_view [OF assms(3)] session_inv_view [OF assms(4)]
  by (simp add: fw_inv_def)

lemma fw_boot_inv:
  assumes l: "platform_lawful P pin v sent subs ident outside" and b: "fw_boot P sett w0 = Some s"
  shows "fw_inv P pin v subs ident s"
proof -
  obtain i w1 where st: "io_task_start (pl_sys P) (pl_gp P) w0 = Some (i, w1)"
    using b by (auto simp: fw_boot_def split: option.splits)
  obtain us w2 where u: "users_init (pl_sys P) w1 web_users_zero = (us, w2)" by fastforce
  have s: "fw_io s = i" "fw_phase s = Ha_Init" "fw_ha s = ha_task_init" "fw_mqtt s = mqtt_task_init sett ha_helpers_init"
      "fw_helpers s = ha_helpers_init" "as_users (wb_auth (fw_web s)) = us" "fw_world s = w2"
    using b st u by (auto simp: fw_boot_def authentication_init_def web_state_init_def Let_def)
  have io: "io_inv (pl_gp P) pin (i, w1)" using io_task_start_inv(1) [OF platform_laws(1) [OF l] st] .
  have "sys_keeps (pl_sys P) (pins_view (pl_gp P) pin)" using platform_keeps(7) [OF l] by (simp add: common_keeps_def base_keeps_def)
  then have "pins_view (pl_gp P) pin w2 = pins_view (pl_gp P) pin w1"
    using u by (auto simp: users_init_def Let_def sys_keepsD split: if_splits prod.splits)
  from io_inv_view [OF this] io have "io_inv (pl_gp P) pin (i, w2)" by simp
  moreover have "helpers_inv ha_helpers_init" by (simp add: helpers_inv_def ha_helpers_init_def)
  moreover have "web_users_wf us" using users_init_typed(1) [OF platform_laws(7,8) [OF l] u] .
  ultimately show ?thesis
    by (simp add: fw_inv_def s synced_def ha_task_init_def session_inv_def mqtt_task_init_def)
qed

text \<open>Every step keeps the invariant.\<close>

lemma fw_ha_turn_inv:
  assumes l: "platform_lawful P pin v sent subs ident outside" and inv: "fw_inv P pin v subs ident s"
    and ph: "fw_phase s = Ha_Loop"
    and t: "ha_turn (pl_mq P) (pl_zb P) (pl_kn P) (fw_helpers s) (fw_ha s, fw_world s) = (up, ha, w)"
  shows "fw_inv P pin v subs ident (s\<lparr>fw_phase := (if up then Ha_Loop else Ha_Init), fw_ha := ha, fw_world := k_sleep (pl_kn P) w\<rparr>)"
proof -
  have hs: "helpers_wf (fw_helpers s)" "cstr (hs_dev_identifier (fw_helpers s)) = hex_text ident"
    and sy: "synced v (cstr (hs_dev_identifier (fw_helpers s))) (fw_ha s, fw_world s)"
    using inv ph by (simp_all add: fw_inv_def)
  have "synced v (hex_text ident) (ha, w)"
    using turn_shows(1) [OF platform_laws(2,3,9) [OF l] hs(1) platform_laws(6) [OF l] sy t] hs(2) by simp
  moreover have views: "mv_put v (k_sleep (pl_kn P) w) = mv_put v w"
    "pins_view (pl_gp P) pin (k_sleep (pl_kn P) w) = pins_view (pl_gp P) pin (fw_world s)"
    "session_view sent subs (k_sleep (pl_kn P) w) = session_view sent subs (fw_world s)"
    using platform_keeps(7,8,9) [OF l] ha_turn_keeps [OF platform_keeps(1) [OF l] t] ha_turn_keeps [OF platform_keeps(6) [OF l] t]
    by (simp_all add: common_keeps_def base_keeps_def)
  ultimately show ?thesis
    using inv hs io_inv_view [OF views(2)] synced_view [OF views(1)] session_inv_view [OF views(3)] by (simp add: fw_inv_def)
qed

lemma fw_ha_poll_inv:
  assumes l: "platform_lawful P pin v sent subs ident outside" and inv: "fw_inv P pin v subs ident s"
    and ph: "fw_phase s = Ha_Wait"
    and t: "ha_poll (pl_mq P) (pl_zb P) (pl_kn P) (fw_helpers s) (fw_ha s, fw_world s) = (up, ha, w)"
  shows "fw_inv P pin v subs ident (s\<lparr>fw_phase := (if up then Ha_Loop else Ha_Wait), fw_ha := ha, fw_world := w\<rparr>)"
proof -
  let ?w1 = "k_sleep (pl_kn P) (fw_world s)"
  let ?st = "chan_read (zbus_read_mqtt (pl_zb P) ?w1) (ht_mqtt (fw_ha s))"
  have hs: "helpers_wf (fw_helpers s)" and sy: "synced v (hex_text ident) (fw_ha s, fw_world s)"
    using inv ph by (simp_all add: fw_inv_def)
  have put: "mv_put v ?w1 = mv_put v (fw_world s)" using platform_keeps(8) [OF l] by (simp add: common_keeps_def base_keeps_def)
  have "synced v (hex_text ident) (ha, w)"
  proof (cases "mq_connected ?st")
    case True
    obtain m st' w2 where r: "register_loop (pl_mq P) (pl_zb P) (pl_kn P) (fw_helpers s) ha_devices
        (ht_message (fw_ha s), ?st, ?w1) = (m, st', w2)" by (metis prod_cases3)
    then have "ha = (fw_ha s)\<lparr>ht_message := m, ht_mqtt := st'\<rparr>" "w = w2" using t True by (simp_all add: ha_poll_def Let_def)
    with register_synced [OF platform_laws(2) [OF l] hs platform_laws(9) [OF l] sy put r] show ?thesis by simp
  next
    case False
    then have "ha = (fw_ha s)\<lparr>ht_mqtt := ?st\<rparr>" "w = ?w1" using t by (auto simp: ha_poll_def Let_def)
    then show ?thesis using sy put by (simp add: synced_def)
  qed
  then show ?thesis
    using inv ph io_inv_view [OF ha_poll_keeps [OF platform_keeps(1) [OF l] t]] session_inv_view [OF ha_poll_keeps [OF platform_keeps(6) [OF l] t]]
    by (simp add: fw_inv_def)
qed

lemma fw_mqtt_inv:
  assumes l: "platform_lawful P pin v sent subs ident outside" and inv: "fw_inv P pin v subs ident s"
    and t: "mqtt_task_step (pl_nt P) (pl_mc P) (pl_mq P) (pl_zb P) (pl_kn P) ((fw_mqtt s)\<lparr>tk_helpers := fw_helpers s\<rparr>, fw_world s) =
      Some (tk, w)"
  shows "fw_inv P pin v subs ident (s\<lparr>fw_mqtt := tk, fw_helpers := tk_helpers tk, fw_world := w\<rparr>)"
proof -
  have i: "helpers_inv (fw_helpers s)" "session_inv subs ident ((fw_mqtt s)\<lparr>tk_helpers := fw_helpers s\<rparr>, fw_world s)"
    using inv by (simp_all add: fw_inv_def)
  have si: "session_inv subs ident (tk, w)" using mqtt_step_session(1) [OF platform_laws(4,5) [OF l] i(2) t] .
  have hs: "tk_helpers tk = fw_helpers s \<or> (\<exists>w. tk_helpers tk = snd (ha_mqtt_init (pl_kn P) w (fw_helpers s)))"
    using mqtt_step_keeps(2) [OF platform_keeps(2) [OF l] t] by simp
  have "helpers_inv (tk_helpers tk) \<and>
      (fw_phase s \<noteq> Ha_Init \<longrightarrow> helpers_wf (tk_helpers tk) \<and> cstr (hs_dev_identifier (tk_helpers tk)) = hex_text ident)"
  proof (cases "tk_helpers tk = fw_helpers s")
    case True
    then show ?thesis using inv by (simp add: fw_inv_def)
  next
    case False
    then obtain w' where "tk_helpers tk = snd (ha_mqtt_init (pl_kn P) w' (fw_helpers s))" using hs by blast
    with ha_mqtt_init_inv [OF platform_laws(5) [OF l] i(1) prod.collapse [symmetric], of w'] show ?thesis by simp
  qed
  moreover have "tk\<lparr>tk_helpers := tk_helpers tk\<rparr> = tk" by simp
  ultimately show ?thesis
    using inv si io_inv_view [OF mqtt_step_keeps(1) [OF platform_keeps(2) [OF l] t]] synced_view [OF mqtt_step_keeps(1) [OF platform_keeps(4) [OF l] t]]
    by (simp add: fw_inv_def)
qed

lemma fw_io_turn_inv:
  assumes l: "platform_lawful P pin v sent subs ident outside" and inv: "fw_inv P pin v subs ident s"
    and t: "io_task_body (pl_zb P) (pl_gp P) d (fw_io s, fw_world s) = (i, w)"
  shows "fw_inv P pin v subs ident (s\<lparr>fw_io := i, fw_world := w\<rparr>)"
proof -
  have "io_inv (pl_gp P) pin (i, w)"
    using io_task_body_inv [OF platform_laws(1) [OF l], of "(fw_io s, fw_world s)" "pl_zb P" d] inv t by (simp add: fw_inv_def)
  moreover have views: "mv_put v w = mv_put v (fw_world s)" "session_view sent subs w = session_view sent subs (fw_world s)"
    using io_body_keeps [OF platform_keeps(3) [OF l], of "pl_zb P" d "fw_io s" "fw_world s"]
      io_body_keeps [OF platform_keeps(5) [OF l], of "pl_zb P" d "fw_io s" "fw_world s"] t by simp_all
  ultimately show ?thesis using inv synced_view [OF views(1)] session_inv_view [OF views(2)] by (simp add: fw_inv_def)
qed

lemma fw_step_inv:
  assumes l: "platform_lawful P pin v sent subs ident outside"
    and "fw_step P d fuel outside s s'" and inv: "fw_inv P pin v subs ident s"
  shows "fw_inv P pin v subs ident s'"
  using assms(2)
proof cases
  case (io i w)
  then show ?thesis using fw_io_turn_inv [OF l inv] by simp
next
  case (ha_init rc hs)
  then show ?thesis
    using inv ha_mqtt_init_inv [OF platform_laws(5) [OF l] _ ha_init(3)] by (simp add: fw_inv_def session_inv_def)
next
  case (ha_poll up ha w)
  then show ?thesis using fw_ha_poll_inv [OF l inv] by simp
next
  case (ha_turn up ha w)
  then show ?thesis using fw_ha_turn_inv [OF l inv] by simp
next
  case (mqtt tk w)
  then show ?thesis using fw_mqtt_inv [OF l inv] by simp
next
  case (http ep client status req resp answer wb w)
  have "users_op (pl_sys P) (as_users (wb_auth (fw_web s)), fw_world s) (as_users (wb_auth wb), w)"
    by (rule serve_users [OF http(4)])
  from web_users_wf_step [OF platform_laws(7) [OF l] this] inv have "web_users_wf (as_users (wb_auth wb))"
    by (simp add: fw_inv_def)
  moreover have "fw_inv P pin v subs ident (s\<lparr>fw_world := w\<rparr>)"
    using common_serve_keeps [OF platform_keeps(7) [OF l] http(2,4)] common_serve_keeps [OF platform_keeps(8) [OF l] http(2,4)]
      common_serve_keeps [OF platform_keeps(9) [OF l] http(2,4)]
    by (rule fw_inv_world [OF inv])
  ultimately show ?thesis using http(1) by (simp add: fw_inv_def)
next
  case (outside w)
  show ?thesis
    unfolding outside(1) using platform_keeps(10-12) [OF l outside(2)] by (rule fw_inv_world [OF inv])
qed

lemma fw_reachable_inv:
  assumes "platform_lawful P pin v sent subs ident outside" and "fw_boot P sett w0 = Some s0"
    and "(fw_step P d fuel outside)\<^sup>*\<^sup>* s0 s"
  shows "fw_inv P pin v subs ident s"
  using assms(3)
  by (induction rule: rtranclp_induct) (auto intro: fw_boot_inv [OF assms(1,2)] fw_step_inv [OF assms(1)])

section \<open>Properties\<close>

text \<open>
  C2. The threads keep their promises together: in every state the started firmware can
  reach, by any interleaving of the turns of its threads, requests to any resource and
  events outside, a turn of the io thread leaves the wanted state on the pins, a turn of
  the Home Assistant task that finds the connection up leaves its picture right, a step of
  the client thread that publishes is one of a session subscribed to exactly the device's
  commands, and the user table has its type.
\<close>

theorem threads_keep_promises_together:
  assumes "platform_lawful P pin v sent subs ident outside" and "fw_boot P sett w0 = Some s0"
    and "(fw_step P d fuel outside)\<^sup>*\<^sup>* s0 s"
  shows "(\<forall>m. zbus_read_outputs (pl_zb P) (fw_world s) = (0, m) \<longrightarrow>
      map (pin (snd (io_task_body (pl_zb P) (pl_gp P) d (fw_io s, fw_world s)))) [0, 1, 2] =
        relay_pins (io_target (pl_zb P) d (fw_io s, fw_world s))) \<and>
    (\<forall>inp ha w. fw_phase s = Ha_Loop \<longrightarrow> zbus_read_inputs (pl_zb P) (fw_world s) = (0, inp) \<longrightarrow>
      ha_turn (pl_mq P) (pl_zb P) (pl_kn P) (fw_helpers s) (fw_ha s, fw_world s) = (True, (ha, w)) \<longrightarrow>
        shows_state (hex_text ident) INPUT_SENSOR (im_state inp) (ha_picture (map wire (mv_put v w))) \<and>
        shows_state (hex_text ident) OUTPUT_DEVICE (om_state (ht_outputs ha)) (ha_picture (map wire (mv_put v w)))) \<and>
    (\<forall>tk w. mqtt_task_step (pl_nt P) (pl_mc P) (pl_mq P) (pl_zb P) (pl_kn P)
        ((fw_mqtt s)\<lparr>tk_helpers := fw_helpers s\<rparr>, fw_world s) = Some (tk, w) \<longrightarrow> sent w \<noteq> sent (fw_world s) \<longrightarrow>
        mq_connected (tk_status tk) \<and> subs w = [own_topics ident]) \<and>
    web_users_wf (as_users (wb_auth (fw_web s)))"
proof -
  note l = platform_laws [OF assms(1)]
  have inv: "fw_inv P pin v subs ident s" by (rule fw_reachable_inv [OF assms])
  have io: "io_inv (pl_gp P) pin (fw_io s, fw_world s)" and users: "web_users_wf (as_users (wb_auth (fw_web s)))"
    and session: "session_inv subs ident ((fw_mqtt s)\<lparr>tk_helpers := fw_helpers s\<rparr>, fw_world s)"
    using inv by (simp_all add: fw_inv_def)
  have ha: "helpers_wf (fw_helpers s)" "cstr (hs_dev_identifier (fw_helpers s)) = hex_text ident"
    "synced v (cstr (hs_dev_identifier (fw_helpers s))) (fw_ha s, fw_world s)" if "fw_phase s = Ha_Loop"
    using inv that by (simp_all add: fw_inv_def)
  show ?thesis
  proof (intro conjI allI impI)
    fix m assume "zbus_read_outputs (pl_zb P) (fw_world s) = (0, m)"
    with io_turn_pins [OF l(1) io, of "pl_zb P" d]
    show "map (pin (snd (io_task_body (pl_zb P) (pl_gp P) d (fw_io s, fw_world s)))) [0, 1, 2] =
        relay_pins (io_target (pl_zb P) d (fw_io s, fw_world s))" by (simp add: pins_show_def)
  next
    fix inp h w assume ph: "fw_phase s = Ha_Loop" and inp: "zbus_read_inputs (pl_zb P) (fw_world s) = (0, inp)"
      and t: "ha_turn (pl_mq P) (pl_zb P) (pl_kn P) (fw_helpers s) (fw_ha s, fw_world s) = (True, (h, w))"
    note turn = turn_shows [OF l(2,3,9) ha(1) [OF ph] l(6) ha(3) [OF ph] t]
    show "shows_state (hex_text ident) INPUT_SENSOR (im_state inp) (ha_picture (map wire (mv_put v w)))"
      using turn(2,4) inp ha(2) [OF ph] by simp
    show "shows_state (hex_text ident) OUTPUT_DEVICE (om_state (ht_outputs h)) (ha_picture (map wire (mv_put v w)))"
      using turn(3) ha(2) [OF ph] by simp
  next
    fix tk w assume "mqtt_task_step (pl_nt P) (pl_mc P) (pl_mq P) (pl_zb P) (pl_kn P)
        ((fw_mqtt s)\<lparr>tk_helpers := fw_helpers s\<rparr>, fw_world s) = Some (tk, w)" "sent w \<noteq> sent (fw_world s)"
    from mqtt_step_session(2) [OF l(4,5) session this]
    show "mq_connected (tk_status tk)" and "subs w = [own_topics ident]" by simp_all
  qed (fact users)
qed

text \<open>The demo world with a file system that is full and a broker that refuses subscriptions.\<close>

definition demo_platform :: "demo_world platform" where
  "demo_platform = \<lparr>pl_sys = demo_sys, pl_zb = demo_zbus, pl_gp = demo_gpio, pl_mq = demo_msgq,
     pl_mc = demo_mqtt\<lparr>mqtt_subscribe := \<lambda>w ts i. (- 1, w)\<rparr>, pl_kn = demo_ha_kernel, pl_nt = demo_net, pl_fs = demo_no_fs,
     pl_bt = demo_bt\<rparr>"

definition demo_outside :: "demo_world \<Rightarrow> demo_world \<Rightarrow> bool" where
  "demo_outside w w' \<longleftrightarrow> (\<exists>inp t. w' = w\<lparr>dw_inputs := inp, dw_clock := t\<rparr>)"

lemma demo_common_keeps: "common_keeps demo_platform (\<lambda>w. h (dw_pins w) (dw_put w) (dw_published w))"
  by (auto simp: common_keeps_def base_keeps_def sys_keeps_def outputs_keep_def fs_keeps_def handler_keeps_def reads_keep_def client_keeps_def
      demo_platform_def demo_sys_def demo_save_def demo_zbus_def demo_no_fs_def demo_ha_kernel_def demo_kernel_def demo_msgq_def
      demo_mqtt_def demo_net_def Let_def split: list.split)

lemma demo_others_keep:
  "tx_put_keeps demo_msgq (\<lambda>w. h1 (dw_pins w) (dw_published w))"
  "broker_keeps (demo_mqtt\<lparr>mqtt_subscribe := \<lambda>w ts i. (- 1, w)\<rparr>) demo_net (\<lambda>w. h2 (dw_pins w) (dw_put w))"
  "gpio_keeps demo_gpio (\<lambda>w. h3 (dw_put w) (dw_published w))"
  by (simp_all add: tx_put_keeps_def broker_keeps_def gpio_keeps_def demo_msgq_def demo_mqtt_def demo_net_def demo_gpio_def)

lemma demo_session_lawful2:
  "session_lawful demo_net (demo_mqtt\<lparr>mqtt_subscribe := \<lambda>w ts i. (- 1, w)\<rparr>) demo_msgq demo_zbus demo_ha_kernel dw_published (\<lambda>w. [])"
  by (auto simp: session_lawful_def client_keeps_def handler_keeps_def reads_keep_def demo_net_def demo_mqtt_def demo_msgq_def
      demo_zbus_def demo_ha_kernel_def demo_kernel_def Let_def split: list.split)

lemma demo_platform_lawful:
  "platform_lawful demo_platform demo_pin demo_queues dw_published (\<lambda>w. []) (replicate 12 (CHR 0xA5)) demo_outside"
proof -
  have v: "pins_view demo_gpio demo_pin = (\<lambda>w. (\<lambda>i. i < length (dw_pins w) \<and> dw_pins w ! i, \<lambda>i. i < length (dw_pins w)))"
    "session_view dw_published (\<lambda>w. []) = (\<lambda>w. (dw_published w, []))"
    by (simp_all add: fun_eq_iff pins_view_def session_view_def demo_pin_def demo_gpio_def)
  have sel: "pl_gp demo_platform = demo_gpio" "pl_mq demo_platform = demo_msgq" "pl_nt demo_platform = demo_net"
    "pl_mc demo_platform = demo_mqtt\<lparr>mqtt_subscribe := \<lambda>w ts i. (- 1, w)\<rparr>" "pl_kn demo_platform = demo_ha_kernel"
    "pl_zb demo_platform = demo_zbus" "pl_sys demo_platform = demo_sys" by (simp_all add: demo_platform_def)
  have hw: "hw_ident demo_ha_kernel (replicate 12 (CHR 0xA5))" "0 < k_uptime_seconds demo_ha_kernel w" for w
    using demo_ha_laws by (simp_all add: ha_laws_def)
  have out: "demo_outside w w' \<Longrightarrow> dw_pins w' = dw_pins w \<and> dw_put w' = dw_put w \<and> dw_published w' = dw_published w" for w w'
    by (auto simp: demo_outside_def)
  show ?thesis
    unfolding platform_lawful_def ha_keeps_def mqtt_keeps_def io_keeps_def sel v
    using demo_common_keeps [of "\<lambda>a b c. (\<lambda>i. i < length a \<and> a ! i, \<lambda>i. i < length a)"] demo_common_keeps [of "\<lambda>a b c. b"]
      demo_common_keeps [of "\<lambda>a b c. (c, [] :: mqtt_topic list list)"] demo_session_lawful2 hw out
      demo_others_keep(1) [of "\<lambda>a c. (\<lambda>i. i < length a \<and> a ! i, \<lambda>i. i < length a)"]
      demo_others_keep(1) [of "\<lambda>a c. (c, [] :: mqtt_topic list list)"]
      demo_others_keep(2) [of "\<lambda>a b. (\<lambda>i. i < length a \<and> a ! i, \<lambda>i. i < length a)"] demo_others_keep(2) [of "\<lambda>a b. b"]
      demo_others_keep(3) [of "\<lambda>b c. b"] demo_others_keep(3) [of "\<lambda>b c. (c, [] :: mqtt_topic list list)"]
    by simp
qed

lemma demo_fw_run:
  "case fw_boot demo_platform mqtt_settings_zero demo_init of None \<Rightarrow> False
   | Some s \<Rightarrow> \<not> mq_enabled (io_mqtt_status_msg (fw_io s)) \<and>
       (case serve demo_sys demo_zbus demo_ha_kernel demo_bt demo_no_fs 0 Relays_State post_client HTTP_SERVER_DATA_FINAL
          (with_body ''101'') demo_resp (fw_web s, fw_world s) of
          None \<Rightarrow> False | Some (a, (wb, w)) \<Rightarrow> om_state (dw_outputs w) = 5)"
  by code_simp

theorem threads_keep_promises_together_witness:
  "\<exists>s0 s. fw_boot demo_platform mqtt_settings_zero demo_init = Some s0 \<and>
     (fw_step demo_platform demo_safe 0 demo_outside)\<^sup>*\<^sup>* s0 s \<and> om_state (dw_outputs (fw_world s)) = 5 \<and>
     map (demo_pin (snd (io_task_body demo_zbus demo_gpio demo_safe (fw_io s, fw_world s)))) [0, 1, 2] = [True, False, True]"
proof -
  obtain s0 a wb w where b: "fw_boot demo_platform mqtt_settings_zero demo_init = Some s0"
    and i0: "\<not> mq_enabled (io_mqtt_status_msg (fw_io s0))" and o: "om_state (dw_outputs w) = 5"
    and sv: "serve demo_sys demo_zbus demo_ha_kernel demo_bt demo_no_fs 0 Relays_State post_client HTTP_SERVER_DATA_FINAL
      (with_body ''101'') demo_resp (fw_web s0, fw_world s0) = Some (a, (wb, w))"
    using demo_fw_run by (auto split: option.splits simp del: serve.simps)
  let ?s = "s0\<lparr>fw_web := wb, fw_world := w\<rparr>"
  have sel: "pl_gp demo_platform = demo_gpio" "pl_zb demo_platform = demo_zbus" by (simp_all add: demo_platform_def)
  have "accepts Relays_State post_client" by (simp add: accepts_def api_relays_state_def post_client_def)
  then have "fw_step demo_platform demo_safe 0 demo_outside s0 ?s"
    using sv by (intro fw_step.http [of Relays_State]) (simp_all add: demo_platform_def del: serve.simps)
  then have r: "(fw_step demo_platform demo_safe 0 demo_outside)\<^sup>*\<^sup>* s0 ?s" by simp
  have "zbus_read_outputs demo_zbus w = (0, dw_outputs w)" by (simp add: demo_zbus_def)
  moreover from this have "io_target demo_zbus demo_safe (fw_io s0, w) = 5" using i0 o by (simp add: io_target_def)
  ultimately have "map (demo_pin (snd (io_task_body demo_zbus demo_gpio demo_safe (fw_io ?s, fw_world ?s)))) [0, 1, 2] = relay_pins 5"
    using conjunct1 [OF threads_keep_promises_together [OF demo_platform_lawful b r]] by (simp add: sel)
  moreover have "relay_pins 5 = [True, False, True]" by (simp add: relay_pins_def)
  ultimately show ?thesis using b r o by (intro exI [of _ s0] exI [of _ ?s]) simp
qed

lemma fw_step_keeps_users:
  assumes "fw_step P d fuel outside s s'" and one: "1 \<le> num_users (as_users (wb_auth (fw_web s)))"
  shows "1 \<le> num_users (as_users (wb_auth (fw_web s')))"
  using assms(1)
proof cases
  case (http ep client status req resp answer wb w)
  from users_op_keeps_users [OF serve_users [OF http(4)]] one http(1) show ?thesis by simp
qed (use one in simp_all)

text \<open>
  C25. The device never locks everybody out: if the user list has a user when the firmware has
  started, as after the first start of all, it has one in every state that any interleaving of
  threads, requests to any resource with any content, and events outside leads to, also when
  saving the list fails.
\<close>

theorem a_user_remains:
  assumes "fw_boot P sett w0 = Some s0" and "1 \<le> num_users (as_users (wb_auth (fw_web s0)))"
    and "(fw_step P d fuel outside)\<^sup>*\<^sup>* s0 s"
  shows "1 \<le> num_users (as_users (wb_auth (fw_web s)))"
  using assms(3)
proof (induction rule: rtranclp_induct)
  case (step s1 s2)
  show ?case by (rule fw_step_keeps_users [OF step(2) step(3)])
qed (rule assms(2))

lemma demo_fw_delete:
  "case fw_boot demo_platform mqtt_settings_zero demo_init of None \<Rightarrow> False
   | Some s \<Rightarrow> num_users (as_users (wb_auth (fw_web s))) = 1 \<and>
       (case serve demo_sys demo_zbus demo_ha_kernel demo_bt demo_no_fs 0 Web_User_Mgmt
          \<lparr>req_method = HTTP_DELETE, url_buffer = ''/api/auth/users?username=admin''\<rparr> HTTP_SERVER_DATA_FINAL
          (with_body []) demo_resp (fw_web s, fw_world s) of
          None \<Rightarrow> False | Some (a, (wb, w)) \<Rightarrow> resp_status (snd a) \<noteq> HTTP_200_OK)"
  by code_simp

theorem a_user_remains_witness:
  "\<exists>s0 s1. fw_boot demo_platform mqtt_settings_zero demo_init = Some s0 \<and>
     fw_step demo_platform demo_safe 0 demo_outside s0 s1 \<and> num_users (as_users (wb_auth (fw_web s0))) = 1 \<and>
     1 \<le> num_users (as_users (wb_auth (fw_web s1)))"
proof -
  let ?client = "\<lparr>req_method = HTTP_DELETE, url_buffer = ''/api/auth/users?username=admin''\<rparr>"
  obtain s0 a wb w where b: "fw_boot demo_platform mqtt_settings_zero demo_init = Some s0"
    and one: "num_users (as_users (wb_auth (fw_web s0))) = 1" and
    sv: "serve demo_sys demo_zbus demo_ha_kernel demo_bt demo_no_fs 0 Web_User_Mgmt ?client HTTP_SERVER_DATA_FINAL
      (with_body []) demo_resp (fw_web s0, fw_world s0) = Some (a, (wb, w))"
    using demo_fw_delete by (auto split: option.splits simp del: serve.simps)
  have "accepts Web_User_Mgmt ?client" by (simp add: accepts_def api_web_user_mgmt_def)
  then have st: "fw_step demo_platform demo_safe 0 demo_outside s0 (s0\<lparr>fw_web := wb, fw_world := w\<rparr>)"
    using sv by (intro fw_step.http [of Web_User_Mgmt]) (simp_all add: demo_platform_def del: serve.simps)
  let ?s1 = "s0\<lparr>fw_web := wb, fw_world := w\<rparr>"
  have "1 \<le> num_users (as_users (wb_auth (fw_web ?s1)))"
    by (rule a_user_remains [OF b _ r_into_rtranclp [where r = "fw_step demo_platform demo_safe 0 demo_outside", OF st]]) (simp add: one)
  then show ?thesis using b one st by (intro exI [of _ s0] exI [of _ ?s1]) simp
qed

end
