(* ===== verification/Switching.thy ===== *)
theory Switching
  imports Firmware
begin

text \<open>
  Why a relay switches. In the firmware as a whole only two things write the outputs
  channel, a complete POST body that parses and a received message that parses, and only
  the io thread moves the pins, to the byte of that channel or to the safe state. This
  theory traces a change of either back to its reason.
\<close>

section \<open>The services that have nothing to do with the outputs channel\<close>

text \<open>
  Publishing is what the channel's documentation says, also when it fails; everything else
  leaves the channel alone. The clients' callbacks run in the thread, so they are no
  exception.
\<close>

definition outputs_lawful :: "'w platform \<Rightarrow> 'w msgq_view \<Rightarrow> ('w \<Rightarrow> 'w \<Rightarrow> bool) \<Rightarrow> bool" where
  "outputs_lawful P v outside \<longleftrightarrow>
     (let g = zbus_read_outputs (pl_zb P) in
      (\<forall>w m rc w'. zbus_pub_outputs (pl_zb P) w m = (rc, w') \<longrightarrow> g w' = (if rc = 0 then (0, m) else g w)) \<and>
      base_keeps P g \<and> broker_keeps (pl_mc P) (pl_nt P) g \<and> tx_put_keeps (pl_mq P) g \<and> gpio_keeps (pl_gp P) g \<and>
      (\<forall>w w'. outside w w' \<longrightarrow> g w' = g w)) \<and>
     msgq_tx_lawful (pl_mq P) v \<and> msgq_rx_lawful (pl_mq P) v"

lemma outputs_laws:
  assumes "outputs_lawful P v outside"
  defines "g \<equiv> zbus_read_outputs (pl_zb P)"
  shows "zbus_pub_outputs (pl_zb P) w m = (rc, w') \<Longrightarrow> g w' = (if rc = 0 then (0, m) else g w)"
    and "base_keeps P g" and "broker_keeps (pl_mc P) (pl_nt P) g" and "tx_put_keeps (pl_mq P) g"
    and "gpio_keeps (pl_gp P) g" and "outside w w' \<Longrightarrow> g w' = g w"
    and "msgq_tx_lawful (pl_mq P) v" and "msgq_rx_lawful (pl_mq P) v"
  using assms(1) unfolding outputs_lawful_def Let_def g_def by blast+

section \<open>A command\<close>

lemma report_inputs_outputs: "ht_outputs (fst (ha_report_inputs mq zb hs now sw)) = ht_outputs (fst sw)"
  by (simp add: ha_report_inputs_def case_prod_beta' Let_def)

text \<open>A turn of the Home Assistant task with a message waiting, and what the first one asks for.\<close>

definition relay_command :: "'w platform \<Rightarrow> 'w msgq_view \<Rightarrow> 'w firmware \<Rightarrow> 'w firmware \<Rightarrow> outputs_msg_t \<Rightarrow> bool" where
  "relay_command P v s s' out \<longleftrightarrow>
     fw_phase s = Ha_Loop \<and>
     (\<exists>up ha w. ha_turn (pl_mq P) (pl_zb P) (pl_kn P) (fw_helpers s) (fw_ha s, fw_world s) = (up, ha, w) \<and>
        s' = s\<lparr>fw_phase := (if up then Ha_Loop else Ha_Init), fw_ha := ha, fw_world := k_sleep (pl_kn P) w\<rparr>) \<and>
     (\<exists>msg ms n st. mv_rx v (fw_world s) = msg # ms \<and>
        parse_incoming_message (mm_payload msg) (mm_topic msg) = Some (OUTPUT_DEVICE, n, st) \<and>
        om_state out = set_relay_bit (om_state (ht_outputs (fw_ha s))) n (st \<noteq> 0))"

lemma command_outputs_parse:
  assumes "command_outputs m out = Some out'"
  shows "\<exists>n st. parse_incoming_message (mm_payload m) (mm_topic m) = Some (OUTPUT_DEVICE, n, st) \<and>
    om_state out' = set_relay_bit (om_state out) n (st \<noteq> 0)"
  using assms by (auto simp: command_outputs_def split: option.splits mqtt_ha_dev_type_t.splits)

lemma ha_command_changes:
  assumes laws: "outputs_lawful P v outside"
    and c: "ha_command (pl_mq P) (pl_zb P) (s, w) = (s', w')"
    and ch: "zbus_read_outputs (pl_zb P) w' \<noteq> zbus_read_outputs (pl_zb P) w"
  shows "\<exists>msg ms out. mv_rx v w = msg # ms \<and> command_outputs msg (ht_outputs s) = Some out \<and>
    zbus_read_outputs (pl_zb P) w' = (0, out)"
proof -
  let ?g = "zbus_read_outputs (pl_zb P)"
  note l = outputs_laws [OF laws]
  obtain rc m w1 where get: "rx_get (pl_mq P) w = (rc, m, w1)" by (metis prod_cases3)
  have "?g (snd (snd (rx_get (pl_mq P) w))) = ?g w" using l(2) by (simp add: base_keeps_def)
  with get have g1: "?g w1 = ?g w" by simp
  have "rx_used (pl_mq P) w \<noteq> 0" and rc: "rc = 0" and
    co: "\<exists>out. command_outputs m (ht_outputs s) = Some out \<and> w' = snd (zbus_pub_outputs (pl_zb P) w1 out)"
    using c ch get g1 by (auto simp: ha_command_def Let_def split: if_splits option.splits)
  obtain out where co: "command_outputs m (ht_outputs s) = Some out" "w' = snd (zbus_pub_outputs (pl_zb P) w1 out)"
    using co by blast
  obtain x xs where rx: "mv_rx v w = x # xs" using rx_get_law(4) [OF l(8) get] rc by (cases "mv_rx v w") auto
  have "m = x" using rx_get_law(5) [OF l(8) get rx] by simp
  moreover obtain rc' where "zbus_pub_outputs (pl_zb P) w1 out = (rc', w')" using co(2) by (metis prod.collapse)
  with l(1) ch g1 have "?g w' = (0, out)" by (metis)
  ultimately show ?thesis using rx co(1) by blast
qed

lemma ha_turn_changes:
  assumes laws: "outputs_lawful P v outside"
    and t: "ha_turn (pl_mq P) (pl_zb P) (pl_kn P) hs (s, w) = (up, (s', w'))"
    and ch: "zbus_read_outputs (pl_zb P) w' \<noteq> zbus_read_outputs (pl_zb P) w"
  shows "\<exists>msg ms out. mv_rx v w = msg # ms \<and> command_outputs msg (ht_outputs s) = Some out \<and>
    zbus_read_outputs (pl_zb P) w' = (0, out)"
proof -
  let ?g = "zbus_read_outputs (pl_zb P)" and ?now = "k_uptime_seconds (pl_kn P) w"
  let ?s0 = "s\<lparr>ht_mqtt := chan_read (zbus_read_mqtt (pl_zb P) w) (ht_mqtt s)\<rparr>"
  note l = outputs_laws [OF laws]
  have rxk: "tx_put_keeps (pl_mq P) (mv_rx v)"
    using l(7) unfolding tx_put_keeps_def msgq_tx_lawful_def by (metis prod.collapse)
  obtain s1 w1 where 1: "ha_report_inputs (pl_mq P) (pl_zb P) hs ?now (?s0, w) = (s1, w1)" by fastforce
  obtain s2 w2 where 2: "ha_command (pl_mq P) (pl_zb P) (s1, w1) = (s2, w2)" by fastforce
  have 3: "ha_report_outputs (pl_mq P) (pl_zb P) hs ?now (s2, w2) = (s', w')"
    using t ch 1 2 by (auto simp: ha_turn_def Let_def split: if_splits)
  have w1: "?g w1 = ?g w" "mv_rx v w1 = mv_rx v w"
    using ha_report_keeps(1) [OF l(4), of "pl_zb P" hs ?now "(?s0, w)"]
      ha_report_keeps(1) [OF rxk, of "pl_zb P" hs ?now "(?s0, w)"] 1 by simp_all
  have "ht_outputs s1 = ht_outputs s"
    using report_inputs_outputs [of "pl_mq P" "pl_zb P" hs ?now "(?s0, w)"] 1 by simp
  moreover have "?g w' = ?g w2" using ha_report_keeps(2) [OF l(4), of "pl_zb P" hs ?now "(s2, w2)"] 3 by simp
  ultimately show ?thesis using ha_command_changes [OF laws 2] w1 ch by simp
qed

section \<open>A request\<close>

text \<open>
  The call of the handler with the last piece of a POST body, the body it completes, and the
  relays that body names.
\<close>

definition relays_request :: "'w platform \<Rightarrow> nat \<Rightarrow> 'w firmware \<Rightarrow> 'w firmware \<Rightarrow> outputs_msg_t \<Rightarrow> bool" where
  "relays_request P fuel s s' out \<longleftrightarrow>
     (\<exists>client req resp answer wb w vs. req_method client = HTTP_POST \<and>
        serve (pl_sys P) (pl_zb P) (pl_kn P) (pl_bt P) (pl_fs P) fuel Relays_State client HTTP_SERVER_DATA_FINAL req resp
          (fw_web s, fw_world s) = Some (answer, (wb, w)) \<and> s' = s\<lparr>fw_web := wb, fw_world := w\<rparr> \<and>
        json_obj_parse (pl_sys P) relays_state_descr (post_pending (snd (wb_relays (fw_web s))) @ req_data req) =
          (bit_mask (length relays_state_descr), vs) \<and>
        om_state out = pack_relays (field_bool (vs ! 0) False) (field_bool (vs ! 1) False) (field_bool (vs ! 2) False))"

lemma relays_post_changes:
  assumes pub: "\<And>w m rc w'. zbus_pub_outputs zb w m = (rc, w') \<Longrightarrow> g w' = (if rc = 0 then (0, m) else g w)"
    and ch: "g (fst (snd (relays_state_post sys zb resp body (w, b)))) \<noteq> g w"
  shows "\<exists>out vs. g (fst (snd (relays_state_post sys zb resp body (w, b)))) = (0, out) \<and>
    json_obj_parse sys relays_state_descr body = (bit_mask (length relays_state_descr), vs) \<and>
    om_state out = pack_relays (field_bool (vs ! 0) False) (field_bool (vs ! 1) False) (field_bool (vs ! 2) False)"
proof -
  obtain ret vs where p: "json_obj_parse sys relays_state_descr body = (ret, vs)" by fastforce
  let ?tmp = "\<lparr>rl_relay1 = field_bool (vs ! 0) False, rl_relay2 = field_bool (vs ! 1) False, rl_relay3 = field_bool (vs ! 2) False\<rparr>"
  have ret: "ret = bit_mask (length relays_state_descr)"
    and w': "fst (snd (relays_state_post sys zb resp body (w, b))) = relays_state_update zb w ?tmp"
    using ch p by (auto simp: relays_state_post_def Let_def split: if_splits)
  let ?out = "\<lparr>om_seq = om_seq (chan_read (zbus_read_outputs zb w) \<lparr>om_seq = 0, om_state = 0\<rparr>) + 1,
    om_state = pack_relays (rl_relay1 ?tmp) (rl_relay2 ?tmp) (rl_relay3 ?tmp)\<rparr>"
  obtain rc where "zbus_pub_outputs zb w ?out = (rc, relays_state_update zb w ?tmp)"
    by (simp add: relays_state_update_def Let_def) (metis prod.collapse)
  from pub [OF this] ch w' have "g (relays_state_update zb w ?tmp) = (0, ?out)" by (simp split: if_splits)
  then show ?thesis using ret p w' by (intro exI [of _ ?out] exI [of _ vs]) simp
qed

lemma relays_handler_changes:
  assumes pub: "\<And>w m rc w'. zbus_pub_outputs zb w m = (rc, w') \<Longrightarrow> g w' = (if rc = 0 then (0, m) else g w)"
    and inv: "post_inv 256 pc"
    and h: "relays_state_handler sys zb client status req resp ((w, b), pc) = (r, ((w', b'), pc'))"
    and ch: "g w' \<noteq> g w"
  shows "req_method client = HTTP_POST \<and> status = HTTP_SERVER_DATA_FINAL \<and>
    (\<exists>out vs. g w' = (0, out) \<and>
       json_obj_parse sys relays_state_descr (post_pending pc @ req_data req) = (bit_mask (length relays_state_descr), vs) \<and>
       om_state out = pack_relays (field_bool (vs ! 0) False) (field_bool (vs ! 1) False) (field_bool (vs ! 2) False))"
proof -
  have post: "req_method client = HTTP_POST"
    and st: "post_step (relays_state_post sys zb resp) (\<lambda>rc. (rc, resp)) status (req_data req) ((w, b), pc) = (r, ((w', b'), pc'))"
    using h ch by (auto simp: relays_state_handler_def Let_def split: if_splits)
  obtain body pc1 where rec: "post_receive status (req_data req) pc = (Post_Body body, pc1)"
    and w': "w' = fst (snd (relays_state_post sys zb resp body (w, b)))"
    using st ch by (auto simp: post_step_def split: post_result.splits prod.splits)
  have final: "status = HTTP_SERVER_DATA_FINAL"
    and fits: "length (post_pending pc) + length (req_data req) \<le> 256"
    using rec inv length_post_pending [OF inv] by (auto simp: post_receive_def post_inv_def Let_def split: if_splits)
  have "body = post_pending pc @ req_data req"
    using post_receive_fits [OF inv _ fits, of status] rec final by fastforce
  then show ?thesis using post final relays_post_changes [of zb g, OF pub ch [unfolded w']] w' by auto
qed

text \<open>The statics of the relays resource keep their size.\<close>

lemma serve_post_inv:
  assumes "serve sys zb kn bt fs fuel ep client status req resp (wb, w) = Some (r, (wb', w'))"
    and "post_inv 256 (snd (wb_relays wb))"
  shows "post_inv 256 (snd (wb_relays wb'))"
proof (cases "ep = Relays_State")
  case True
  have "post_inv 256 (snd (snd (post_step act early status d s)))" if "post_inv 256 (snd s)" for act early d s
    by (rule body_receiver.step_inv [OF post_step_receiver that])
  then have "post_inv 256 (snd (snd (relays_state_handler sys zb client status req resp s)))" if "post_inv 256 (snd s)" for s
    using that by (auto simp: relays_state_handler_def Let_def split: prod.split)
  from this [of "((w, fst (wb_relays wb)), snd (wb_relays wb))"] show ?thesis
    using True assms by (auto simp: case_prod_beta)
next
  case False
  then have "wb_relays wb' = wb_relays wb" using assms(1) by (cases ep) (auto simp: case_prod_beta)
  then show ?thesis using assms(2) by simp
qed

lemma fw_step_post_inv:
  "fw_step P d fuel outside s s' \<Longrightarrow> post_inv 256 (snd (wb_relays (fw_web s))) \<Longrightarrow> post_inv 256 (snd (wb_relays (fw_web s')))"
  by (induction rule: fw_step.induct) (auto dest: serve_post_inv simp del: serve.simps)

lemma fw_reachable_post_inv:
  assumes "fw_boot P sett w0 = Some s0" and "(fw_step P d fuel outside)\<^sup>*\<^sup>* s0 s"
  shows "post_inv 256 (snd (wb_relays (fw_web s)))"
  using assms(2)
proof (induction rule: rtranclp_induct)
  case base
  then show ?case using assms(1) by (auto simp: fw_boot_def web_state_init_def Let_def split: option.splits prod.splits)
next
  case (step s s')
  then show ?case by (blast intro: fw_step_post_inv)
qed

section \<open>Every step\<close>

lemma fw_step_outputs:
  assumes laws: "outputs_lawful P v outside" and inv: "post_inv 256 (snd (wb_relays (fw_web s)))"
    and "fw_step P d fuel outside s s'"
    and ch: "zbus_read_outputs (pl_zb P) (fw_world s') \<noteq> zbus_read_outputs (pl_zb P) (fw_world s)"
  shows "\<exists>out. zbus_read_outputs (pl_zb P) (fw_world s') = (0, out) \<and>
    (relays_request P fuel s s' out \<or> relay_command P v s s' out)"
  using assms(3)
proof cases
  case (io i w)
  then show ?thesis using ch io_body_keeps [OF outputs_laws(5) [OF laws], of "pl_zb P" d "fw_io s" "fw_world s"] by simp
next
  case (ha_init rc hs)
  then show ?thesis using ch by simp
next
  case (ha_poll up ha w)
  then show ?thesis using ch base_poll_keeps [OF outputs_laws(2,4) [OF laws] ha_poll(3)] by simp
next
  case (ha_turn up ha w)
  have sleep: "zbus_read_outputs (pl_zb P) (k_sleep (pl_kn P) w) = zbus_read_outputs (pl_zb P) w"
    using outputs_laws(2) [OF laws] by (simp add: base_keeps_def)
  then obtain msg ms out where "mv_rx v (fw_world s) = msg # ms" and
    co: "command_outputs msg (ht_outputs (fw_ha s)) = Some out" "zbus_read_outputs (pl_zb P) w = (0, out)"
    using ha_turn_changes [OF laws ha_turn(3)] ch ha_turn(1) by auto
  with command_outputs_parse [OF co(1)] have "relay_command P v s s' out"
    unfolding relay_command_def using ha_turn by blast
  then show ?thesis using co(2) sleep ha_turn(1) by auto
next
  case (mqtt tk w)
  then show ?thesis using ch base_mqtt_keeps(1) [OF outputs_laws(2,3) [OF laws] mqtt(2)] by simp
next
  case (http ep client status req resp answer wb w)
  have ep: "ep = Relays_State"
    using base_serve_keeps [OF outputs_laws(2) [OF laws] _ http(2,4)] ch http(1) by auto
  obtain b pc where wb: "wb_relays (fw_web s) = (b, pc)" by fastforce
  obtain r b' pc' where h: "relays_state_handler (pl_sys P) (pl_zb P) client status req resp ((fw_world s, b), pc) =
      (r, ((w, b'), pc'))"
    using http(4) ep wb by (auto simp: case_prod_beta) (metis prod.collapse)
  have "zbus_read_outputs (pl_zb P) w \<noteq> zbus_read_outputs (pl_zb P) (fw_world s)" using ch http(1) by simp
  from relays_handler_changes [OF outputs_laws(1) [OF laws] _ h this] inv wb
  obtain out vs where *: "req_method client = HTTP_POST" "status = HTTP_SERVER_DATA_FINAL"
    "zbus_read_outputs (pl_zb P) w = (0, out)"
    "json_obj_parse (pl_sys P) relays_state_descr (post_pending pc @ req_data req) = (bit_mask (length relays_state_descr), vs)"
    "om_state out = pack_relays (field_bool (vs ! 0) False) (field_bool (vs ! 1) False) (field_bool (vs ! 2) False)"
    by auto
  have "relays_request P fuel s s' out"
    unfolding relays_request_def
    using * http(1,4) ep wb by (intro exI [of _ client] exI [of _ req] exI [of _ resp] exI [of _ answer] exI [of _ wb]
        exI [of _ w] exI [of _ vs]) (simp del: serve.simps)
  then show ?thesis using * http(1) by auto
next
  case (outside w)
  then show ?thesis using ch outputs_laws(6) [OF laws outside(2)] by simp
qed

text \<open>What the io thread can put on the pins.\<close>

lemma io_target_cases:
  assumes "zbus_read_outputs zb w = (0, m)"
  shows "io_target zb d (i, w) = om_state m \<or>
    io_target zb d (i, w) = safe_byte d \<and> rd_enabled d \<and> mq_enabled (io_mqtt_status_msg i) \<and>
      \<not> mq_connected (chan_read (zbus_read_mqtt zb w) (io_mqtt_status_msg i))"
  using assms by (simp add: io_target_def Let_def)

lemma io_body_unread: "fst (zbus_read_outputs zb w) \<noteq> 0 \<Longrightarrow> io_task_body zb gp d (i, w) = (i, w)"
  by (simp add: io_task_body_def case_prod_beta)

lemma fw_step_pins:
  assumes l: "platform_lawful P pin v sent subs ident outside" and inv: "fw_inv P pin v subs ident s"
    and "fw_step P d fuel outside s s'" and ch: "pin (fw_world s') \<noteq> pin (fw_world s)"
  shows "fw_world s' = snd (io_task_body (pl_zb P) (pl_gp P) d (fw_io s, fw_world s)) \<and>
    (\<exists>m b. zbus_read_outputs (pl_zb P) (fw_world s) = (0, m) \<and> map (pin (fw_world s')) [0, 1, 2] = relay_pins b \<and>
       (b = om_state m \<or> b = safe_byte d \<and> rd_enabled d \<and> mq_enabled (io_mqtt_status_msg (fw_io s)) \<and>
          \<not> mq_connected (chan_read (zbus_read_mqtt (pl_zb P) (fw_world s)) (io_mqtt_status_msg (fw_io s)))))"
proof -
  have pv: "pins_view (pl_gp P) pin (fw_world s') \<noteq> pins_view (pl_gp P) pin (fw_world s)" using ch by (simp add: pins_view_def)
  note k = platform_keeps [OF l]
  from assms(3) show ?thesis
  proof cases
    case (io i w)
    have "fst (zbus_read_outputs (pl_zb P) (fw_world s)) = 0"
      using io_body_unread [of "pl_zb P" "fw_world s" "pl_gp P" d "fw_io s"] io ch by auto
    then obtain m where m: "zbus_read_outputs (pl_zb P) (fw_world s) = (0, m)" by (metis prod.collapse)
    have "io_inv (pl_gp P) pin (fw_io s, fw_world s)" using inv by (simp add: fw_inv_def)
    from io_turn_pins [OF platform_laws(1) [OF l] this, of "pl_zb P" d] m
    have "map (pin (fw_world s')) [0, 1, 2] = relay_pins (io_target (pl_zb P) d (fw_io s, fw_world s))"
      using io by (simp add: pins_show_def)
    then show ?thesis using m io io_target_cases [OF m, of d "fw_io s"]
      by (intro conjI exI [of _ m] exI [of _ "io_target (pl_zb P) d (fw_io s, fw_world s)"]) simp_all
  next
    case (ha_init rc hs)
    then show ?thesis using pv by simp
  next
    case (ha_poll up ha w)
    then show ?thesis using pv ha_poll_keeps [OF k(1) ha_poll(3)] by simp
  next
    case (ha_turn up ha w)
    then show ?thesis using pv ha_turn_keeps [OF k(1) ha_turn(3)] k(7) by (simp add: common_keeps_def base_keeps_def)
  next
    case (mqtt tk w)
    then show ?thesis using pv mqtt_step_keeps(1) [OF k(2) mqtt(2)] by simp
  next
    case (http ep client status req resp answer wb w)
    then show ?thesis using pv common_serve_keeps [OF k(7) http(2,4)] by simp
  next
    case (outside w)
    then show ?thesis using pv k(10) [OF outside(2)] by simp
  qed
qed


section \<open>Properties\<close>

text \<open>
  C3. A relay switches only on request: in any state the started firmware can reach, a
  step that changes the outputs channel is either the last call of a POST to the relays
  resource whose body, as its pieces add up, parses, and the new byte has the three relays
  of that body; or a turn of the Home Assistant task whose oldest waiting message parses as
  a command for an output, and the new byte has that relay set as commanded. And a step
  that changes a pin is a turn of the io thread, after which the pins show the byte of the
  channel, or the safe state if it is enabled and the broker is not connected.
\<close>

theorem relays_switched_only_on_request:
  assumes "platform_lawful P pin v sent subs ident outside" and "outputs_lawful P v outside"
    and "fw_boot P sett w0 = Some s0" and "(fw_step P d fuel outside)\<^sup>*\<^sup>* s0 s" and "fw_step P d fuel outside s s'"
  shows "(zbus_read_outputs (pl_zb P) (fw_world s') \<noteq> zbus_read_outputs (pl_zb P) (fw_world s) \<longrightarrow>
      (\<exists>out. zbus_read_outputs (pl_zb P) (fw_world s') = (0, out) \<and>
         (relays_request P fuel s s' out \<or> relay_command P v s s' out))) \<and>
    (pin (fw_world s') \<noteq> pin (fw_world s) \<longrightarrow>
      fw_world s' = snd (io_task_body (pl_zb P) (pl_gp P) d (fw_io s, fw_world s)) \<and>
      (\<exists>m b. zbus_read_outputs (pl_zb P) (fw_world s) = (0, m) \<and> map (pin (fw_world s')) [0, 1, 2] = relay_pins b \<and>
         (b = om_state m \<or> b = safe_byte d \<and> rd_enabled d \<and> mq_enabled (io_mqtt_status_msg (fw_io s)) \<and>
            \<not> mq_connected (chan_read (zbus_read_mqtt (pl_zb P) (fw_world s)) (io_mqtt_status_msg (fw_io s))))))"
  using fw_step_outputs [OF assms(2) fw_reachable_post_inv [OF assms(3,4)] assms(5)]
    fw_step_pins [OF assms(1) fw_reachable_inv [OF assms(1,3,4)] assms(5)]
  by blast

lemma demo_outputs_lawful: "outputs_lawful demo_platform demo_queues demo_outside"
proof -
  have sel: "pl_zb demo_platform = demo_zbus" "pl_mq demo_platform = demo_msgq" "pl_nt demo_platform = demo_net"
    "pl_mc demo_platform = demo_mqtt\<lparr>mqtt_subscribe := \<lambda>w ts i. (- 1, w)\<rparr>" "pl_gp demo_platform = demo_gpio"
    by (simp_all add: demo_platform_def)
  have rd: "zbus_read_outputs demo_zbus = (\<lambda>w. (0, dw_outputs w))" by (simp add: demo_zbus_def)
  have "base_keeps demo_platform (\<lambda>w. (0 :: int, dw_outputs w))"
    by (auto simp: base_keeps_def sys_keeps_def fs_keeps_def handler_keeps_def reads_keep_def client_keeps_def
        demo_platform_def demo_sys_def demo_save_def demo_no_fs_def demo_ha_kernel_def demo_kernel_def demo_msgq_def
        demo_mqtt_def demo_net_def demo_zbus_def Let_def split: list.split)
  moreover have "broker_keeps (demo_mqtt\<lparr>mqtt_subscribe := \<lambda>w ts i. (- 1, w)\<rparr>) demo_net (\<lambda>w. (0 :: int, dw_outputs w))"
    "tx_put_keeps demo_msgq (\<lambda>w. (0 :: int, dw_outputs w))" "gpio_keeps demo_gpio (\<lambda>w. (0 :: int, dw_outputs w))"
    by (simp_all add: tx_put_keeps_def broker_keeps_def gpio_keeps_def demo_msgq_def demo_mqtt_def demo_net_def demo_gpio_def)
  moreover have "zbus_pub_outputs demo_zbus w m = (rc, w') \<Longrightarrow> (0 :: int, dw_outputs w') = (if rc = 0 then (0, m) else (0, dw_outputs w))"
    for w m rc w' by (auto simp: demo_zbus_def)
  moreover have "demo_outside w w' \<Longrightarrow> dw_outputs w' = dw_outputs w" for w w' by (auto simp: demo_outside_def)
  ultimately show ?thesis
    unfolding outputs_lawful_def sel rd Let_def
    using platform_laws(2,3) [OF demo_platform_lawful] by (simp add: sel)
qed

theorem relays_switched_only_on_request_witness:
  "\<exists>s0 s1 s2 out. fw_boot demo_platform mqtt_settings_zero demo_init = Some s0 \<and>
     fw_step demo_platform demo_safe 0 demo_outside s0 s1 \<and> fw_step demo_platform demo_safe 0 demo_outside s1 s2 \<and>
     zbus_read_outputs demo_zbus (fw_world s1) = (0, out) \<and> om_state out = 5 \<and>
     (relays_request demo_platform 0 s0 s1 out \<or> relay_command demo_platform demo_queues s0 s1 out) \<and>
     demo_pin (fw_world s2) \<noteq> demo_pin (fw_world s1) \<and> map (demo_pin (fw_world s2)) [0, 1, 2] = [True, False, True]"
proof -
  obtain s0 a wb w where b: "fw_boot demo_platform mqtt_settings_zero demo_init = Some s0"
    and i0: "\<not> mq_enabled (io_mqtt_status_msg (fw_io s0))" and o5: "om_state (dw_outputs w) = 5"
    and sv: "serve demo_sys demo_zbus demo_ha_kernel demo_bt demo_no_fs 0 Relays_State post_client HTTP_SERVER_DATA_FINAL
      (with_body ''101'') demo_resp (fw_web s0, fw_world s0) = Some (a, (wb, w))"
    using demo_fw_run by (auto split: option.splits simp del: serve.simps)
  let ?s = "s0\<lparr>fw_web := wb, fw_world := w\<rparr>"
  have sel: "pl_gp demo_platform = demo_gpio" "pl_zb demo_platform = demo_zbus" by (simp_all add: demo_platform_def)
  have "accepts Relays_State post_client" by (simp add: accepts_def api_relays_state_def post_client_def)
  then have st: "fw_step demo_platform demo_safe 0 demo_outside s0 ?s"
    using sv by (intro fw_step.http [of Relays_State]) (simp_all add: demo_platform_def del: serve.simps)
  have o0: "om_state (dw_outputs (fw_world s0)) = 0"
    using b by (auto simp: fw_boot_def demo_platform_def io_task_start_def demo_gpio_def write_relays_once_def demo_init_def
        authentication_init_def users_init_def demo_sys_def demo_save_def demo_load_def outputs_initial_def Let_def
        split: if_splits prod.splits option.splits)
  have rd: "zbus_read_outputs demo_zbus w' = (0, dw_outputs w')" for w' by (simp add: demo_zbus_def)
  have ne: "zbus_read_outputs (pl_zb demo_platform) (fw_world ?s) \<noteq> zbus_read_outputs (pl_zb demo_platform) (fw_world s0)"
    using o0 o5 by (auto simp: sel rd)
  have "\<exists>out. zbus_read_outputs (pl_zb demo_platform) (fw_world ?s) = (0, out) \<and>
      (relays_request demo_platform 0 s0 ?s out \<or> relay_command demo_platform demo_queues s0 ?s out)"
    using relays_switched_only_on_request [OF demo_platform_lawful demo_outputs_lawful b rtranclp.rtrancl_refl st] ne by blast
  then have 1: "relays_request demo_platform 0 s0 ?s (dw_outputs w) \<or> relay_command demo_platform demo_queues s0 ?s (dw_outputs w)"
    by (simp add: sel rd)
  obtain i w2 where io: "io_task_body (pl_zb demo_platform) (pl_gp demo_platform) demo_safe (fw_io ?s, fw_world ?s) = (i, w2)"
    by fastforce
  let ?s2 = "?s\<lparr>fw_io := i, fw_world := w2\<rparr>"
  have st2: "fw_step demo_platform demo_safe 0 demo_outside ?s ?s2" using fw_step.io [OF io] .
  have r: "(fw_step demo_platform demo_safe 0 demo_outside)\<^sup>*\<^sup>* s0 ?s" using st by simp
  have "io_inv demo_gpio demo_pin (fw_io s0, w)"
    using fw_reachable_inv [OF demo_platform_lawful b r] by (simp add: fw_inv_def sel)
  moreover have "io_applied_state (fw_io s0) = 0"
    using b io_task_start_inv(2) [OF platform_laws(1) [OF demo_platform_lawful], of demo_sys demo_init]
    by (auto simp: fw_boot_def demo_platform_def Let_def split: option.splits prod.splits)
  ultimately have p1: "map (demo_pin (fw_world ?s)) [0, 1, 2] = [False, False, False]"
    by (simp add: io_inv_def pins_show_def relay_pins_def)
  have "io_target demo_zbus demo_safe (fw_io s0, w) = 5" using i0 o5 by (simp add: io_target_def rd)
  with io_turn_pins [OF platform_laws(1) [OF demo_platform_lawful], of "fw_io ?s" "fw_world ?s" "pl_zb demo_platform" demo_safe]
    fw_reachable_inv [OF demo_platform_lawful b r] io
  have "map (demo_pin (fw_world ?s2)) [0, 1, 2] = relay_pins 5" by (simp add: fw_inv_def pins_show_def sel rd)
  moreover have "relay_pins 5 = [True, False, True]" by (simp add: relay_pins_def)
  ultimately have p2: "map (demo_pin (fw_world ?s2)) [0, 1, 2] = [True, False, True]" by simp
  with p1 have ch: "demo_pin (fw_world ?s2) \<noteq> demo_pin (fw_world ?s)" by auto
  with relays_switched_only_on_request [OF demo_platform_lawful demo_outputs_lawful b r st2]
  have "fw_world ?s2 = snd (io_task_body (pl_zb demo_platform) (pl_gp demo_platform) demo_safe (fw_io ?s, fw_world ?s))" by blast
  then show ?thesis
    using b st st2 1 o5 ch p2 by (intro exI [of _ s0] exI [of _ ?s] exI [of _ ?s2] exI [of _ "dw_outputs w"]) (simp add: sel rd)
qed


end
