(* ===== verification/Secrets.thy ===== *)
theory Secrets
  imports Firmware
begin

text \<open>
  What requests cannot find out: the password of the broker that is stored in the settings.
  \<open>forget\<close> wipes it from a world. Every service but the settings cannot tell a world from
  the wiped one, and the settings only when that key is read; so two worlds that are equal
  up to the password answer any sequence of requests alike, to whatever resources and with
  whatever bodies.
\<close>

section \<open>Wiping the password\<close>

text \<open>
  What an uninitialised array holds is one of the services that must not depend on the
  password. The handlers read such arrays (\<open>Rest_Users\<close> has a login that answers with one), so
  on a device the secret is as safe as the stack is clean of it.
\<close>

definition forgets :: "'w sys_api \<Rightarrow> 'w zbus_api \<Rightarrow> 'w kernel_api \<Rightarrow> 'w boot_api \<Rightarrow> 'w fs_api \<Rightarrow> ('w \<Rightarrow> 'w) \<Rightarrow> bool" where
  "forgets sys zb kn bt fs forget \<longleftrightarrow>
     (\<forall>w. forget (forget w) = forget w) \<and>
     (\<forall>w k n. k \<noteq> mqtt_pass_settings \<longrightarrow> settings_load_one sys (forget w) k n = settings_load_one sys w k n) \<and>
     (\<forall>w k v. k \<noteq> mqtt_pass_settings \<longrightarrow> settings_save_one sys (forget w) k v = apsnd forget (settings_save_one sys w k v)) \<and>
     (\<forall>w v. forget (snd (settings_save_one sys (forget w) mqtt_pass_settings v)) =
        forget (snd (settings_save_one sys w mqtt_pass_settings v))) \<and>
     (\<forall>w n. uninit sys (forget w) n = uninit sys w n) \<and>
     (\<forall>w. time_now sys (forget w) = apsnd forget (time_now sys w)) \<and>
     (\<forall>w n. sys_csrand_get sys (forget w) n = apsnd forget (sys_csrand_get sys w n)) \<and>
     (\<forall>w. zbus_read_outputs zb (forget w) = zbus_read_outputs zb w) \<and>
     (\<forall>w m. zbus_pub_outputs zb (forget w) m = apsnd forget (zbus_pub_outputs zb w m)) \<and>
     (\<forall>w. k_sleep kn (forget w) = forget (k_sleep kn w)) \<and> (\<forall>w. sys_reboot bt (forget w) = forget (sys_reboot bt w)) \<and>
     (\<forall>w p. fs_unlink fs (forget w) p = apsnd forget (fs_unlink fs w p)) \<and>
     (\<forall>w p. fs_mkdir fs (forget w) p = apsnd forget (fs_mkdir fs w p)) \<and>
     (\<forall>w p. fs_stat fs (forget w) p = fs_stat fs w p) \<and> (\<forall>w. fs_uninit_dirent fs (forget w) = fs_uninit_dirent fs w) \<and>
     (\<forall>w p. fs_open_append fs (forget w) p = apsnd forget (fs_open_append fs w p)) \<and>
     (\<forall>w p bs. fs_write fs (forget w) p bs = apsnd forget (fs_write fs w p bs)) \<and>
     (\<forall>w p. fs_sync fs (forget w) p = forget (fs_sync fs w p)) \<and> (\<forall>w p. fs_close fs (forget w) p = forget (fs_close fs w p)) \<and>
     (\<forall>w p. fs_opendir fs (forget w) p = apsnd (apsnd forget) (fs_opendir fs w p)) \<and>
     (\<forall>w d. fs_readdir fs (forget w) d = apsnd (apsnd forget) (fs_readdir fs w d)) \<and>
     (\<forall>w d. fs_closedir fs (forget w) d = forget (fs_closedir fs w d))"

locale password_hidden =
  fixes sys :: "'w sys_api" and zb :: "'w zbus_api" and kn :: "'w kernel_api" and bt :: "'w boot_api"
    and fs :: "'w fs_api" and forget :: "'w \<Rightarrow> 'w"
  assumes hidden: "forgets sys zb kn bt fs forget"
begin

lemma sys_forget:
  "forget (forget w) = forget w"
  "k \<noteq> mqtt_pass_settings \<Longrightarrow> settings_load_one sys (forget w) k n = settings_load_one sys w k n"
  "k \<noteq> mqtt_pass_settings \<Longrightarrow> settings_save_one sys (forget w) k v = apsnd forget (settings_save_one sys w k v)"
  "forget (snd (settings_save_one sys (forget w) mqtt_pass_settings v)) =
     forget (snd (settings_save_one sys w mqtt_pass_settings v))"
  "uninit sys (forget w) m = uninit sys w m"
  "time_now sys (forget w) = apsnd forget (time_now sys w)"
  "sys_csrand_get sys (forget w) m = apsnd forget (sys_csrand_get sys w m)"
  using hidden by (simp_all add: forgets_def)

lemma other_forget:
  "zbus_read_outputs zb (forget w) = zbus_read_outputs zb w"
  "zbus_pub_outputs zb (forget w) m = apsnd forget (zbus_pub_outputs zb w m)"
  "k_sleep kn (forget w) = forget (k_sleep kn w)"
  "sys_reboot bt (forget w) = forget (sys_reboot bt w)"
  using hidden by (simp_all add: forgets_def)

lemma fs_forget:
  "fs_unlink fs (forget w) p = apsnd forget (fs_unlink fs w p)"
  "fs_mkdir fs (forget w) p = apsnd forget (fs_mkdir fs w p)"
  "fs_stat fs (forget w) p = fs_stat fs w p"
  "fs_uninit_dirent fs (forget w) = fs_uninit_dirent fs w"
  "fs_open_append fs (forget w) p = apsnd forget (fs_open_append fs w p)"
  "fs_write fs (forget w) p bs = apsnd forget (fs_write fs w p bs)"
  "fs_sync fs (forget w) p = forget (fs_sync fs w p)"
  "fs_close fs (forget w) p = forget (fs_close fs w p)"
  "fs_opendir fs (forget w) p = apsnd (apsnd forget) (fs_opendir fs w p)"
  "fs_readdir fs (forget w) d = apsnd (apsnd forget) (fs_readdir fs w d)"
  "fs_closedir fs (forget w) d = forget (fs_closedir fs w d)"
  using hidden by (simp_all add: forgets_def)

lemma users_key: "web_users_settings \<noteq> mqtt_pass_settings"
  by (simp add: settings_keys)

section \<open>Users and sessions\<close>

lemma update_users_forget: "update_users sys (forget w) l = apsnd forget (update_users sys w l)"
  by (simp add: update_users_def sys_forget users_key case_prod_beta split: option.split)

lemma add_web_user_forget:
  "add_web_user sys (forget w) l name pass = apsnd (apsnd forget) (add_web_user sys w l name pass)"
  by (simp add: add_web_user_def update_users_forget sys_forget Let_def case_prod_beta split: option.split)

lemma delete_web_user_forget:
  "delete_web_user sys (forget w) l name = apsnd (apsnd forget) (delete_web_user sys w l name)"
  by (simp add: delete_web_user_def update_users_forget Let_def case_prod_beta split: option.split)

lemma get_web_users_forget: "get_web_users sys (forget w) l = get_web_users sys w l"
  by (simp add: get_web_users_def sys_forget users_key split: option.split)

lemma check_credentials_forget:
  "check_user_credentials sys (forget w) l name pass = check_user_credentials sys w l name pass"
  by (simp add: check_user_credentials_def sys_forget)

lemma check_token_forget: "check_token_valid sys (forget w) st t = apsnd (apsnd forget) (check_token_valid sys w st t)"
  by (simp add: check_token_valid_def sys_forget case_prod_beta Let_def)

lemma login_user_forget:
  "login_user sys (forget w) st name tb sz = apsnd (apfst forget) (login_user sys w st name tb sz)"
  by (simp add: login_user_def generate_token_def store_session_token_def sys_forget case_prod_beta Let_def)

lemma authentication_forget:
  "authentication sys (forget w) st hs tb sz = apsnd (apsnd (apfst forget)) (authentication sys w st hs tb sz)"
proof (induction hs arbitrary: w st)
  case (Cons h hs)
  then show ?case
    by (cases tb; cases "sz = 0")
      (simp_all add: check_token_forget login_user_forget check_credentials_forget Let_def case_prod_beta split: option.split)
qed simp

section \<open>Files\<close>

lemma upload_forget: "http_upload fs base url body resp (forget w) = apsnd forget (http_upload fs base url body resp w)"
  by (simp add: http_upload_def upload_write_def fs_forget Let_def case_prod_beta split: option.split)

lemma mkdir_forget: "mkdir_post sys fs resp body (forget w) = apsnd forget (mkdir_post sys fs resp body w)"
  by (simp add: mkdir_post_def mkdir_web_ui_files_def fs_forget Let_def case_prod_beta)

lemma delete_tree_forget:
  "fs_delete_tree fs k (forget w) path = map_option (apsnd forget) (fs_delete_tree fs k w path)"
  "fs_delete_loop fs k (forget w) path dir = map_option (apsnd forget) (fs_delete_loop fs k w path dir)"
proof (induction k arbitrary: w path dir and w path dir)
  case (Suc k)
  {
    case 1
    then show ?case using Suc.IH by (simp add: fs_forget case_prod_beta Let_def)
  next
    case 2
    then show ?case using Suc.IH by (simp add: fs_forget case_prod_beta Let_def split: option.split)
  }
qed simp_all

lemma delete_files_forget:
  "delete_web_ui_files fs fuel (forget w) = map_option (apsnd forget) (delete_web_ui_files fs fuel w)"
  by (cases "fs_delete_tree fs fuel w base_web_ui_fs_path")
    (auto simp: delete_web_ui_files_def delete_tree_forget fs_forget)

lemma webui_delete_forget:
  "webui_delete_handler fs fuel client status resp (forget w) =
     map_option (apsnd forget) (webui_delete_handler fs fuel client status resp w)"
  by (cases "delete_web_ui_files fs fuel w") (auto simp: webui_delete_handler_def delete_files_forget)

section \<open>The handlers\<close>

text \<open>
  What a handler makes of a wiped world differs from what it makes of the world itself in the
  password only; the states are compared once wiped.
\<close>

lemma post_step_wiped:
  assumes "\<And>body c. apsnd H (act body (H c)) = apsnd H (act body c)" and "\<And>c. H (H c) = H c"
  shows "apsnd (apfst H) (post_step act early status d (H c, pc)) = apsnd (apfst H) (post_step act early status d (c, pc))"
  using assms(1) by (auto simp: post_step_def assms(2) Let_def case_prod_beta prod_eq_iff split: post_result.split)

lemma post_step_forget:
  fixes act :: "byte list \<Rightarrow> 'w \<times> 'x \<Rightarrow> 'r \<times> 'w \<times> 'x"
  assumes "\<And>body w x. apsnd (apfst forget) (act body (forget w, x)) = apsnd (apfst forget) (act body (w, x))"
  shows "apsnd (apfst (apfst forget)) (post_step act early status d ((forget w, x), pc)) =
    apsnd (apfst (apfst forget)) (post_step act early status d ((w, x), pc))"
proof -
  have "apsnd (apfst forget) (act body (apfst forget c)) = apsnd (apfst forget) (act body c)" for body c
    using assms by (cases c) simp
  moreover have "apfst forget (apfst forget c) = apfst forget c" for c :: "'w \<times> 'x"
    by (cases c) (simp add: sys_forget)
  ultimately show ?thesis
    using post_step_wiped [where H = "apfst forget" and act = act and c = "(w, x)"] by simp
qed

lemma relays_handler_forget:
  "apsnd (apfst (apfst forget)) (relays_state_handler sys zb client status req resp ((forget w, b), pc)) =
     apsnd (apfst (apfst forget)) (relays_state_handler sys zb client status req resp ((w, b), pc))"
proof -
  have "apsnd (apfst forget) (relays_state_post sys zb resp body (forget w, x)) =
      apsnd (apfst forget) (relays_state_post sys zb resp body (w, x))" for body w x
    by (simp add: relays_state_post_def relays_state_update_def other_forget sys_forget Let_def case_prod_beta)
  from post_step_forget [where act = "relays_state_post sys zb resp", OF this] show ?thesis
    by (simp add: relays_state_handler_def relays_state_get_def other_forget sys_forget Let_def)
qed

lemma save_all_forget: "forget (save_all sys kvs (forget w)) = forget (save_all sys kvs w)"
proof (induction kvs arbitrary: w)
  case (Cons kv kvs)
  obtain k v where kv: "kv = (k, v)" by (cases kv)
  have "forget (snd (settings_save_one sys (forget w) k v)) = forget (snd (settings_save_one sys w k v))"
    by (cases "k = mqtt_pass_settings") (simp_all add: sys_forget)
  then show ?case
    using Cons.IH [of "snd (settings_save_one sys (forget w) k v)"] Cons.IH [of "snd (settings_save_one sys w k v)"]
    by (simp add: kv)
qed (simp add: sys_forget)

lemma load_bool_forget: "k \<noteq> mqtt_pass_settings \<Longrightarrow> load_bool_setting sys (forget w) k old = load_bool_setting sys w k old"
  by (simp add: load_bool_setting_def sys_forget)

lemma load_relays_forget: "load_relays_def sys (forget w) = load_relays_def sys w"
  by (simp add: load_relays_def_def load_bool_forget settings_keys)

lemma def_relay_handler_forget:
  "apsnd (apfst (apfst forget)) (settings_def_relay_state_handler sys client status req resp ((forget w, x), pc)) =
     apsnd (apfst (apfst forget)) (settings_def_relay_state_handler sys client status req resp ((w, x), pc))"
proof -
  have "apsnd (apfst forget) (def_relay_state_post sys resp body (forget w, x)) =
      apsnd (apfst forget) (def_relay_state_post sys resp body (w, x))" for body w x
    by (simp add: def_relay_state_post_def app_settings_def_relay_state_update_def save_all_forget Let_def case_prod_beta
        sys_forget(1) del: save_all_simps)
  from post_step_forget [where act = "def_relay_state_post sys resp", OF this] show ?thesis
    by (simp add: settings_def_relay_state_handler_def load_relays_forget sys_forget(1) Let_def case_prod_beta)
qed

lemma mqtt_text_forget:
  "mqtt_text (load_mqtt_fields sys (forget w) (app_settings_mqtt_load sys (forget w))) t =
     mqtt_text (load_mqtt_fields sys w (app_settings_mqtt_load sys w)) t"
  "ms_user (load_mqtt_fields sys (forget w) (app_settings_mqtt_load sys (forget w))) =
     ms_user (load_mqtt_fields sys w (app_settings_mqtt_load sys w))"
  by (simp_all add: mqtt_text_def load_mqtt_fields_def app_settings_mqtt_load_def load_bool_forget sys_forget settings_keys)

lemma mqtt_handler_forget:
  "apsnd (apfst (apfst forget)) (settings_mqtt_handler sys client status req resp ((forget w, x), pc)) =
     apsnd (apfst (apfst forget)) (settings_mqtt_handler sys client status req resp ((w, x), pc))"
proof -
  have "apsnd (apfst forget) (mqtt_settings_post sys resp body (forget w, x)) =
      apsnd (apfst forget) (mqtt_settings_post sys resp body (w, x))" for body w x
    by (simp add: mqtt_settings_post_def app_settings_mqtt_update_def save_all_forget Let_def case_prod_beta
        sys_forget(1) del: save_all_simps)
  from post_step_forget [where act = "mqtt_settings_post sys resp", OF this] show ?thesis
    by (simp add: settings_mqtt_handler_def mqtt_text_forget sys_forget(1) Let_def case_prod_beta)
qed

lemma login_handler_forget:
  "apsnd (apfst forget) (login_handler sys client status req resp (forget w, x)) =
     apsnd (apfst forget) (login_handler sys client status req resp (w, x))"
  by (simp add: login_handler_def authentication_forget sys_forget Let_def case_prod_beta)

lemma users_handler_forget:
  "apsnd (apfst (apfst forget)) (web_user_mgmt_handler sys client status req resp ((forget w, x), pc)) =
     apsnd (apfst (apfst forget)) (web_user_mgmt_handler sys client status req resp ((w, x), pc))"
proof -
  have "apsnd (apfst forget) (web_user_post sys resp body (forget w, x)) =
      apsnd (apfst forget) (web_user_post sys resp body (w, x))"
    "apsnd (apfst forget) (web_user_get sys resp (forget w, x)) = apsnd (apfst forget) (web_user_get sys resp (w, x))"
    "apsnd (apfst forget) (web_user_delete sys url resp (forget w, x)) = apsnd (apfst forget) (web_user_delete sys url resp (w, x))"
    for body url w x
    by (simp_all add: web_user_post_def web_user_get_def web_user_delete_def add_web_user_forget delete_web_user_forget
        get_web_users_forget sys_forget(1) Let_def case_prod_beta split: option.split)
  note this(2,3) post_step_forget [where act = "web_user_post sys resp", OF this(1)]
  then show ?thesis
    by (simp add: web_user_mgmt_handler_def prod_eq_iff sys_forget(1) Let_def case_prod_beta split: http_method.split)
qed

lemma upload_handler_forget:
  "apsnd (apfst forget) (webui_chunk_put fs client status req resp (forget w, pc)) =
     apsnd (apfst forget) (webui_chunk_put fs client status req resp (w, pc))"
  by (simp add: webui_chunk_put_def upload_forget sys_forget(1) Let_def case_prod_beta split: post_result.split)

lemma mkdir_handler_forget:
  "apsnd (apfst forget) (mkdir_web_ui_handler sys fs client status req resp (forget w, pc)) =
     apsnd (apfst forget) (mkdir_web_ui_handler sys fs client status req resp (w, pc))"
proof -
  have "apsnd forget (mkdir_post sys fs resp body (forget w)) = apsnd forget (mkdir_post sys fs resp body w)" for body w
    by (simp add: mkdir_forget sys_forget(1) prod_eq_iff)
  from post_step_wiped [where H = forget and act = "mkdir_post sys fs resp", OF this] show ?thesis
    by (simp add: mkdir_web_ui_handler_def sys_forget(1))
qed

section \<open>Any request\<close>

lemma serve_forget:
  "map_option (apsnd (apsnd forget)) (serve sys zb kn bt fs fuel ep client status req resp (wb, forget w)) =
     map_option (apsnd (apsnd forget)) (serve sys zb kn bt fs fuel ep client status req resp (wb, w))"
proof (cases ep)
  case Relays_State
  then show ?thesis
    using relays_handler_forget [of client status req resp w "fst (wb_relays wb)" "snd (wb_relays wb)"]
    by (simp add: prod_eq_iff case_prod_beta)
next
  case Def_Relay_State
  then show ?thesis
    using def_relay_handler_forget [of client status req resp w "(wb_updated wb, fst (wb_safe wb))" "snd (wb_safe wb)"]
    by (simp add: prod_eq_iff case_prod_beta)
next
  case Mqtt_Settings
  then show ?thesis
    using mqtt_handler_forget [of client status req resp w "(wb_updated wb, fst (wb_broker wb))" "snd (wb_broker wb)"]
    by (simp add: prod_eq_iff case_prod_beta)
next
  case Login
  then show ?thesis
    using login_handler_forget [of client status req resp w "(wb_auth wb, wb_cookie wb)"]
    by (simp add: prod_eq_iff case_prod_beta)
next
  case Web_User_Mgmt
  then show ?thesis
    using users_handler_forget [of client status req resp w "(as_users (wb_auth wb), fst (wb_users wb))" "snd (wb_users wb)"]
    by (simp add: prod_eq_iff case_prod_beta)
next
  case Webui_Upload
  then show ?thesis
    using upload_handler_forget [of client status req resp w "wb_upload wb"] by (simp add: prod_eq_iff case_prod_beta)
next
  case Webui_Mkdir
  then show ?thesis
    using mkdir_handler_forget [of client status req resp w "wb_mkdir wb"] by (simp add: prod_eq_iff case_prod_beta)
next
  case Webui_Delete
  then show ?thesis
    by (cases "webui_delete_handler fs fuel client status resp w")
      (auto simp: webui_delete_forget sys_forget(1))
next
  case System_Reboot
  then show ?thesis by (simp add: reboot_handler_def reboot_def other_forget sys_forget(1) case_prod_beta)
qed (simp add: sys_forget(1) case_prod_beta)

text \<open>Two worlds that are equal once wiped.\<close>

lemma serve_alike:
  assumes "forget w1 = forget w2"
  shows "map_option (apsnd (apsnd forget)) (serve sys zb kn bt fs fuel ep client status req resp (wb, w1)) =
    map_option (apsnd (apsnd forget)) (serve sys zb kn bt fs fuel ep client status req resp (wb, w2))"
  using serve_forget [of fuel ep client status req resp wb w1] serve_forget [of fuel ep client status req resp wb w2] assms
  by (simp del: serve.simps)

end

context password_hidden begin

lemma serve_all_alike:
  "forget w1 = forget w2 \<Longrightarrow> map_option (apsnd (apsnd forget)) (serve_all sys zb kn bt fs fuel rs (wb, w1)) =
     map_option (apsnd (apsnd forget)) (serve_all sys zb kn bt fs fuel rs (wb, w2))"
proof (induction rs arbitrary: wb w1 w2)
  case (Cons r rs)
  obtain ep client status req resp where r: "r = (ep, client, status, req, resp)" by (metis prod_cases5)
  let ?serve = "serve sys zb kn bt fs fuel ep client status req resp"
  note one = serve_alike [OF Cons.prems, of fuel ep client status req resp wb]
  show ?case
  proof (cases "?serve (wb, w1)")
    case None
    then show ?thesis using one by (simp add: r del: serve.simps)
  next
    case (Some x)
    obtain a wb' w1' where x: "x = (a, (wb', w1'))" by (metis prod_cases3)
    then obtain w2' where 2: "?serve (wb, w2) = Some (a, (wb', w2'))" and w': "forget w1' = forget w2'"
      using one Some by (cases "?serve (wb, w2)") (auto simp del: serve.simps)
    have map: "map_option (apsnd (apsnd forget)) (map_option (apfst (Cons a)) res) =
        map_option (apfst (Cons a)) (map_option (apsnd (apsnd forget)) res)" for res :: "(answer list \<times> 'w web) option"
      by (cases res) (auto simp: apfst_def apsnd_def map_prod_def split: prod.split)
    show ?thesis using Cons.IH [OF w', of wb'] Some 2 by (simp add: r x map del: serve.simps)
  qed
qed simp

end

text \<open>
  Any services and any function: one that does not wipe as it should is replaced by the
  identity, which hides nothing.
\<close>

definition wipe :: "'w sys_api \<Rightarrow> 'w zbus_api \<Rightarrow> 'w kernel_api \<Rightarrow> 'w boot_api \<Rightarrow> 'w fs_api \<Rightarrow> ('w \<Rightarrow> 'w) \<Rightarrow> 'w \<Rightarrow> 'w" where
  "wipe sys zb kn bt fs f = (if forgets sys zb kn bt fs f then f else (\<lambda>w. w))"

interpretation server: password_hidden sys zb kn bt fs "wipe sys zb kn bt fs f" for sys zb kn bt fs f
  by unfold_locales (simp add: wipe_def forgets_def apsnd_def map_prod_def case_prod_beta)

section \<open>Properties\<close>

text \<open>
  C8. The password of the broker stays secret: two devices that differ in the stored
  password only give the same answers to any sequence of requests, to whatever resources,
  in whatever pieces and with whatever bodies and headers, new settings and uploads included,
  as long as uninitialised memory does not hold it.
\<close>

theorem broker_password_stays_secret:
  assumes "forgets sys zb kn bt fs forget" and "forget w1 = forget w2"
  shows "map_option fst (serve_all sys zb kn bt fs fuel rs (wb, w1)) =
    map_option fst (serve_all sys zb kn bt fs fuel rs (wb, w2))"
proof -
  have "wipe sys zb kn bt fs forget = forget" using assms(1) by (simp add: wipe_def)
  with server.serve_all_alike [of sys zb kn bt fs forget w1 w2 fuel rs wb] assms(2)
  have "map_option fst (map_option (apsnd (apsnd forget)) (serve_all sys zb kn bt fs fuel rs (wb, w1))) =
      map_option fst (map_option (apsnd (apsnd forget)) (serve_all sys zb kn bt fs fuel rs (wb, w2)))"
    by simp
  then show ?thesis by (simp add: option.map_comp comp_def)
qed

definition demo_forget :: "demo_world \<Rightarrow> demo_world" where
  "demo_forget w = w\<lparr>dw_settings := filter (\<lambda>(k, v). k \<noteq> mqtt_pass_settings) (dw_settings w)\<rparr>"

lemma demo_forget_load: "k \<noteq> mqtt_pass_settings \<Longrightarrow> demo_load (demo_forget w) k n = demo_load w k n"
proof -
  assume k: "k \<noteq> mqtt_pass_settings"
  have "map_of (filter (\<lambda>(k, v). k \<noteq> mqtt_pass_settings) kvs) k = map_of kvs k" for kvs :: "(string \<times> byte list) list"
    by (induction kvs) (use k in auto)
  then show ?thesis by (simp add: demo_load_def demo_forget_def)
qed

lemma demo_forgets: "forgets demo_sys demo_zbus demo_ha_kernel demo_bt demo_no_fs demo_forget"
proof -
  have "demo_forget (demo_forget w) = demo_forget w" for w by (simp add: demo_forget_def)
  moreover have "demo_save (demo_forget w) k v = apsnd demo_forget (demo_save w k v)" if "k \<noteq> mqtt_pass_settings" for w k v
    using that by (simp add: demo_save_def demo_forget_def)
  moreover have "demo_forget (snd (demo_save (demo_forget w) mqtt_pass_settings v)) =
      demo_forget (snd (demo_save w mqtt_pass_settings v))" for w v
    by (simp add: demo_save_def demo_forget_def)
  ultimately show ?thesis
    by (simp add: forgets_def demo_sys_def demo_forget_load)
      (simp add: demo_forget_def demo_zbus_def demo_ha_kernel_def demo_kernel_def demo_bt_def demo_no_fs_def)
qed

theorem broker_password_stays_secret_witness:
  "\<exists>as. as \<noteq> [] \<and> (\<forall>pass \<in> {''x'', ''secret''}.
     map_option fst (serve_all demo_sys demo_zbus demo_ha_kernel demo_bt demo_no_fs 0
       [(Mqtt_Settings, get_client, HTTP_SERVER_DATA_FINAL, with_body [], demo_resp)]
       (web_state_init demo_auth, snd (settings_save_one demo_sys demo_init mqtt_pass_settings pass))) = Some as)"
proof -
  let ?rs = "[(Mqtt_Settings, get_client, HTTP_SERVER_DATA_FINAL, with_body [], demo_resp)]"
  let ?w = "\<lambda>pass. snd (settings_save_one demo_sys demo_init mqtt_pass_settings pass)"
  have "demo_forget (?w p) = demo_forget demo_init" for p by (simp add: demo_forget_def demo_sys_def demo_save_def)
  then have eq: "map_option fst (serve_all demo_sys demo_zbus demo_ha_kernel demo_bt demo_no_fs 0 ?rs (web_state_init demo_auth, ?w ''x'')) =
      map_option fst (serve_all demo_sys demo_zbus demo_ha_kernel demo_bt demo_no_fs 0 ?rs (web_state_init demo_auth, ?w ''secret''))"
    by (intro broker_password_stays_secret [OF demo_forgets]) simp
  obtain a s where s: "serve_all demo_sys demo_zbus demo_ha_kernel demo_bt demo_no_fs 0 ?rs (web_state_init demo_auth, ?w ''x'') = Some ([a], s)"
    by (simp add: case_prod_beta)
  then show ?thesis using eq by (intro exI [of _ "[a]"]) simp
qed

end
