(* ===== verification/Web_Root.thy ===== *)
theory Web_Root
  imports Firmware
begin

text \<open>
  What requests do to the file system as a whole: of all the resources only three reach it,
  and two of them, the upload and the deletion, stay at and below the directory of the web
  page. The third one, which makes directories, may leave it, but never changes what exists.
\<close>

section \<open>At and below the web root\<close>

definition at_web_root :: "string list \<Rightarrow> bool" where
  "at_web_root q \<longleftrightarrow> (\<exists>below. q = place base_web_ui_fs_path @ below)"

definition web_path :: "string \<Rightarrow> bool" where
  "web_path p \<longleftrightarrow> mounted p \<and> at_web_root (place p)"

lemma web_path_base [simp]: "web_path base_web_ui_fs_path"
  by (simp add: web_path_def at_web_root_def)

lemma web_path_child: "web_path p \<Longrightarrow> proper_name name \<Longrightarrow> web_path (child_path p name)"
  by (auto simp: web_path_def at_web_root_def place_child)

text \<open>The paths the deletion builds; the array it builds them in is not overrun.\<close>

lemma web_path_join:
  assumes "web_path p" and "\<not> fst (join_path n p name) < 0" and "proper_name name"
  shows "web_path (snd (join_path n p name))"
  using assms web_path_child [of p name] by (auto simp: join_path_def Let_def errno split: if_splits)

section \<open>What the firmware relies on\<close>

text \<open>The other services leave the files alone; the settings have a partition of their own.\<close>

definition others_keep_files :: "'w sys_api \<Rightarrow> 'w zbus_api \<Rightarrow> 'w kernel_api \<Rightarrow> 'w boot_api \<Rightarrow> 'w fs_view \<Rightarrow> bool" where
  "others_keep_files sys zb kn bt v \<longleftrightarrow> sys_keeps sys (fv_node v) \<and> outputs_keep zb (fv_node v) \<and>
     (\<forall>w. fv_node v (k_sleep kn w) = fv_node v w) \<and> (\<forall>w. fv_node v (sys_reboot bt w) = fv_node v w)"

text \<open>What is beyond the web root, as a view of the world.\<close>

definition beyond :: "'w fs_view \<Rightarrow> 'w \<Rightarrow> string list \<Rightarrow> fs_node option" where
  "beyond v w q = (if at_web_root q then None else fv_node v w q)"

lemma fs_beyond:
  assumes laws: "fs_paths_lawful fs v"
  shows "web_path p \<Longrightarrow> beyond v (snd (fs_unlink fs w p)) = beyond v w"
    and "web_path p \<Longrightarrow> beyond v (snd (fs_mkdir fs w p)) = beyond v w"
    and "beyond v (snd (snd (fs_opendir fs w p))) = beyond v w"
    and "beyond v (snd (snd (fs_readdir fs w h))) = beyond v w" and "beyond v (fs_closedir fs w h) = beyond v w"
proof -
  have "q \<noteq> place p" if "web_path p" "\<not> at_web_root q" for q using that by (auto simp: web_path_def)
  then show "web_path p \<Longrightarrow> beyond v (snd (fs_unlink fs w p)) = beyond v w"
    "web_path p \<Longrightarrow> beyond v (snd (fs_mkdir fs w p)) = beyond v w"
    by (simp_all add: fun_eq_iff beyond_def paths_other [OF laws])
qed (simp_all add: fun_eq_iff beyond_def paths_same [OF laws])

lemma entry_name:
  assumes "fs_paths_lawful fs v" and "de_name (fst (snd (fs_readdir fs w h))) \<notin> {[], ''.'', ''..''}"
  shows "proper_name (de_name (fst (snd (fs_readdir fs w h))))"
  using assms unfolding fs_paths_lawful_def proper_name_def by blast

section \<open>The three resources\<close>

lemma upload_beyond:
  assumes "fs_paths_lawful fs v"
  shows "beyond v (snd (http_upload fs base_web_ui_fs_path url body resp w)) = beyond v w"
proof -
  let ?u = "http_upload fs base_web_ui_fs_path url body resp w"
  have "fv_node v (snd ?u) q = fv_node v w q" if "\<not> at_web_root q" for q
    using upload_stays_below_root [OF assms web_root_place(2), of url body resp w "fst ?u" "snd ?u" q] that
    by (auto simp: at_web_root_def)
  then show ?thesis by (simp add: fun_eq_iff beyond_def)
qed

lemma delete_tree_beyond:
  assumes "fs_paths_lawful fs v"
  shows "web_path path \<Longrightarrow> fs_delete_tree fs k w path = Some r \<Longrightarrow> beyond v (snd r) = beyond v w"
    and "web_path path \<Longrightarrow> fs_delete_loop fs k w path dir = Some r \<Longrightarrow> beyond v (snd r) = beyond v w"
proof (induction k arbitrary: w path dir r and w path dir r)
  case (Suc k)
  {
    case 1
    then show ?case using Suc.IH
      by (auto simp: case_prod_beta Let_def fs_beyond [OF assms] split: if_splits)
  next
    case 2
    have "web_path (snd (join_path PATH_MAX path (de_name (fst (snd (fs_readdir fs w dir))))))"
      if "\<not> fst (join_path PATH_MAX path (de_name (fst (snd (fs_readdir fs w dir))))) < 0"
        and "de_name (fst (snd (fs_readdir fs w dir))) \<notin> {[], ''.'', ''..''}"
      using that by (intro web_path_join entry_name [OF assms] 2(1))
    then show ?case using 2 Suc.IH
      by (auto simp: case_prod_beta Let_def fs_beyond [OF assms] split: if_splits option.splits)
  }
qed simp_all

lemma delete_beyond:
  assumes "fs_paths_lawful fs v" and "webui_delete_handler fs fuel client status resp w = Some (r, w')"
  shows "beyond v w' = beyond v w"
proof -
  have "beyond v w' = beyond v w" if d: "delete_web_ui_files fs fuel w = Some (rc, w')" for rc
  proof -
    obtain rc1 w1 where t: "fs_delete_tree fs fuel w base_web_ui_fs_path = Some (rc1, w1)"
      and m: "fs_mkdir fs (snd (fs_unlink fs w1 base_web_ui_fs_path)) base_web_ui_fs_path = (rc, w')"
      using d by (cases "fs_delete_tree fs fuel w base_web_ui_fs_path") (auto simp: delete_web_ui_files_def)
    from m have "w' = snd (fs_mkdir fs (snd (fs_unlink fs w1 base_web_ui_fs_path)) base_web_ui_fs_path)" by simp
    then show ?thesis using delete_tree_beyond(1) [OF assms(1) web_path_base t] by (simp add: fs_beyond [OF assms(1)])
  qed
  then show ?thesis using assms(2) by (auto simp: webui_delete_handler_def split: if_splits option.splits)
qed

lemma mkdir_node:
  assumes "fs_paths_lawful fs v"
  shows "fv_node v (snd (mkdir_post sys fs resp body w)) q = fv_node v w q \<or>
    fv_node v w q = None \<and> fv_node v (snd (mkdir_post sys fs resp body w)) q = Some Dir"
proof -
  have "fv_node v (snd (fs_mkdir fs w p)) q = fv_node v w q \<or>
      fv_node v w q = None \<and> fv_node v (snd (fs_mkdir fs w p)) q = Some Dir" for p
    using assms unfolding fs_paths_lawful_def by blast
  then show ?thesis by (simp add: mkdir_post_def mkdir_web_ui_files_def Let_def case_prod_beta)
qed

lemma mkdir_handler_node:
  assumes "fs_paths_lawful fs v" and "mkdir_web_ui_handler sys fs client status req resp (w, pc) = (r, (w', pc'))"
  shows "fv_node v w' q = fv_node v w q \<or> fv_node v w q = None \<and> fv_node v w' q = Some Dir"
  using assms(2) mkdir_node [OF assms(1), of sys resp _ w q]
  by (auto simp: mkdir_web_ui_handler_def post_step_def Let_def case_prod_beta split: if_splits post_result.splits)

section \<open>Any request\<close>

lemma serve_beyond:
  assumes fs: "fs_paths_lawful fs v" and oth: "others_keep_files sys zb kn bt v"
    and s: "serve sys zb kn bt fs fuel ep client status req resp (wb, w) = Some (r, (wb', w'))" and q: "\<not> at_web_root q"
  shows "fv_node v w' q = fv_node v w q \<or> ep = Webui_Mkdir \<and> fv_node v w q = None \<and> fv_node v w' q = Some Dir"
proof -
  have at: "fv_node v w' q = fv_node v w q" if "beyond v w' = beyond v w"
    using fun_cong [OF that, of q] q by (simp add: beyond_def)
  have keep: "sys_keeps sys (fv_node v)" "outputs_keep zb (fv_node v)"
    "fv_node v (k_sleep kn x) = fv_node v x" "fv_node v (sys_reboot bt x) = fv_node v x" for x
    using oth by (simp_all add: others_keep_files_def)
  consider "ep = Webui_Upload" | "ep = Webui_Mkdir" | "ep = Webui_Delete" | "ep = System_Reboot"
    | "ep \<notin> {Webui_Upload, Webui_Mkdir, Webui_Delete}" "ep \<noteq> System_Reboot" by blast
  then show ?thesis
  proof cases
    case 1
    with s show ?thesis
      by (intro disjI1 at)
        (auto simp: webui_chunk_put_def upload_beyond [OF fs] case_prod_beta Let_def split: if_splits post_result.splits)
  next
    case 2
    with s obtain pc' where "mkdir_web_ui_handler sys fs client status req resp (w, wb_mkdir wb) = (r, (w', pc'))"
      by (auto simp: case_prod_beta prod_eq_iff)
    from mkdir_handler_node [OF fs this, of q] 2 show ?thesis by simp
  next
    case 3
    with s have "webui_delete_handler fs fuel client status resp w = Some (r, w')" by auto
    from at [OF delete_beyond [OF fs this]] show ?thesis ..
  next
    case 4
    with s show ?thesis by (auto simp: reboot_handler_def reboot_def keep split: if_splits)
  next
    case 5
    then have "fv_node v w' = fv_node v w" using serve_keeps [OF keep(1) keep(2) _ _ s] by blast
    then show ?thesis by simp
  qed
qed

section \<open>Properties\<close>

text \<open>
  C9. Requests stay inside the web root: after any sequence of requests, to whatever
  resources, with whatever URLs and bodies, everything that existed beyond the directory of
  the web page is as it was, and what is new there is at most an empty directory that a
  request to make one has left.
\<close>

theorem requests_stay_in_web_root:
  assumes "fs_paths_lawful fs v" and "others_keep_files sys zb kn bt v"
    and "serve_all sys zb kn bt fs fuel rs (wb, w) = Some (as, (wb', w'))" and "\<not> at_web_root q"
  shows "fv_node v w' q = fv_node v w q \<or>
    Webui_Mkdir \<in> fst ` set rs \<and> fv_node v w q = None \<and> fv_node v w' q = Some Dir"
  using assms(3)
proof (induction rs arbitrary: wb w as)
  case (Cons r rs)
  obtain ep client status req resp where r: "r = (ep, client, status, req, resp)" by (metis prod_cases5)
  from Cons.prems obtain a wb1 w1 as' where
    1: "serve sys zb kn bt fs fuel ep client status req resp (wb, w) = Some (a, (wb1, w1))"
    and 2: "serve_all sys zb kn bt fs fuel rs (wb1, w1) = Some (as', (wb', w'))"
    by (auto simp: r split: option.splits)
  from serve_beyond [OF assms(1,2) 1 assms(4)] Cons.IH [OF 2] show ?case by (auto simp: r)
qed simp

text \<open>
  An instance: the services of the other demonstrations without a state of their own.
\<close>

definition demo_web_zbus :: "demo_fsw zbus_api" where
  "demo_web_zbus = \<lparr>zbus_read_outputs = (\<lambda>w. (0, \<lparr>om_seq = 0, om_state = 0\<rparr>)), zbus_pub_outputs = (\<lambda>w m. (0, w)),
     zbus_read_inputs = (\<lambda>w. (0, \<lparr>im_seq = 0, im_state = 0\<rparr>)),
     zbus_read_mqtt = (\<lambda>w. (0, \<lparr>mq_seq = 0, mq_enabled = False, mq_connected = False\<rparr>)), zbus_pub_mqtt = (\<lambda>w m. (0, w))\<rparr>"

lemma demo_others_keep_files: "others_keep_files demo_web_sys demo_web_zbus demo_web_kernel demo_bt demo_view"
  by (simp add: others_keep_files_def sys_keeps_def outputs_keep_def demo_web_sys_def demo_web_zbus_def demo_web_kernel_def demo_bt_def)

definition demo_web_world :: demo_fsw where
  "demo_web_world = \<lparr>df_nodes = [([''lfs''], Dir), ([''lfs'', ''www''], Dir), ([''lfs'', ''www'', ''a''], File ''x''), ([''lfs'', ''keep''], File ''k'')], df_open = []\<rparr>"

text \<open>A request that clears the web page, one that uploads a file and one that makes a directory.\<close>

definition demo_web_requests :: "request list" where
  "demo_web_requests =
     [(Webui_Delete, \<lparr>req_method = HTTP_DELETE, url_buffer = []\<rparr>, HTTP_SERVER_DATA_FINAL, with_body [], demo_resp),
      (Webui_Upload, \<lparr>req_method = HTTP_POST, url_buffer = upload_url ''b'' 0\<rparr>, HTTP_SERVER_DATA_FINAL, with_body ''y'', demo_resp),
      (Webui_Mkdir, post_client, HTTP_SERVER_DATA_FINAL, with_body ''a'', demo_resp)]"

lemma demo_web_run:
  "map_option (\<lambda>(as, (wb, w)). (map (resp_status \<circ> snd) as, demo_node w [''lfs'', ''www'', ''a''], demo_node w [''lfs'', ''www'', ''b'']))
     (serve_all demo_web_sys demo_web_zbus demo_web_kernel demo_bt demo_fs 4 demo_web_requests
       (web_state_init demo_auth, demo_web_world)) =
   Some ([HTTP_200_OK, HTTP_200_OK, HTTP_200_OK], Some Dir, Some (File ''y''))"
  by code_simp

theorem requests_stay_in_web_root_witness:
  "\<exists>as wb w. serve_all demo_web_sys demo_web_zbus demo_web_kernel demo_bt demo_fs 4 demo_web_requests
      (web_state_init demo_auth, demo_web_world) = Some (as, (wb, w)) \<and>
     demo_node w [''lfs'', ''www'', ''b''] = Some (File ''y'') \<and> demo_node w [''lfs'', ''keep''] = Some (File ''k'')"
proof -
  obtain as wb w where s: "serve_all demo_web_sys demo_web_zbus demo_web_kernel demo_bt demo_fs 4 demo_web_requests
      (web_state_init demo_auth, demo_web_world) = Some (as, (wb, w))" and b: "demo_node w [''lfs'', ''www'', ''b''] = Some (File ''y'')"
    using demo_web_run by (auto simp del: serve_all.simps)
  have "\<not> at_web_root [''lfs'', ''keep'']" by (simp add: at_web_root_def)
  from requests_stay_in_web_root [OF demo_paths_lawful demo_others_keep_files s this]
  have "demo_node w [''lfs'', ''keep''] = demo_node demo_web_world [''lfs'', ''keep'']"
    by (auto simp: demo_node_def demo_web_world_def)
  also have "\<dots> = Some (File ''k'')" by code_simp
  finally show ?thesis using s b by blast
qed

end
