(* ===== verification/Delete_Tree.thy ===== *)
theory Delete_Tree
  imports Web_Files "HOL-Library.Sublist"
begin

text \<open>
  What \<open>DELETE /api/webui/delete\<close> does to any tree, however deep. The loops of
  \<open>fs_delete_tree\<close> end: each round takes a node away or gives up, so twice the number of nodes
  in the tree is enough fuel. The answer is honest, although the function's own result is not:
  200 is sent exactly when the web root is an empty directory again.
\<close>

section \<open>File systems that are trees\<close>

text \<open>
  Finitely many nodes, entries with proper and different names, and every node but those at
  the top listed in an existing directory.
\<close>

definition fs_tree :: "'w fs_view \<Rightarrow> 'w \<Rightarrow> bool" where
  "fs_tree v w \<longleftrightarrow> finite {q. fv_node v w q \<noteq> None} \<and>
     (\<forall>q. distinct (map de_name (fv_list v w q)) \<and> (\<forall>e \<in> set (fv_list v w q). proper_name (de_name e))) \<and>
     (\<forall>q name. q \<noteq> [] \<longrightarrow> fv_node v w (q @ [name]) \<noteq> None \<longrightarrow>
        fv_node v w q = Some Dir \<and> name \<in> de_name ` set (fv_list v w q))"

text \<open>The number of nodes at a place and below it.\<close>

definition nodes_at :: "'w fs_view \<Rightarrow> 'w \<Rightarrow> string list \<Rightarrow> string list set" where
  "nodes_at v w q = {r. prefix q r \<and> fv_node v w r \<noteq> None}"

definition tree_size :: "'w fs_view \<Rightarrow> 'w \<Rightarrow> string list \<Rightarrow> nat" where
  "tree_size v w q = card (nodes_at v w q)"

definition only_removed :: "'w fs_view \<Rightarrow> string list \<Rightarrow> 'w \<Rightarrow> 'w \<Rightarrow> bool" where
  "only_removed v q w w' \<longleftrightarrow>
     (\<forall>r. fv_node v w' r = fv_node v w r \<or> (prefix q r \<and> fv_node v w' r = None))"

lemma fs_tree_cong: "same_files v w w' \<Longrightarrow> fs_tree v w' \<longleftrightarrow> fs_tree v w"
  by (simp add: same_files_def fs_tree_def)

lemma tree_size_cong: "same_files v w w' \<Longrightarrow> tree_size v w' q = tree_size v w q"
  by (simp add: same_files_def tree_size_def nodes_at_def)

lemma same_files_trans [trans]: "same_files v w w1 \<Longrightarrow> same_files v w1 w2 \<Longrightarrow> same_files v w w2"
  by (simp add: same_files_def)

lemma only_removed_same: "same_files v w w' \<Longrightarrow> only_removed v q w w'"
  by (simp add: only_removed_def same_files_def)

lemma only_removed_trans [trans]:
  "only_removed v q w w1 \<Longrightarrow> only_removed v q w1 w2 \<Longrightarrow> only_removed v q w w2"
  unfolding only_removed_def by metis

lemma only_removed_below: "only_removed v (q @ s) w w' \<Longrightarrow> only_removed v q w w'"
  unfolding only_removed_def by (meson append_prefixD)

lemma only_removed_keeps: "only_removed v q w w' \<Longrightarrow> \<not> prefix q r \<Longrightarrow> fv_node v w' r = fv_node v w r"
  unfolding only_removed_def by blast

lemma fs_tree_entries:
  "fs_tree v w \<Longrightarrow> distinct (map de_name (fv_list v w q))"
  "fs_tree v w \<Longrightarrow> e \<in> set (fv_list v w q) \<Longrightarrow> proper_name (de_name e)"
  by (simp_all add: fs_tree_def)

lemma fs_tree_parent:
  assumes "fs_tree v w" and "q \<noteq> []" and "fv_node v w (q @ [name]) \<noteq> None"
  shows "fv_node v w q = Some Dir" and "name \<in> de_name ` set (fv_list v w q)"
proof -
  have "\<forall>q name. q \<noteq> [] \<longrightarrow> fv_node v w (q @ [name]) \<noteq> None \<longrightarrow>
      fv_node v w q = Some Dir \<and> name \<in> de_name ` set (fv_list v w q)"
    using assms(1) unfolding fs_tree_def by (elim conjE)
  with assms(2,3) show "fv_node v w q = Some Dir" and "name \<in> de_name ` set (fv_list v w q)" by blast+
qed

lemma finite_nodes_at: "fs_tree v w \<Longrightarrow> finite (nodes_at v w q)"
  unfolding fs_tree_def nodes_at_def by (auto elim!: finite_subset [rotated])

lemma tree_size_child:
  assumes "fs_tree v w" and "fv_node v w q \<noteq> None"
  shows "tree_size v w (q @ [n]) < tree_size v w q"
proof -
  have "nodes_at v w (q @ [n]) \<subseteq> nodes_at v w q" by (auto simp: nodes_at_def dest: append_prefixD)
  moreover have "q \<in> nodes_at v w q" "q \<notin> nodes_at v w (q @ [n])" using assms(2) by (simp_all add: nodes_at_def)
  ultimately have "nodes_at v w (q @ [n]) \<subset> nodes_at v w q" by blast
  then show ?thesis unfolding tree_size_def by (intro psubset_card_mono finite_nodes_at assms(1))
qed

lemma tree_size_delete:
  assumes "fs_tree v w" and "fv_node v w (q @ [n]) \<noteq> None" and "fv_node v w' = (fv_node v w)(q @ [n] := None)"
  shows "tree_size v w' q < tree_size v w q"
proof -
  have "nodes_at v w' q = nodes_at v w q - {q @ [n]}" by (auto simp: nodes_at_def assms(3))
  moreover have "q @ [n] \<in> nodes_at v w q" using assms(2) by (simp add: nodes_at_def)
  ultimately have "nodes_at v w' q \<subset> nodes_at v w q" by blast
  then show ?thesis unfolding tree_size_def by (intro psubset_card_mono finite_nodes_at assms(1))
qed

lemma tree_size_pos: "fs_tree v w \<Longrightarrow> fv_node v w q \<noteq> None \<Longrightarrow> 0 < tree_size v w q"
  unfolding tree_size_def by (intro card_gt_0_iff [THEN iffD2] conjI finite_nodes_at) (auto simp: nodes_at_def)

text \<open>Removing a node leaves a tree.\<close>

lemma unlink_tree:
  assumes law: "fs_unlink_lawful fs v" "below_mount p" "fs_unlink fs w p = (rc, w')" and tree: "fs_tree v w"
  shows "fs_tree v w'" and "only_removed v (place p) w w'"
proof -
  note u = unlink_law [OF law]
  show "only_removed v (place p) w w'"
    using u by (auto simp: only_removed_def same_files_def split: if_splits)
  show "fs_tree v w'"
  proof (cases "fv_node v w (place p) = None \<or> (fv_node v w (place p) = Some Dir \<and> fv_list v w (place p) \<noteq> [])")
    case True
    with u have "same_files v w w'" by simp
    with tree show ?thesis by (simp only: fs_tree_cong [of v w w'])
  next
    case False
    with u have n: "fv_node v w' = (fv_node v w)(place p := None)"
      and l: "\<And>q. fv_list v w' q = (if q = place p then [] else filter (\<lambda>e. q @ [de_name e] \<noteq> place p) (fv_list v w q))"
      by (simp_all del: fun_upd_apply)
    have "finite {q. fv_node v w' q \<noteq> None}"
      using tree unfolding fs_tree_def n by (auto elim!: finite_subset [rotated])
    moreover have "distinct (map de_name (fv_list v w' q))" "\<forall>e \<in> set (fv_list v w' q). proper_name (de_name e)" for q
      using tree unfolding fs_tree_def l by (auto simp: distinct_map_filter)
    moreover have "fv_node v w' q = Some Dir \<and> name \<in> de_name ` set (fv_list v w' q)"
      if "q \<noteq> []" and "fv_node v w' (q @ [name]) \<noteq> None" for q name
    proof -
      have x: "q @ [name] \<noteq> place p" "fv_node v w (q @ [name]) \<noteq> None" using that(2) by (auto simp: n split: if_splits)
      with tree that(1) have y: "fv_node v w q = Some Dir" "name \<in> de_name ` set (fv_list v w q)"
        unfolding fs_tree_def by blast+
      with False have "q \<noteq> place p" by auto
      with x y show ?thesis by (auto simp: n l)
    qed
    ultimately show ?thesis unfolding fs_tree_def by blast
  qed
qed


section \<open>The loops end\<close>

text \<open>A run that ends and has only taken nodes at or below a place.\<close>

definition deletes :: "'w fs_view \<Rightarrow> 'w \<Rightarrow> string list \<Rightarrow> (int \<times> 'w) option \<Rightarrow> bool" where
  "deletes v w q res \<longleftrightarrow> (\<exists>rc w'. res = Some (rc, w') \<and> fs_tree v w' \<and> only_removed v q w w')"

lemma deletes_after:
  assumes "deletes v w1 q res" and "only_removed v q w w1"
  shows "deletes v w q res"
proof -
  obtain rc w' where "res = Some (rc, w')" "fs_tree v w'" "only_removed v q w1 w'"
    using assms(1) unfolding deletes_def by blast
  with only_removed_trans [OF assms(2)] show ?thesis by (simp add: deletes_def)
qed

lemma deletes_same:
  assumes "fs_tree v w" and "same_files v w w'"
  shows "deletes v w q (Some (rc, w'))"
  using assms(1) fs_tree_cong [OF assms(2)] only_removed_same [OF assms(2)] by (simp add: deletes_def)

lemma deletes_unlink:
  assumes "fs_unlink_lawful fs v" and "below_mount p" and "fs_tree v w"
  shows "deletes v w (place p) (Some (fs_unlink fs w p))"
proof -
  obtain rc w' where u: "fs_unlink fs w p = (rc, w')" by (metis prod.collapse)
  from unlink_tree [OF assms(1,2) u assms(3)] u show ?thesis by (simp add: deletes_def)
qed

text \<open>The end of a directory: its handle is closed and the directory is removed.\<close>

lemma delete_loop_end:
  assumes laws: "fs_unlink_lawful fs v" "fs_dir_lawful fs v" and p: "below_mount path"
    and tree: "fs_tree v w" and "fv_rest v w h = []"
  shows "deletes v w (place path) (fs_delete_loop fs (Suc k) w path h)"
proof -
  obtain rc e w1 where r: "fs_readdir fs w h = (rc, e, w1)" by (metis prod.collapse)
  note rd = readdir_rest [OF laws(2) r]
  let ?w2 = "fs_closedir fs w1 h"
  have same: "same_files v w ?w2" by (rule same_files_trans [OF rd(1) closedir_same [OF laws(2)]])
  with tree have "deletes v ?w2 (place path) (Some (fs_unlink fs ?w2 path))"
    by (intro deletes_unlink laws p) (simp only: fs_tree_cong)
  then have "deletes v w (place path) (Some (fs_unlink fs ?w2 path))"
    by (rule deletes_after) (rule only_removed_same [OF same])
  with r rd(2) rd(3) [OF assms(5)] show ?thesis by simp
qed

text \<open>After a sub-directory has been tried: the handle is opened again and the directory itself is removed.\<close>

lemma delete_loop_reopen:
  assumes laws: "fs_unlink_lawful fs v" "fs_dir_lawful fs v" and p: "below_mount path"
    and tree: "fs_tree v w" and dir: "fv_node v w (place path) = Some Dir" and k: "0 < k"
  shows "deletes v w (place path)
    (let (_, dir', w3) = fs_opendir fs w path in
     if rc < 0 then Some (rc, fs_closedir fs w3 dir')
     else let (rc, w4) = fs_unlink fs w3 path
          in if rc < 0 then Some (rc, fs_closedir fs w4 dir') else fs_delete_loop fs k w4 path dir')"
proof -
  obtain rc3 h w3 where o: "fs_opendir fs w path = (rc3, h, w3)" by (metis prod.collapse)
  note od = opendir_dir [OF laws(2) p o dir]
  then have same: "same_files v w w3" by simp
  then have tree3: "fs_tree v w3" using tree by (simp only: fs_tree_cong)
  obtain rc4 w4 where u: "fs_unlink fs w3 path = (rc4, w4)" by (metis prod.collapse)
  note ut = unlink_tree [OF laws(1) p u tree3]
  have ow4: "only_removed v (place path) w w4" by (rule only_removed_trans [OF only_removed_same [OF same] ut(2)])
  have fail: "deletes v w (place path) (Some (rc, fs_closedir fs w3 h))"
    by (rule deletes_same [OF tree same_files_trans [OF same closedir_same [OF laws(2)]]])
  have stop: "deletes v w (place path) (Some (rc4, fs_closedir fs w4 h))"
    by (rule deletes_after [OF deletes_same [OF ut(1) closedir_same [OF laws(2)]] ow4])
  have go: "deletes v w (place path) (fs_delete_loop fs k w4 path h)" if "\<not> rc4 < 0"
  proof -
    have "fv_node v w3 (place path) = Some Dir" using same dir by (simp add: same_files_def)
    with unlink_law [OF laws(1) p u] that have "fv_list v w3 (place path) = []" "fv_rest v w4 = fv_rest v w3"
      by (auto split: if_splits)
    with od same have "fv_rest v w4 h = []" by (simp add: same_files_def)
    from delete_loop_end [OF laws p ut(1) this, of "k - 1"] k
    show ?thesis by (intro deletes_after [OF _ ow4]) simp
  qed
  show ?thesis using fail stop go by (simp add: o u)
qed

lemma delete_tree_ends_both:
  assumes laws: "fs_unlink_lawful fs v" "fs_dir_lawful fs v"
  shows "(\<forall>w path. below_mount path \<longrightarrow> fs_tree v w \<longrightarrow> 2 * tree_size v w (place path) < k \<longrightarrow>
       deletes v w (place path) (fs_delete_tree fs k w path)) \<and>
    (\<forall>w path h. below_mount path \<longrightarrow> fs_tree v w \<longrightarrow> fv_node v w (place path) = Some Dir \<longrightarrow>
       fv_rest v w h = fv_list v w (place path) \<longrightarrow> 2 * tree_size v w (place path) \<le> k \<longrightarrow>
       deletes v w (place path) (fs_delete_loop fs k w path h))"
proof (induction k)
  case 0
  then show ?case using tree_size_pos by fastforce
next
  case (Suc k)
  have tree: "deletes v w (place path) (fs_delete_tree fs (Suc k) w path)"
    if p: "below_mount path" and t: "fs_tree v w" and n: "2 * tree_size v w (place path) < Suc k" for w path
  proof -
    obtain rc h w1 where o: "fs_opendir fs w path = (rc, h, w1)" by (metis prod.collapse)
    have od: "same_files v w w1"
      "if fv_node v w (place path) = Some Dir then rc = 0 \<and> fv_rest v w1 h = fv_list v w (place path) else rc < 0"
      using laws(2) p o unfolding fs_dir_lawful_def by blast+
    have t1: "fs_tree v w1" "2 * tree_size v w1 (place path) \<le> k"
      using t n fs_tree_cong [OF od(1)] tree_size_cong [OF od(1), of "place path"] by simp_all
    have "deletes v w1 (place path) (fs_delete_tree fs (Suc k) w path)"
    proof (cases "fv_node v w (place path) = Some Dir")
      case True
      then have "fv_node v w1 (place path) = Some Dir" "fv_rest v w1 h = fv_list v w1 (place path)"
        using od by (simp_all add: same_files_def)
      with Suc.IH p t1 have "deletes v w1 (place path) (fs_delete_loop fs k w1 path h)" by blast
      with True od(2) o p show ?thesis by simp
    next
      case False
      with od(2) o p deletes_unlink [OF laws(1) p t1(1)] show ?thesis by simp
    qed
    then show ?thesis by (rule deletes_after) (rule only_removed_same [OF od(1)])
  qed
  have loop: "deletes v w (place path) (fs_delete_loop fs (Suc k) w path h)"
    if p: "below_mount path" and t: "fs_tree v w" and dir: "fv_node v w (place path) = Some Dir"
      and rest: "fv_rest v w h = fv_list v w (place path)" and n: "2 * tree_size v w (place path) \<le> Suc k" for w path h
  proof (cases "fv_list v w (place path)")
    case Nil
    with delete_loop_end [OF laws p t] rest show ?thesis by simp
  next
    case (Cons d es)
    obtain rc e w1 where r: "fs_readdir fs w h = (rc, e, w1)" by (metis prod.collapse)
    note rd = readdir_rest [OF laws(2) r]
    have e: "rc = 0" "e = d" "fv_rest v w1 h = es" using rd(2) rd(4) [of d es] rest Cons by auto
    have name: "proper_name (de_name d)" "distinct (map de_name (d # es))"
      using fs_tree_entries(2) [OF t, where q = "place path"] fs_tree_entries(1) [OF t, where q = "place path"] Cons by simp_all
    let ?c = "child_path path (de_name d)" and ?q = "place path @ [de_name d]"
    note c = place_child(1) [OF below_mountD [OF p] name(1)] below_mount_child [OF below_mountD [OF p] name(1)]
    have t1: "fs_tree v w1" "tree_size v w1 q = tree_size v w q" for q
      using t fs_tree_cong [OF rd(1)] tree_size_cong [OF rd(1)] by simp_all
    have w1: "fv_node v w1 = fv_node v w" "fv_list v w1 = fv_list v w" using rd(1) by (simp_all add: same_files_def)
    note close = closedir_same [OF laws(2)]
    consider (too_long) "PATH_MAX \<le> length ?c" | (sub_dir) "length ?c < PATH_MAX" "de_type d = FS_DIR_ENTRY_DIR"
      | (plain) "length ?c < PATH_MAX" "de_type d \<noteq> FS_DIR_ENTRY_DIR" by linarith
    then show ?thesis
    proof cases
      case too_long
      then have "fs_delete_loop fs (Suc k) w path h = Some (- ENAMETOOLONG, fs_closedir fs w1 h)"
        using r e name(1) by (simp add: join_path_def proper_name_def errno)
      with deletes_same [OF t same_files_trans [OF rd(1) close]] show ?thesis by simp
    next
      case sub_dir
      let ?w2 = "fs_closedir fs w1 h"
      have same: "same_files v w ?w2" by (rule same_files_trans [OF rd(1) close])
      have t2: "fs_tree v ?w2" "2 * tree_size v ?w2 (place ?c) < k"
        using t fs_tree_cong [OF same] tree_size_cong [OF same] tree_size_child [OF t, of "place path" "de_name d"] dir n c(1)
        by simp_all
      with Suc.IH c(2) have "deletes v ?w2 (place ?c) (fs_delete_tree fs k ?w2 ?c)" by blast
      then obtain rc3 w3 where w3: "fs_delete_tree fs k ?w2 ?c = Some (rc3, w3)" "fs_tree v w3"
        "only_removed v (place ?c) ?w2 w3" unfolding deletes_def by blast
      have "\<not> prefix (place ?c) (place path)" unfolding c(1) by simp
      from only_removed_keeps [OF w3(3) this] same dir have d3: "fv_node v w3 (place path) = Some Dir"
        by (simp add: same_files_def)
      have k: "0 < k" using t2(2) by simp
      have o3: "only_removed v (place path) w w3"
        by (rule only_removed_trans [OF only_removed_same [OF same]]) (rule only_removed_below [OF w3(3) [unfolded c(1)]])
      from delete_loop_reopen [OF laws p w3(2) d3 k, of rc3]
      have "deletes v w3 (place path) (fs_delete_loop fs (Suc k) w path h)"
        using r e name(1) sub_dir w3(1) by (simp add: join_path_def proper_name_def)
      then show ?thesis by (rule deletes_after) (rule o3)
    next
      case plain
      obtain rc2 w2 where u: "fs_unlink fs w1 ?c = (rc2, w2)" by (metis prod.collapse)
      note ut = unlink_tree [OF laws(1) c(2) u t1(1)] and ul = unlink_law [OF laws(1) c(2) u, unfolded c(1) w1]
      have o2: "only_removed v (place path) w w2"
        by (rule only_removed_trans [OF only_removed_same [OF rd(1)]]) (rule only_removed_below [OF ut(2) [unfolded c(1)]])
      have eq: "fs_delete_loop fs (Suc k) w path h =
          (if rc2 < 0 then Some (rc2, fs_closedir fs w2 h) else fs_delete_loop fs k w2 path h)"
        using r e name(1) plain u by (simp add: join_path_def proper_name_def)
      have "deletes v w2 (place path) (fs_delete_loop fs (Suc k) w path h)"
      proof (cases "rc2 < 0")
        case True
        with eq deletes_same [OF ut(1) close] show ?thesis by simp
      next
        case False
        with ul have x: "fv_node v w ?q \<noteq> None" "fv_node v w2 = (fv_node v w)(?q := None)" "fv_rest v w2 = fv_rest v w1"
          "fv_list v w2 (place path) = filter (\<lambda>e. place path @ [de_name e] \<noteq> ?q) (fv_list v w (place path))"
          by (auto split: if_splits simp del: fun_upd_apply)
        have "filter (\<lambda>e. place path @ [de_name e] \<noteq> ?q) (d # es) = es"
          using name(2) by (auto simp: filter_id_conv image_iff)
        then have "fv_rest v w2 h = fv_list v w2 (place path)" using x(3,4) e(3) Cons by simp
        moreover have "fv_node v w2 (place path) = Some Dir" using x(2) dir by simp
        moreover have "2 * tree_size v w2 (place path) \<le> k"
          using tree_size_delete [OF t x(1,2)] n by simp
        ultimately have "deletes v w2 (place path) (fs_delete_loop fs k w2 path h)" using Suc.IH p ut(1) by blast
        with eq False show ?thesis by simp
      qed
      then show ?thesis by (rule deletes_after) (rule o2)
    qed
  qed
  from tree loop show ?case by blast
qed

lemmas delete_tree_ends = delete_tree_ends_both [THEN conjunct1, rule_format]

section \<open>The request\<close>

text \<open>A flat web root has more nodes than entries.\<close>

lemma files_in_size:
  assumes "fs_tree v w" and "files_in v w path (fv_list v w (place path))" and "fv_node v w (place path) = Some Dir"
  shows "length (fv_list v w (place path)) < tree_size v w (place path)"
proof -
  let ?q = "place path" and ?es = "fv_list v w (place path)"
  let ?kids = "(\<lambda>e. ?q @ [de_name e]) ` set ?es"
  have "distinct (map (\<lambda>e. ?q @ [de_name e]) ?es)"
    using assms(2) by (auto simp: files_in_def distinct_map inj_on_def)
  then have "card ?kids = length ?es" using distinct_card by (metis length_map list.set_map)
  moreover have "insert ?q ?kids \<subseteq> nodes_at v w ?q" and "?q \<notin> ?kids"
    using assms(2,3) by (auto simp: files_in_def nodes_at_def)
  ultimately show ?thesis
    unfolding tree_size_def using card_mono [OF finite_nodes_at [OF assms(1)], of "insert ?q ?kids" ?q] by simp
qed

text \<open>Whatever deleting the tree has left and returned: the last two calls decide.\<close>

lemma delete_web_ui_ends:
  assumes laws: "fs_unlink_lawful fs v" "fs_dir_lawful fs v" and tree: "fs_tree v w"
    and root: "fv_node v w [''lfs''] = Some Dir" "fv_node v w [''lfs'', ''www''] = Some Dir"
    and k: "2 * tree_size v w [''lfs'', ''www''] < k"
  obtains rc w' where "delete_web_ui_files fs k w = Some (rc, w')"
    and "fv_node v w' [''lfs'', ''www''] = Some Dir"
    and "rc = 0 \<and> fv_list v w' [''lfs'', ''www''] = [] \<and> (\<forall>name. fv_node v w' [''lfs'', ''www'', name] = None) \<or>
      rc < 0 \<and> fv_list v w' [''lfs'', ''www''] \<noteq> []"
    and "\<forall>r. \<not> prefix [''lfs'', ''www''] r \<longrightarrow> fv_node v w' r = fv_node v w r"
proof -
  let ?p = base_web_ui_fs_path and ?q = "[''lfs'', ''www'']"
  have "deletes v w (place ?p) (fs_delete_tree fs k w ?p)"
    using delete_tree_ends [OF laws, of ?p w k] tree k by simp
  then obtain rc1 w1 where w1: "fs_delete_tree fs k w ?p = Some (rc1, w1)" "fs_tree v w1" "only_removed v ?q w w1"
    by (auto simp: deletes_def)
  obtain rc2 w2 where u: "fs_unlink fs w1 ?p = (rc2, w2)" by (metis prod.collapse)
  note ut = unlink_tree [OF laws(1) _ u w1(2), simplified]
  have o2: "only_removed v ?q w w2" by (rule only_removed_trans [OF w1(3) ut(2)])
  then have keep: "fv_node v w2 r = fv_node v w r" if "\<not> prefix ?q r" for r
    using that by (rule only_removed_keeps)
  then have top: "fv_node v w2 (butlast (place ?p)) = Some Dir" using root(1) by simp
  have d1: "fv_node v w1 ?q = None \<or> fv_node v w1 ?q = Some Dir"
    using spec [OF w1(3) [unfolded only_removed_def], of ?q] root(2) by auto
  obtain rc w' where m: "fs_mkdir fs w2 ?p = (rc, w')" by (metis prod.collapse)
  have run: "delete_web_ui_files fs k w = Some (rc, w')" using w1(1) u m by (simp add: delete_web_ui_files_def)
  show ?thesis
  proof (cases "fv_node v w2 ?q = None")
    case True
    have none: "fv_node v w2 (?q @ [name]) = None" for name
      using fs_tree_parent(1) [OF ut(1), of ?q name] True by (cases "fv_node v w2 (?q @ [name])") auto
    from mkdir_fresh [OF laws(2) _ _ top, simplified] True none m
    have "rc = 0" "fv_node v w' = (fv_node v w2)(?q \<mapsto> Dir)" "fv_list v w' ?q = []" by auto
    with none keep show ?thesis by (intro that [OF run]) auto
  next
    case False
    with spec [OF ut(2) [unfolded only_removed_def], of ?q] d1 have "fv_node v w1 ?q = Some Dir" by auto
    with False unlink_law [OF laws(1) _ u, simplified]
    have "same_files v w1 w2" "fv_node v w1 ?q = Some Dir" "fv_list v w1 ?q \<noteq> []" by (auto split: if_splits)
    then have d2: "fv_node v w2 ?q = Some Dir" "fv_list v w2 ?q \<noteq> []" by (simp_all add: same_files_def)
    from mkdir_exists [OF laws(2), where w = w2 and p = ?p] d2(1) m have "rc < 0" "same_files v w2 w'" by auto
    with d2 keep show ?thesis by (intro that [OF run]) (auto simp: same_files_def)
  qed
qed

text \<open>
  C30. A request to delete the web interface is always answered: on any tree the functions
  end with two units of fuel for each node below the web root and one more; the answer is 200
  when the web root is an empty directory afterwards, and 500 when it is left with entries;
  nothing beyond it changes. A web root without sub-directories is cleared.
\<close>

theorem webui_delete_answered:
  assumes "fs_unlink_lawful fs v" and "fs_dir_lawful fs v" and "fs_tree v w"
    and "fv_node v w [''lfs''] = Some Dir" and "fv_node v w [''lfs'', ''www''] = Some Dir"
    and "2 * tree_size v w [''lfs'', ''www''] < k" and "req_method client = HTTP_DELETE"
  shows "\<exists>r w'. webui_delete_handler fs k client HTTP_SERVER_DATA_FINAL resp w = Some ((0, r), w') \<and>
    fv_node v w' (place base_web_ui_fs_path) = Some Dir \<and>
    (resp_status r = HTTP_200_OK \<and> fv_list v w' (place base_web_ui_fs_path) = [] \<and>
       (\<forall>name. fv_node v w' (place base_web_ui_fs_path @ [name]) = None) \<or>
     resp_status r = HTTP_500_INTERNAL_SERVER_ERROR \<and> fv_list v w' (place base_web_ui_fs_path) \<noteq> []) \<and>
    (files_in v w base_web_ui_fs_path (fv_list v w [''lfs'', ''www'']) \<longrightarrow> resp_status r = HTTP_200_OK) \<and>
    (\<forall>q. \<not> prefix (place base_web_ui_fs_path) q \<longrightarrow> fv_node v w' q = fv_node v w q)"
proof -
  obtain rc w' where run: "delete_web_ui_files fs k w = Some (rc, w')"
    and after: "fv_node v w' [''lfs'', ''www''] = Some Dir"
      "rc = 0 \<and> fv_list v w' [''lfs'', ''www''] = [] \<and> (\<forall>name. fv_node v w' [''lfs'', ''www'', name] = None) \<or>
        rc < 0 \<and> fv_list v w' [''lfs'', ''www''] \<noteq> []"
      "\<forall>r. \<not> prefix [''lfs'', ''www''] r \<longrightarrow> fv_node v w' r = fv_node v w r"
    by (rule delete_web_ui_ends [OF assms(1-6)])
  have "rc = 0" if flat: "files_in v w base_web_ui_fs_path (fv_list v w [''lfs'', ''www''])"
  proof -
    have "length (fv_list v w [''lfs'', ''www'']) + 1 < k"
      using files_in_size [OF assms(3), of base_web_ui_fs_path] flat assms(5,6) by simp
    moreover have "name \<in> de_name ` set (fv_list v w [''lfs'', ''www''])"
      if "fv_node v w ([''lfs'', ''www''] @ [name]) \<noteq> None" for name
      using fs_tree_parent(2) [OF assms(3) _ that] by simp
    ultimately show ?thesis using delete_web_ui_flat [OF assms(1,2,4,5) flat, of k] run by fastforce
  qed
  with run after assms(7) show ?thesis by (auto simp: webui_delete_handler_def)
qed

text \<open>A web root with a sub-directory that holds another one and a file: everything goes, also after failures inside.\<close>

definition demo_deep :: demo_fsw where
  "demo_deep = \<lparr>df_nodes = [([''lfs''], Dir), ([''lfs'', ''www''], Dir), ([''lfs'', ''www'', ''css''], Dir),
     ([''lfs'', ''www'', ''css'', ''x''], Dir), ([''lfs'', ''www'', ''css'', ''x'', ''a''], File ''a'')], df_open = []\<rparr>"

lemma demo_deep_node:
  "demo_node demo_deep q \<noteq> None \<longleftrightarrow> q \<in> {[''lfs''], [''lfs'', ''www''], [''lfs'', ''www'', ''css''],
     [''lfs'', ''www'', ''css'', ''x''], [''lfs'', ''www'', ''css'', ''x'', ''a'']}"
  by (simp add: demo_node_def demo_deep_def)

lemma demo_deep_list:
  "demo_list demo_deep q = (if q = [''lfs''] then [demo_dirent ''www'' Dir]
     else if q = [''lfs'', ''www''] then [demo_dirent ''css'' Dir]
     else if q = [''lfs'', ''www'', ''css''] then [demo_dirent ''x'' Dir]
     else if q = [''lfs'', ''www'', ''css'', ''x''] then [demo_dirent ''a'' (File ''a'')] else [])"
  by (auto simp: demo_list_def demo_node_def demo_deep_def List.map_filter_simps)

lemma demo_deep_tree: "fs_tree demo_view demo_deep"
proof -
  have "finite {q. demo_node demo_deep q \<noteq> None}" unfolding demo_deep_node by simp
  moreover have "distinct (map de_name (demo_list demo_deep q))" "\<forall>e \<in> set (demo_list demo_deep q). proper_name (de_name e)" for q
    unfolding demo_deep_list by (simp_all add: proper_name_def)
  moreover have "demo_node demo_deep q = Some Dir \<and> name \<in> de_name ` set (demo_list demo_deep q)"
    if "q \<noteq> []" and "demo_node demo_deep (q @ [name]) \<noteq> None" for q name
    using that(2,1) unfolding demo_deep_node demo_deep_list
    by (auto simp: append_eq_Cons_conv) (simp_all add: demo_node_def demo_deep_def)
  ultimately show ?thesis unfolding fs_tree_def demo_view_simps by blast
qed

theorem webui_delete_answered_witness:
  "\<exists>r w'. webui_delete_handler demo_fs 9 \<lparr>req_method = HTTP_DELETE, url_buffer = []\<rparr> HTTP_SERVER_DATA_FINAL
     demo_resp demo_deep = Some ((0, r), w') \<and> demo_node w' [''lfs'', ''www''] = Some Dir \<and>
     (resp_status r = HTTP_200_OK \<longleftrightarrow> demo_list w' [''lfs'', ''www''] = [])"
proof -
  have "nodes_at demo_view demo_deep [''lfs'', ''www''] =
      {[''lfs'', ''www''], [''lfs'', ''www'', ''css''], [''lfs'', ''www'', ''css'', ''x''], [''lfs'', ''www'', ''css'', ''x'', ''a'']}"
    unfolding nodes_at_def demo_view_simps demo_deep_node by auto
  then have "2 * tree_size demo_view demo_deep [''lfs'', ''www''] < 9" by (simp add: tree_size_def)
  moreover have "demo_node demo_deep [''lfs''] = Some Dir" "demo_node demo_deep [''lfs'', ''www''] = Some Dir" by code_simp+
  ultimately show ?thesis
    using webui_delete_answered [OF demo_unlink_lawful demo_dir_lawful demo_deep_tree,
        of 9 "\<lparr>req_method = HTTP_DELETE, url_buffer = []\<rparr>" demo_resp]
    by (auto simp: http_status)
qed

end
