(* ===== verification/Static_Files.thy ===== *)
theory Static_Files
  imports Http_Api
begin

text \<open>
  The two HTTP services of \<open>web/http_server_init.c\<close>, the headers they capture, and the
  resource of \<open>web/static_resources.c\<close> through which Zephyr's server delivers the files below
  the web root. The server itself is a parameter: what is relied on is that it answers a GET
  with the file at the resource's path extended by the URL.
\<close>

section \<open>Services and the static resource\<close>

record http_service =
  sv_host :: string
  sv_port :: u16
  sv_concurrent :: nat
  sv_backlog :: nat

definition http_static_service :: http_service where
  "http_static_service = \<lparr>sv_host = ''0.0.0.0'', sv_port = 80, sv_concurrent = 2, sv_backlog = 10\<rparr>"

definition http_api_service :: http_service where
  "http_api_service = \<lparr>sv_host = ''0.0.0.0'', sv_port = 8080, sv_concurrent = 1, sv_backlog = 10\<rparr>"

definition captured_headers :: "string list" where
  "captured_headers = [''User-Agent'', ''Authorization'', ''Cookie'']"

record http_static_fs =
  sf_service :: http_service
  sf_url :: string
  sf_methods :: "http_method list"
  sf_fs_path :: string

definition static_fs_resource :: http_static_fs where
  "static_fs_resource = \<lparr>sf_service = http_static_service, sf_url = ''*'', sf_methods = [HTTP_GET],
     sf_fs_path = base_web_ui_fs_path\<rparr>"

text \<open>
  The headers a handler sees are the captured ones; nothing of what \<open>authentication\<close> looks at
  is among the others.
\<close>

definition captured :: "http_header list \<Rightarrow> http_header list" where
  "captured hs = filter (\<lambda>h. list_ex (strcasecmp_eq (hdr_name h)) captured_headers) hs"

lemma authentication_captured: "authentication sys w st (captured hs) tb sz = authentication sys w st hs tb sz"
proof (induction hs arbitrary: w st)
  case Nil
  then show ?case by (simp add: captured_def)
next
  case (Cons h hs)
  have split: "captured (h # hs) =
      (if list_ex (strcasecmp_eq (hdr_name h)) captured_headers then h # captured hs else captured hs)"
    by (simp add: captured_def)
  show ?case
  proof (cases "strcasecmp_eq (hdr_name h) ''Cookie'' \<or> strcasecmp_eq (hdr_name h) ''Authorization''")
    case True
    then have "captured (h # hs) = h # captured hs" unfolding split by (auto simp: captured_headers_def)
    then show ?thesis by (simp only: authentication_step Cons.IH)
  next
    case False
    then have "authentication sys w st (h # hs') tb sz = authentication sys w st hs' tb sz" for hs' by simp
    with Cons.IH show ?thesis unfolding split by simp
  qed
qed

section \<open>What the server is relied on for\<close>

type_synonym 'w static_server = "http_static_fs \<Rightarrow> 'w \<Rightarrow> string \<Rightarrow> nat \<times> byte list"
  \<comment> \<open>the answer to a GET for a URL: the status and the body\<close>

text \<open>
  A file whose name is plain, and not longer than the server can take, is delivered as it is.
\<close>

definition static_lawful :: "'w static_server \<Rightarrow> 'w fs_view \<Rightarrow> nat \<Rightarrow> bool" where
  "static_lawful srv v max_url \<longleftrightarrow>
     (\<forall>d w f c. sf_url d = ''*'' \<longrightarrow> HTTP_GET \<in> set (sf_methods d) \<longrightarrow> file_name_ok f \<longrightarrow> length f < max_url \<longrightarrow>
        fv_node v w (place (sf_fs_path d @ ''/'' @ f)) = Some (File c) \<longrightarrow> srv d w (''/'' @ f) = (HTTP_200_OK, c))"

definition demo_static :: "demo_fsw static_server" where
  "demo_static d w url =
     (case demo_node w (place (sf_fs_path d @ url)) of Some (File c) \<Rightarrow> (HTTP_200_OK, c) | _ \<Rightarrow> (404, []))"

lemma demo_static_lawful: "static_lawful demo_static demo_view n"
  by (simp add: static_lawful_def demo_static_def)

section \<open>An upload and what is served then\<close>

text \<open>One call of the upload handler as a step on its state.\<close>

definition upload_step ::
  "'w fs_api \<Rightarrow> http_client_ctx \<Rightarrow> http_response_ctx \<Rightarrow> http_data_status \<Rightarrow> byte list \<Rightarrow> 'w \<times> post_ctx
     \<Rightarrow> (int \<times> http_response_ctx) \<times> 'w \<times> post_ctx" where
  "upload_step fs client resp status d s = webui_chunk_put fs client status (with_body d) resp s"

lemma upload_pieces:
  assumes "req_method client = HTTP_POST" and "post_inv 512 pc" and "length (post_pending pc @ concat ds) \<le> 512"
  obtains pc' where "calls (upload_step fs client resp) (pieces ds) (w, pc) = (w, pc')"
    and "post_inv 512 pc'" and "post_pending pc' = post_pending pc @ concat ds"
  using assms(2,3)
proof (induction ds arbitrary: pc thesis)
  case Nil
  then show ?case by (simp add: pieces_def)
next
  case (Cons d ds)
  obtain pc1 where pc1: "post_inv 512 pc1" "post_pending pc1 = post_pending pc @ d"
    "post_receive HTTP_SERVER_DATA_MORE d pc = (Post_More, pc1)"
    using post_receive_fits [OF Cons.prems(2), of HTTP_SERVER_DATA_MORE d] Cons.prems(3) by auto
  then have "snd (upload_step fs client resp HTTP_SERVER_DATA_MORE d (w, pc)) = (w, pc1)"
    using assms(1) by (simp add: upload_step_def webui_chunk_put_def)
  moreover obtain pc' where "calls (upload_step fs client resp) (pieces ds) (w, pc1) = (w, pc')"
    "post_inv 512 pc'" "post_pending pc' = post_pending pc1 @ concat ds"
    using Cons.IH [OF _ pc1(1)] Cons.prems(3) pc1(2) by auto
  ultimately show ?case using Cons.prems(1) pc1(2) by (simp add: pieces_def)
qed

text \<open>
  C13. What an upload has written is what the web server delivers: when a request for a file,
  with the number of bytes the file already has as its offset, or 0 to replace it, arrives
  in any pieces and is answered with 200, then the file consists of the old bytes, of what
  the handler's array still held, and of the whole body, and a GET for it on the static
  service is answered with that. The array holds nothing before the first upload and after
  one that was aborted; after a complete one it still holds that body (C37).
\<close>

theorem uploaded_file_served:
  assumes "fs_file_lawful fs v" and "fs_unlink_lawful fs v" and "static_lawful srv v max_url"
    and "file_name_ok f" and "length (child_path base_web_ui_fs_path f) < 256" and "length f < max_url"
    and "post_inv 512 pc" and "length (post_pending pc @ concat ds @ d) \<le> 512"
    and "c \<noteq> [] \<longrightarrow> fv_node v w (place (child_path base_web_ui_fs_path f)) = Some (File c)" and "length c \<le> 153600"
    and "client = \<lparr>req_method = HTTP_POST, url_buffer = upload_url f (length c)\<rparr>"
    and "upload_step fs client resp HTTP_SERVER_DATA_FINAL d (calls (upload_step fs client resp) (pieces ds) (w, pc)) =
      ((rc, r), (w', pc'))"
    and "resp_status r = HTTP_200_OK"
  shows "fv_node v w' (place (child_path base_web_ui_fs_path f)) = Some (File (c @ post_pending pc @ concat ds @ d)) \<and>
    srv static_fs_resource w' (''/'' @ f) = (HTTP_200_OK, c @ post_pending pc @ concat ds @ d)"
proof -
  let ?body = "post_pending pc @ concat ds @ d"
  have m: "req_method client = HTTP_POST" "url_buffer client = upload_url f (length c)" by (simp_all add: assms(11))
  have "length (post_pending pc @ concat ds) \<le> 512" using assms(8) by simp
  from upload_pieces [OF m(1) assms(7) this, of fs resp w] obtain pc1 where
    pc1: "calls (upload_step fs client resp) (pieces ds) (w, pc) = (w, pc1)" "post_inv 512 pc1" "post_pending pc1 = post_pending pc @ concat ds"
    by auto
  have "HTTP_SERVER_DATA_FINAL \<noteq> HTTP_SERVER_DATA_ABORTED" by simp
  from post_receive_fits [OF pc1(2) this, of d] pc1(3) assms(8) obtain pc2 where
    "post_receive HTTP_SERVER_DATA_FINAL d pc1 = (Post_Body ?body, pc2)" by auto
  with assms(12) pc1(1) m have up: "http_upload fs base_web_ui_fs_path (upload_url f (length c)) ?body resp w = ((rc, r), w')"
    by (auto simp: upload_step_def webui_chunk_put_def Let_def split: prod.splits)
  have "fv_node v w' (place (child_path base_web_ui_fs_path f)) = Some (File (c @ ?body))"
    by (rule http_upload_200(1) [OF assms(1,2,4,5) _ assms(10) up assms(13)]) (use assms(9) in auto)
  moreover from this have "srv static_fs_resource w' (''/'' @ f) = (HTTP_200_OK, c @ ?body)"
    using assms(3,4,6) unfolding static_lawful_def
    by (simp add: static_fs_resource_def child_path_def)
  ultimately show ?thesis by blast
qed

text \<open>A first upload in two pieces, and another one after it, which the body of the first precedes.\<close>

definition demo_post :: "string \<Rightarrow> http_client_ctx" where
  "demo_post f = \<lparr>req_method = HTTP_POST, url_buffer = upload_url f 0\<rparr>"

definition demo_first_upload :: "(int \<times> http_response_ctx) \<times> demo_fsw \<times> post_ctx" where
  "demo_first_upload = upload_step demo_fs (demo_post ''b'') demo_resp HTTP_SERVER_DATA_FINAL ''c''
     (calls (upload_step demo_fs (demo_post ''b'') demo_resp) (pieces [''ab'']) (demo_root, post_ctx_init 512))"

theorem uploaded_file_served_witness:
  "demo_static static_fs_resource (fst (snd demo_first_upload)) ''/b'' = (HTTP_200_OK, ''abc'') \<and>
   demo_static static_fs_resource (fst (snd (upload_step demo_fs (demo_post ''b'') demo_resp HTTP_SERVER_DATA_FINAL ''d''
     (snd demo_first_upload)))) ''/b'' = (HTTP_200_OK, ''abcd'')"
proof
  have u0: "demo_post ''b'' = \<lparr>req_method = HTTP_POST, url_buffer = upload_url ''b'' (length ([] :: string))\<rparr>"
    by (simp add: demo_post_def)
  obtain rc r w1 pc1 where u: "demo_first_upload = ((rc, r), (w1, pc1))" by (metis prod.collapse)
  have ok: "resp_status (snd (fst demo_first_upload)) = HTTP_200_OK" by code_simp
  have "resp_status r = HTTP_200_OK" using ok unfolding u by simp
  from uploaded_file_served [OF demo_file_lawful demo_unlink_lawful demo_static_lawful demo_name_ok _ post_inv_init
      _ _ _ u0 u [unfolded demo_first_upload_def] this, of 10]
  show "demo_static static_fs_resource (fst (snd demo_first_upload)) ''/b'' = (HTTP_200_OK, ''abc'')" unfolding u by simp
  have st: "post_inv 512 (snd (snd demo_first_upload))" "post_pending (snd (snd demo_first_upload)) = ''abc''"
    and ok2: "resp_status (snd (fst (upload_step demo_fs (demo_post ''b'') demo_resp HTTP_SERVER_DATA_FINAL ''d''
      (snd demo_first_upload)))) = HTTP_200_OK" by code_simp+
  obtain rc2 r2 w2 pc2 where v: "upload_step demo_fs (demo_post ''b'') demo_resp HTTP_SERVER_DATA_FINAL ''d''
      (snd demo_first_upload) = ((rc2, r2), (w2, pc2))" by (metis prod.collapse)
  have "resp_status r2 = HTTP_200_OK" using ok2 unfolding v by simp
  moreover have run: "upload_step demo_fs (demo_post ''b'') demo_resp HTTP_SERVER_DATA_FINAL ''d''
      (calls (upload_step demo_fs (demo_post ''b'') demo_resp) (pieces []) (w1, pc1)) = ((rc2, r2), (w2, pc2))"
    using v unfolding u by (simp add: pieces_def)
  moreover have "post_inv 512 pc1" "post_pending pc1 = ''abc''" using st unfolding u by simp_all
  ultimately show "demo_static static_fs_resource (fst (snd (upload_step demo_fs (demo_post ''b'') demo_resp HTTP_SERVER_DATA_FINAL ''d''
     (snd demo_first_upload)))) ''/b'' = (HTTP_200_OK, ''abcd'')"
    using uploaded_file_served [OF demo_file_lawful demo_unlink_lawful demo_static_lawful demo_name_ok _ _ _ _ _ u0 run, of 10]
    unfolding v by simp
qed

end
