(* ===== verification/Array_Bounds.thy ===== *)
theory Array_Bounds
  imports Firmware
begin

text \<open>
  Every array of the running firmware keeps its declared size, and the cursors stay inside
  their arrays, in every state that can be reached. The C functions that copy or print into an
  array are modelled such that a copy past its end would make it longer, so this is what says
  that there is none. A write of one element past the end would leave a list as it is and is
  not seen here; those of the code are at constant places, or at a length that the lines
  before it have cut to the array.
\<close>

section \<open>The sizes\<close>

definition response_pair :: "nat \<Rightarrow> buffer \<times> post_ctx \<Rightarrow> bool" where
  "response_pair n bp \<longleftrightarrow> length (fst bp) = n \<and> post_inv n (snd bp)"

definition web_arrays :: "web_state \<Rightarrow> bool" where
  "web_arrays wb \<longleftrightarrow> web_users_wf (as_users (wb_auth wb)) \<and> sessions_typed (as_sessions (wb_auth wb)) \<and>
     response_pair 256 (wb_relays wb) \<and> response_pair 256 (wb_safe wb) \<and> response_pair 256 (wb_broker wb) \<and>
     response_pair 256 (wb_users wb) \<and> length (wb_status wb) = 64 \<and> length (wb_cookie wb) = 256 \<and>
     post_inv CHUNK_BUF_CAP (wb_upload wb) \<and> post_inv 256 (wb_mkdir wb)"

definition helpers_arrays :: "ha_helpers_state \<Rightarrow> bool" where
  "helpers_arrays hs \<longleftrightarrow>
     length (hs_dev_identifier hs) = MQTT_UNIC_IDENTIFIER_LENGTH \<and> length (hs_conf_ip hs) = INET6_ADDRSTRLEN"

definition msg_arrays :: "mqtt_msg_t \<Rightarrow> bool" where
  "msg_arrays m \<longleftrightarrow> length (mm_topic m) = mqtt_topik_max_len \<and> length (mm_payload m) = mqtt_payload_max_len"

definition fw_arrays :: "'w firmware \<Rightarrow> bool" where
  "fw_arrays s \<longleftrightarrow> web_arrays (fw_web s) \<and> helpers_arrays (fw_helpers s) \<and> msg_arrays (ht_message (fw_ha s))"

text \<open>An element of the receive queue is a \<open>mqtt_msg_t\<close>.\<close>

definition rx_typed :: "'w msgq_api \<Rightarrow> bool" where
  "rx_typed mq \<longleftrightarrow> (\<forall>w m w'. rx_get mq w = (0, m, w') \<longrightarrow> msg_arrays m)"

section \<open>The session table\<close>

lemma authentication_typed:
  "sessions_typed (as_sessions st) \<Longrightarrow> sessions_typed (as_sessions (fst (snd (authentication sys w st hs tb sz))))"
proof (induction hs arbitrary: w st)
  case Nil
  then show ?case by simp
next
  case (Cons h hs)
  have check: "sessions_typed (as_sessions (fst (snd (check_token_valid sys w st t))))" for t
    using check_typed [OF Cons.prems] by (simp add: check_token_valid_eq Let_def)
  have login: "sessions_typed (as_sessions (fst (login_user sys w st u b sz)))" for u b
    using store_typed [OF Cons.prems] by (simp add: login_user_def store_session_token_def Let_def split: prod.split)
  show ?case
  proof (cases "header_token h")
    case None
    then show ?thesis
      unfolding authentication_step using Cons.IH [OF Cons.prems] Cons.prems login
      by (auto split: option.split prod.split) (metis fst_conv)
  next
    case (Some t)
    obtain ok st' w' where c: "check_token_valid sys w st t = (ok, st', w')" by (metis prod_cases3)
    with check [of t] have "sessions_typed (as_sessions st')" by simp
    with Cons.IH [OF this] Some c show ?thesis unfolding authentication_step by simp
  qed
qed

section \<open>The handlers\<close>

lemma post_step_typed:
  assumes "post_inv n (snd s)" and "Q (fst s)" and "\<And>body c. Q c \<Longrightarrow> Q (snd (act body c))"
  shows "post_inv n (snd (snd (post_step act early status d s)))" and "Q (fst (snd (post_step act early status d s)))"
proof -
  show "post_inv n (snd (snd (post_step act early status d s)))"
    using post_step_receiver assms(1) by (rule body_receiver.step_inv)
  show "Q (fst (snd (post_step act early status d s)))"
    using assms(2,3) by (auto simp: post_step_def Let_def split: prod.split post_result.split) (metis snd_conv)
qed

lemma post_receive_typed: "post_inv n pc \<Longrightarrow> post_receive status d pc = (r, pc') \<Longrightarrow> post_inv n pc'"
  by (auto simp: post_receive_def post_inv_def Let_def split: if_splits)

lemma relays_handler_typed:
  assumes "response_pair 256 (buf, pc)" and "relays_state_handler sys zb client status req resp ((w, buf), pc) = (r, ((w', buf'), pc'))"
  shows "response_pair 256 (buf', pc')"
proof -
  have act: "length (snd (snd (relays_state_post sys zb resp body c))) = 256" if "length (snd c) = 256" for body c
    using that by (cases c) (auto simp: relays_state_post_def Let_def split: prod.split)
  note post = post_step_typed [where Q = "\<lambda>c. length (snd c) = 256" and act = "relays_state_post sys zb resp" and n = 256 and s = "((w, buf), pc)"
      and early = "\<lambda>rc. (rc, resp)" and status = status and d = "req_data req", OF _ _ act]
  show ?thesis
    using assms post
    by (auto simp: relays_state_handler_def response_pair_def Let_def split: if_splits)
qed

lemma def_relay_handler_typed:
  assumes "response_pair 256 (buf, pc)"
    and "settings_def_relay_state_handler sys client status req resp ((w, u, buf), pc) = (r, ((w', u', buf'), pc'))"
  shows "response_pair 256 (buf', pc')"
proof -
  have act: "length (snd (snd (snd (def_relay_state_post sys resp body c)))) = 256" if "length (snd (snd c)) = 256" for body c
    using that by (cases c) (auto simp: def_relay_state_post_def Let_def split: prod.split)
  note post = post_step_typed [where Q = "\<lambda>c. length (snd (snd c)) = 256" and act = "def_relay_state_post sys resp" and n = 256 and s = "((w, u, buf), pc)"
      and early = "\<lambda>rc. (rc, resp)" and status = status and d = "req_data req", OF _ _ act]
  show ?thesis
    using assms post
    by (auto simp: settings_def_relay_state_handler_def response_pair_def Let_def split: if_splits)
qed

lemma mqtt_handler_typed:
  assumes "response_pair 256 (buf, pc)"
    and "settings_mqtt_handler sys client status req resp ((w, u, buf), pc) = (r, ((w', u', buf'), pc'))"
  shows "response_pair 256 (buf', pc')"
proof -
  have act: "length (snd (snd (snd (mqtt_settings_post sys resp body c)))) = 256" if "length (snd (snd c)) = 256" for body c
    using that by (cases c) (auto simp: mqtt_settings_post_def Let_def split: prod.split)
  note post = post_step_typed [where Q = "\<lambda>c. length (snd (snd c)) = 256" and act = "mqtt_settings_post sys resp" and n = 256 and s = "((w, u, buf), pc)"
      and early = "\<lambda>rc. (rc, resp)" and status = status and d = "req_data req", OF _ _ act]
  show ?thesis
    using assms post
    by (auto simp: settings_mqtt_handler_def response_pair_def Let_def split: if_splits)
qed

text \<open>The list of users is printed inside its array, whatever names were loaded.\<close>

lemma length_user_name_le: "length (user_name u) \<le> length (wu_user u)"
  by (simp add: user_name_def length_cstr_le)

lemma users_json_length:
  assumes "web_users_wf l" and "length buf = 256"
  shows "length (users_json l buf) = 256"
proof -
  let ?head = "''{ \"users\": [''" and ?es = "concat (map user_entry (filter (\<lambda>n. n \<noteq> []) (map user_name (wl_user l))))"
  have len: "length (wl_user l) = 2" "\<forall>u \<in> set (wl_user l). length (wu_user u) = 32"
    using assms(1) by (auto simp: web_users_wf_def web_user_wf_def user_sizes)
  have "(\<Sum>u\<leftarrow>wl_user l. 13 + length (user_name u)) \<le> (\<Sum>u\<leftarrow>wl_user l. 45)"
  proof (rule sum_list_mono)
    fix u assume "u \<in> set (wl_user l)"
    with length_user_name_le [of u] len(2) show "13 + length (user_name u) \<le> 45" by simp
  qed
  then have sum: "(\<Sum>u\<leftarrow>wl_user l. 13 + length (user_name u)) \<le> 90" using len(1) by (simp add: sum_list_triv)
  have "printed (print_at buf 0 ?head) ?head"
    using assms(2) by (simp add: printed_def print_at_def snprintf_into_def JSON_BUF_SIZE_eq Let_def)
  from users_json_loop_printed [OF this _ len(2)] sum obtain buf' where
    loop: "users_json_loop (wl_user l) (print_at buf 0 ?head) (length ?head) = (buf', length (?head @ ?es))"
    and p: "printed buf' (?head @ ?es)" by auto
  have "printed (print_at buf' (length (?head @ ?es)) ''] }'') ((?head @ ?es) @ ''] }'')"
    by (rule print_at_printed [OF p]) (use user_entries_length [of "wl_user l"] sum in simp)
  moreover have "users_json l buf = print_at buf' (length (?head @ ?es)) ''] }''"
    by (simp only: users_json_def Let_def loop prod.case)
  ultimately show ?thesis by (simp add: printed_def)
qed

lemma get_web_users_typed:
  assumes "settings_load_ok sys" and "get_web_users sys w (Some web_users_zero) = (rc, Some l)"
  shows "web_users_wf l"
proof -
  obtain rc0 bs where ld: "settings_load_one sys w web_users_settings sizeof_web_users_list = (rc0, bs)" by fastforce
  then have "length bs \<le> sizeof_web_users_list" using assms(1) unfolding settings_load_ok_def by (metis le0 list.size(3))
  then have "web_users_wf (load_users bs web_users_zero)" by (intro load_users_wf web_users_zero_wf)
  then show ?thesis
    using assms(2) ld by (auto simp: get_web_users_def Let_def web_users_wf_def web_user_wf_def memset_zero_def user_sizes split: if_splits)
qed

lemma users_handler_typed:
  assumes sys: "settings_load_ok sys" and "response_pair 256 (buf, pc)"
    and "web_user_mgmt_handler sys client status req resp ((w, l, buf), pc) = (r, ((w', l', buf'), pc'))"
  shows "response_pair 256 (buf', pc')"
proof -
  have act: "length (snd (snd (snd (web_user_post sys resp body c)))) = 256" if "length (snd (snd c)) = 256" for body c
    using that by (cases c) (auto simp: web_user_post_def Let_def split: prod.split)
  note post = post_step_typed [where Q = "\<lambda>c. length (snd (snd c)) = 256" and act = "web_user_post sys resp" and n = 256
      and s = "((w, l, buf), pc)" and early = "web_user_early resp" and status = status and d = "req_data req", OF _ _ act]
  have get: "length (users_json (the lo) buf) = 256" if "get_web_users sys w (Some web_users_zero) = (0, lo)" for lo
  proof -
    from that obtain l' where "lo = Some l'" by (auto simp: get_web_users_def Let_def split: prod.splits if_splits)
    with that assms(2) get_web_users_typed [OF sys] show ?thesis by (simp add: response_pair_def users_json_length)
  qed
  show ?thesis
  proof (cases "req_method client")
    case HTTP_GET
    with assms(2,3) get show ?thesis
      by (auto simp: web_user_mgmt_handler_def web_user_get_def response_pair_def Let_def split: prod.splits if_splits)
  next
    case HTTP_POST
    with assms(2,3) post show ?thesis by (auto simp: web_user_mgmt_handler_def response_pair_def)
  next
    case HTTP_DELETE
    with assms(2,3) show ?thesis
      by (auto simp: web_user_mgmt_handler_def web_user_delete_def response_pair_def Let_def split: prod.splits option.splits)
  next
    case HTTP_OTHER
    with assms(2,3) show ?thesis by (simp add: web_user_mgmt_handler_def)
  qed
qed

lemma login_handler_typed:
  assumes "sessions_typed (as_sessions st)" and "length cookie = 256"
    and "login_handler sys client status req resp (w, st, cookie) = (r, (w', st', cookie'))"
  shows "sessions_typed (as_sessions st')" and "length cookie' = 256"
proof -
  have st: "st' = st \<or> (\<exists>tb sz. st' = fst (snd (authentication sys w st (req_headers req) tb sz)))"
    using assms(3) unfolding login_handler_def Let_def
    by (auto split: if_splits prod.splits) (metis fst_conv snd_conv)+
  then show "sessions_typed (as_sessions st')" using authentication_typed [OF assms(1)] assms(1) by auto
  show "length cookie' = 256"
    using assms(2,3) unfolding login_handler_def Let_def by (auto split: if_splits prod.splits)
qed

text \<open>A request to any resource.\<close>

lemma serve_arrays:
  assumes laws: "sha256_lawful sys" "settings_load_ok sys" and inv: "web_arrays wb"
    and s: "serve sys zb kn bt fs fuel ep client status req resp (wb, w) = Some (answer, (wb', w'))"
  shows "web_arrays wb'"
proof -
  have users: "web_users_wf (as_users (wb_auth wb'))"
    using web_users_wf_step [OF laws(1) serve_users [OF s]] inv by (simp add: web_arrays_def)
  note parts = inv [unfolded web_arrays_def]
  show ?thesis
  proof (cases ep)
    case Relays_State
    obtain r w1 buf pc where h: "relays_state_handler sys zb client status req resp ((w, fst (wb_relays wb)), snd (wb_relays wb)) =
        (r, ((w1, buf), pc))" by (metis prod.collapse)
    have "response_pair 256 (buf, pc)" by (rule relays_handler_typed [OF _ h]) (simp add: parts)
    with s h parts Relays_State show ?thesis by (auto simp: web_arrays_def)
  next
    case Settings_Status
    with s parts show ?thesis by (auto simp: web_arrays_def settings_handler_get_def Let_def split: if_splits)
  next
    case Def_Relay_State
    obtain r w1 u buf pc where h: "settings_def_relay_state_handler sys client status req resp
        ((w, wb_updated wb, fst (wb_safe wb)), snd (wb_safe wb)) = (r, ((w1, u, buf), pc))" by (metis prod.collapse)
    have "response_pair 256 (buf, pc)" by (rule def_relay_handler_typed [OF _ h]) (simp add: parts)
    with s h parts Def_Relay_State show ?thesis by (auto simp: web_arrays_def)
  next
    case Mqtt_Settings
    obtain r w1 u buf pc where h: "settings_mqtt_handler sys client status req resp
        ((w, wb_updated wb, fst (wb_broker wb)), snd (wb_broker wb)) = (r, ((w1, u, buf), pc))" by (metis prod.collapse)
    have "response_pair 256 (buf, pc)" by (rule mqtt_handler_typed [OF _ h]) (simp add: parts)
    with s h parts Mqtt_Settings show ?thesis by (auto simp: web_arrays_def)
  next
    case Login
    obtain r w1 auth cookie where h: "login_handler sys client status req resp (w, wb_auth wb, wb_cookie wb) =
        (r, (w1, auth, cookie))" by (metis prod.collapse)
    have "sessions_typed (as_sessions auth)" "length cookie = 256" using login_handler_typed [OF _ _ h] parts by simp_all
    with s h parts Login users show ?thesis by (auto simp: web_arrays_def)
  next
    case Web_User_Mgmt
    obtain r w1 l buf pc where h: "web_user_mgmt_handler sys client status req resp
        ((w, as_users (wb_auth wb), fst (wb_users wb)), snd (wb_users wb)) = (r, ((w1, l, buf), pc))" by (metis prod.collapse)
    have "response_pair 256 (buf, pc)" by (rule users_handler_typed [OF laws(2) _ h]) (simp add: parts)
    with s h parts Web_User_Mgmt users show ?thesis by (auto simp: web_arrays_def)
  next
    case Webui_Upload
    with s parts show ?thesis
      by (auto simp: web_arrays_def webui_chunk_put_def Let_def dest: post_receive_typed
          split: prod.splits if_splits post_result.splits)
  next
    case Webui_Mkdir
    have "post_inv 256 (snd (snd (post_step (mkdir_post sys fs resp) (\<lambda>rc. (rc, resp)) status (req_data req) (w, wb_mkdir wb))))"
      by (rule post_step_typed(1) [where Q = "\<lambda>_. True"]) (use parts in simp_all)
    then have "post_inv 256 (snd (snd (mkdir_web_ui_handler sys fs client status req resp (w, wb_mkdir wb))))"
      using parts by (simp add: mkdir_web_ui_handler_def)
    with s parts Webui_Mkdir show ?thesis by (auto simp: web_arrays_def case_prod_beta)
  next
    case Webui_Delete
    with s inv show ?thesis by auto
  next
    case System_Reboot
    with s inv show ?thesis by (auto simp: Let_def split: prod.splits)
  qed
qed

section \<open>The MQTT side\<close>

lemma set_device_id_arrays: "helpers_arrays hs \<Longrightarrow> helpers_arrays (snd (set_device_id ident hs))"
  using set_device_id_ok(3,4) [of ident hs "snd (set_device_id ident hs)"]
  by (cases "fst (set_device_id ident hs) = 0")
    (auto simp: helpers_arrays_def set_device_id_def prod_eq_iff errno split: if_splits)

lemma ha_mqtt_init_arrays: "helpers_arrays hs \<Longrightarrow> helpers_arrays (snd (ha_mqtt_init kn w hs))"
proof -
  assume hs: "helpers_arrays hs"
  have ip: "helpers_arrays (snd (ha_mqtt_set_dev_ip kn w h))" if "helpers_arrays h" for h
    using that by (auto simp: ha_mqtt_set_dev_ip_def set_device_conf_ip_def helpers_arrays_def INET6_ADDRSTRLEN_def
        Let_def split: prod.split if_splits)
  have unic: "helpers_arrays (snd (ha_mqtt_set_unic_id kn w hs))"
    using hs set_device_id_arrays [OF hs] by (simp add: ha_mqtt_set_unic_id_def split: prod.split)
  with ip [OF unic] show ?thesis by (auto simp: ha_mqtt_init_def Let_def split: prod.splits)
qed

lemma print_payload_length: "0 < len \<Longrightarrow> length payload = len \<Longrightarrow> length (snd (print_payload payload len text)) = len"
  by (simp add: print_payload_def)

lemma registration_msg_arrays: "msg_arrays m \<Longrightarrow> msg_arrays (registration_msg hs m d)"
  by (cases "fst d") (simp_all add: msg_arrays_def registration_msg_def get_config_topik_string_def print_topik_def
      get_config_payload_string_def print_payload_length mqtt_topik_max_len_def mqtt_payload_max_len_def Let_def split: prod.split)

lemma status_msg_arrays: "msg_arrays m \<Longrightarrow> msg_arrays (status_msg hs m t state i)"
  by (cases t) (simp_all add: msg_arrays_def status_msg_def get_status_topik_string_def print_topik_def
      generate_sensor_status_payload_JSON_def mqtt_topik_max_len_def mqtt_payload_max_len_def Let_def)

lemma publish_changes_arrays:
  "msg_arrays (fst mw) \<Longrightarrow> msg_arrays (fst (publish_changes mq hs t new old ds mw))"
  by (induction mq hs t new old ds mw rule: publish_changes.induct)
    (auto simp: Let_def status_msg_arrays split: prod.split)

lemma ha_report_arrays:
  assumes "ha_report mq hs t now new (old, next, m, w) = (ch, old', next', m', w')" and "msg_arrays m"
  shows "msg_arrays m'"
  using assms publish_changes_arrays [of "(m, w)"] unfolding ha_report_def Let_def
  by (auto split: if_splits prod.splits) (metis fst_conv)+

lemma ha_turn_arrays:
  assumes rx: "rx_typed mq" and t: "ha_turn mq zb kn hs (s, w) = (up, s', w')" and m: "msg_arrays (ht_message s)"
  shows "msg_arrays (ht_message s')"
proof -
  have inputs: "msg_arrays (ht_message (fst (ha_report_inputs mq zb hs now sw)))" if "msg_arrays (ht_message (fst sw))" for now sw
    using that ha_report_arrays by (fastforce simp: ha_report_inputs_def Let_def split: prod.split)
  have outputs: "msg_arrays (ht_message (fst (ha_report_outputs mq zb hs now sw)))" if "msg_arrays (ht_message (fst sw))" for now sw
    using that ha_report_arrays by (fastforce simp: ha_report_outputs_def Let_def split: prod.split)
  have command: "msg_arrays (ht_message (fst (ha_command mq zb sw)))" if "msg_arrays (ht_message (fst sw))" for sw
    using that rx by (auto simp: ha_command_def rx_typed_def Let_def split: prod.split option.split)
  let ?s = "s\<lparr>ht_mqtt := chan_read (zbus_read_mqtt zb w) (ht_mqtt s)\<rparr>" and ?now = "k_uptime_seconds kn w"
  have "msg_arrays (ht_message (fst (ha_report_outputs mq zb hs ?now (ha_command mq zb (ha_report_inputs mq zb hs ?now (?s, w))))))"
    by (intro outputs command inputs) (simp add: m)
  with t m show ?thesis by (auto simp: ha_turn_def Let_def split: if_splits)
qed

lemma register_loop_arrays:
  "msg_arrays (fst s) \<Longrightarrow> msg_arrays (fst (register_loop mq zb kn hs ds s))"
  by (induction mq zb kn hs ds s rule: register_loop.induct)
    (auto simp: Let_def registration_msg_arrays split: prod.split)

lemma ha_poll_arrays:
  assumes "ha_poll mq zb kn hs (s, w) = (up, s', w')" and "msg_arrays (ht_message s)"
  shows "msg_arrays (ht_message s')"
proof -
  have "msg_arrays m'" if "register_loop mq zb kn hs ha_devices (ht_message s, st, w1) = (m', st', w2)" for st w1 m' st' w2
    using register_loop_arrays [of "(ht_message s, st, w1)" mq zb kn hs ha_devices] assms(2) that by simp
  then show ?thesis using assms by (auto simp: ha_poll_def Let_def split: if_splits prod.splits)
qed

section \<open>Every reachable state\<close>

lemma boot_arrays:
  assumes "sha256_lawful (pl_sys P)" and "settings_load_ok (pl_sys P)" and "fw_boot P sett w0 = Some s"
  shows "fw_arrays s"
proof -
  obtain i w1 where st: "io_task_start (pl_sys P) (pl_gp P) w0 = Some (i, w1)"
    using assms(3) by (auto simp: fw_boot_def split: option.splits)
  obtain us w2 where u: "users_init (pl_sys P) w1 web_users_zero = (us, w2)" by fastforce
  have "web_users_wf us" using users_init_typed(1) [OF assms(1,2) u] .
  moreover have "sessions_typed (replicate MAX_SESSIONS web_session_zero)"
    by (simp add: sessions_typed_def web_session_zero_def)
  ultimately have "web_arrays (web_state_init \<lparr>as_users = us, as_sessions = replicate MAX_SESSIONS web_session_zero\<rparr>)"
    by (simp add: web_arrays_def web_state_init_def response_pair_def JSON_BUF_SIZE_eq)
  then show ?thesis
    using assms(3) st u
    by (auto simp: fw_boot_def authentication_init_def fw_arrays_def helpers_arrays_def ha_helpers_init_def msg_arrays_def
        ha_task_init_def mqtt_msg_zero_def Let_def)
qed

lemma step_arrays:
  assumes laws: "sha256_lawful (pl_sys P)" "settings_load_ok (pl_sys P)" "rx_typed (pl_mq P)"
    and "fw_step P d fuel outside s s'" and inv: "fw_arrays s"
  shows "fw_arrays s'"
  using assms(4)
proof cases
  case (ha_init rc hs)
  then show ?thesis using inv ha_mqtt_init_arrays [of "fw_helpers s" "pl_kn P" "fw_world s"] by (simp add: fw_arrays_def)
next
  case (ha_poll up ha w)
  then show ?thesis using inv ha_poll_arrays [OF ha_poll(3)] by (simp add: fw_arrays_def)
next
  case (ha_turn up ha w)
  then show ?thesis using inv ha_turn_arrays [OF laws(3) ha_turn(3)] by (simp add: fw_arrays_def)
next
  case (mqtt tk w)
  have "mqtt_keeps P (\<lambda>_. ())"
    by (simp add: mqtt_keeps_def common_keeps_def base_keeps_def sys_keeps_def outputs_keep_def fs_keeps_def handler_keeps_def
        reads_keep_def client_keeps_def broker_keeps_def)
  from mqtt_step_keeps(2) [OF this mqtt(2)] have "helpers_arrays (tk_helpers tk)"
    using inv ha_mqtt_init_arrays by (auto simp: fw_arrays_def)
  then show ?thesis using mqtt(1) inv by (simp add: fw_arrays_def)
next
  case (http ep client status req resp answer wb w)
  then show ?thesis using inv serve_arrays [OF laws(1,2) _ http(4)] by (simp add: fw_arrays_def)
qed (use inv in \<open>simp_all add: fw_arrays_def\<close>)

text \<open>
  C27. No copy or printed text overruns its array in the running firmware: in every state that any interleaving of
  its threads, requests and outside events leads to, the response arrays of the handlers and
  the arrays they collect a body in, with their cursors, the users, the session tokens, the
  identifier and the address, and the message the Home Assistant task fills have exactly
  their declared sizes.
\<close>

theorem arrays_keep_their_bounds:
  assumes "sha256_lawful (pl_sys P)" and "settings_load_ok (pl_sys P)" and "rx_typed (pl_mq P)"
    and "fw_boot P sett w0 = Some s0" and "(fw_step P d fuel outside)\<^sup>*\<^sup>* s0 s"
  shows "fw_arrays s"
  using assms(5)
  by (induction rule: rtranclp_induct) (auto intro: boot_arrays [OF assms(1,2,4)] step_arrays [OF assms(1-3)])

text \<open>A receive queue whose elements have the declared size, and a request that switches the relays.\<close>

definition demo_typed_platform :: "demo_world platform" where
  "demo_typed_platform = demo_platform\<lparr>pl_mq := demo_msgq\<lparr>rx_get := \<lambda>w. case dw_rx w of [] \<Rightarrow> (- ENOMSG, undefined, w)
     | m # ms \<Rightarrow> if msg_arrays m then (0, m, w\<lparr>dw_rx := ms\<rparr>) else (- ENOMSG, undefined, w)\<rparr>\<rparr>"

lemma demo_typed_rx: "rx_typed (pl_mq demo_typed_platform)"
  by (auto simp: rx_typed_def demo_typed_platform_def ENOMSG_def split: list.splits if_splits)

theorem arrays_keep_their_bounds_witness:
  "\<exists>s0 s. fw_boot demo_typed_platform mqtt_settings_zero demo_init = Some s0 \<and>
     (fw_step demo_typed_platform demo_safe 0 demo_outside)\<^sup>*\<^sup>* s0 s \<and> om_state (dw_outputs (fw_world s)) = 5 \<and> fw_arrays s"
proof -
  obtain s0 a wb w where b: "fw_boot demo_platform mqtt_settings_zero demo_init = Some s0" and o: "om_state (dw_outputs w) = 5"
    and sv: "serve demo_sys demo_zbus demo_ha_kernel demo_bt demo_no_fs 0 Relays_State post_client HTTP_SERVER_DATA_FINAL
      (with_body ''101'') demo_resp (fw_web s0, fw_world s0) = Some (a, (wb, w))"
    using demo_fw_run by (auto split: option.splits simp del: serve.simps)
  let ?s = "s0\<lparr>fw_web := wb, fw_world := w\<rparr>"
  have sys: "sha256_lawful (pl_sys demo_typed_platform)" "settings_load_ok (pl_sys demo_typed_platform)"
    by (simp_all add: demo_typed_platform_def demo_platform_def demo_sha256_lawful demo_settings_load_ok)
  have b': "fw_boot demo_typed_platform mqtt_settings_zero demo_init = Some s0"
    using b by (simp add: fw_boot_def demo_typed_platform_def cong: option.case_cong)
  have "accepts Relays_State post_client" by (simp add: accepts_def api_relays_state_def post_client_def)
  then have r: "(fw_step demo_typed_platform demo_safe 0 demo_outside)\<^sup>*\<^sup>* s0 ?s"
    using sv by (intro r_into_rtranclp fw_step.http [of Relays_State])
      (simp_all add: demo_typed_platform_def demo_platform_def del: serve.simps)
  from arrays_keep_their_bounds [OF sys demo_typed_rx b' r] b' r o show ?thesis by (intro exI [of _ s0] exI [of _ ?s]) simp
qed

end
