(* ===== verification/Diag_Report.thy ===== *)
theory Diag_Report
  imports Cedar_Prelude
begin

text \<open>
  The diagnostic report of \<open>diagnostic/diag_report.c\<close>: the network statistics printed from a
  delayable work item, the totals over all interfaces, the worker thread that prints a few
  lines per interval, and the calls that start and stop it. The file is not in the build of
  this commit (\<open>CMakeLists.txt\<close> and \<open>main.c\<close> have it commented out); the model is of the
  source as it stands.

  The output of the file is the log: a line is its level and the items of its format string,
  text and values, with the layout left out. The compile-time options are a record, and
  Zephyr's statistics, interfaces, heap and clock are a record of functions over the
  world \<open>'w\<close>. A routine that prints reads the counters of one moment.
\<close>

section \<open>Options, counters and log lines\<close>

record diag_config =
  CONFIG_NET_IPV6 :: bool
  CONFIG_NET_IPV6_ND :: bool
  CONFIG_NET_IPV6_PMTU :: bool
  CONFIG_NET_STATISTICS_MLD :: bool
  CONFIG_NET_IPV4 :: bool
  CONFIG_NET_IPV4_PMTU :: bool
  CONFIG_NET_UDP :: bool
  CONFIG_NET_STATISTICS_TCP :: bool
  CONFIG_NET_STATISTICS_PER_INTERFACE :: bool
  CONFIG_NET_STATISTICS_ETHERNET :: bool
  CONFIG_MEM_POOL_HEAP :: bool
  CONFIG_SYS_HEAP_RUNTIME_STATS :: bool
  CONFIG_HEAP_MEM_POOL_SIZE :: "u32 option"
  CONFIG_NET_SOCKETS :: bool
  CONFIG_NET_SOCKETS_MAX :: "int option"
  CONFIG_NET_SOCKETS_POLL_MAX :: "int option"

text \<open>
  Zephyr's counters as the file reads them: \<open>net_stats_t\<close> has 32 bits, byte counts have 64.
\<close>

record pkt_stats =
  recv :: u32
  sent :: u32
  lost :: u32 \<comment> \<open>the field \<open>drop\<close>\<close>

record ip_stats = pkt_stats +
  forwarded :: u32

record icmp_stats = pkt_stats +
  icmp_typeerr :: u32
  icmp_chkerr :: u32

record udp_stats = pkt_stats +
  udp_chkerr :: u32

record byte_stats =
  bytes_received :: u64
  bytes_sent :: u64

record tcp_stats = pkt_stats +
  tcp_bytes :: byte_stats
  resent :: u32
  tcp_chkerr :: u32
  ackerr :: u32
  rsterr :: u32
  rst :: u32
  rexmit :: u32
  conndrop :: u32
  connrst :: u32

record ip_error_stats =
  vhlerr :: u32
  hblenerr :: u32
  lblenerr :: u32
  fragerr :: u32
  chkerr :: u32
  protoerr :: u32

record net_stats =
  ipv6 :: ip_stats
  ipv6_nd :: pkt_stats
  ipv6_pmtu :: pkt_stats
  ipv6_mld :: pkt_stats
  ipv4 :: ip_stats
  ip_errors :: ip_error_stats
  ipv4_pmtu :: pkt_stats
  icmp :: icmp_stats
  udp :: udp_stats
  tcp :: tcp_stats
  bytes :: byte_stats
  processing_error :: u32

record net_stats_eth =
  eth_bytes :: byte_stats
  pkts_rx :: u32
  pkts_tx :: u32
  broadcast_rx :: u32
  broadcast_tx :: u32
  multicast_rx :: u32
  multicast_tx :: u32

text \<open>
  The items of a line: \<open>FU\<close>, \<open>FLLU\<close>, \<open>FD\<close> and \<open>FP\<close> are the conversions of the format string for
  a 32-bit and a 64-bit unsigned number, a signed number and an interface's address.
\<close>

datatype log_item = Txt string | FU u32 | FLLU u64 | FD int | FP nat

datatype log_line = LOG_INF "log_item list" | LOG_WRN "log_item list"

text \<open>
  \<open>net_mgmt\<close> is given the caller's structure and returns its code and the structure as it
  leaves it. The list \<open>net_ifs\<close> is the order in which \<open>net_if_foreach\<close> visits the interfaces.
\<close>

record 'w diag_api =
  net_ifs :: "nat list"
  net_if_get_by_iface :: "nat \<Rightarrow> int"
  is_ethernet :: "nat \<Rightarrow> bool" \<comment> \<open>the test on \<open>net_if_l2\<close>\<close>
  if_stats :: "'w \<Rightarrow> nat \<Rightarrow> net_stats" \<comment> \<open>the member \<open>stats\<close> of the interface\<close>
  net_if_get_stats :: "'w \<Rightarrow> nat \<Rightarrow> net_stats option"
  stats_get_all :: "'w \<Rightarrow> nat option \<Rightarrow> net_stats \<Rightarrow> int \<times> net_stats"
    \<comment> \<open>\<open>net_mgmt (NET_REQUEST_STATS_GET_ALL)\<close>; no interface means all together\<close>
  stats_get_ethernet :: "'w \<Rightarrow> nat \<Rightarrow> net_stats_eth \<Rightarrow> int \<times> net_stats_eth"
  heap_stats_get :: "'w \<Rightarrow> int \<times> u32 \<times> u32 \<times> u32" \<comment> \<open>free, allocated, highest allocated\<close>
  net_if_get_default :: "'w \<Rightarrow> nat option"
  net_if_is_up :: "'w \<Rightarrow> nat \<Rightarrow> bool"
  net_if_get_mtu :: "'w \<Rightarrow> nat \<Rightarrow> u16"
  uptime :: "'w \<Rightarrow> nat"

section \<open>Statistics of one interface or of all\<close>

text \<open>The structure the macro \<open>GET_STAT\<close> reads its counter from.\<close>

definition GET_STAT ::
  "diag_config \<Rightarrow> 'w diag_api \<Rightarrow> 'w \<Rightarrow> nat option \<Rightarrow> net_stats \<Rightarrow> net_stats" where
  "GET_STAT cf ap w iface data =
     (if CONFIG_NET_STATISTICS_PER_INTERFACE cf
      then case iface of Some i \<Rightarrow> if_stats ap w i | None \<Rightarrow> data
      else data)"

definition stats_title :: "'w diag_api \<Rightarrow> nat option \<Rightarrow> log_line" where
  "stats_title ap iface =
     (case iface of
        Some i \<Rightarrow> LOG_INF [Txt ''Statistics for interface'', FP i, FD (net_if_get_by_iface ap i)]
      | None \<Rightarrow> LOG_INF [Txt ''Global network statistics''])"

definition ipv6_lines :: "diag_config \<Rightarrow> net_stats \<Rightarrow> log_line list" where
  "ipv6_lines cf d =
     (if CONFIG_NET_IPV6 cf then
        [LOG_INF [Txt ''IPv6 recv'', FU (recv (ipv6 d)), Txt ''sent'', FU (sent (ipv6 d)),
                  Txt ''drop'', FU (lost (ipv6 d)), Txt ''forwarded'', FU (forwarded (ipv6 d))]]
        @ (if CONFIG_NET_IPV6_ND cf then
             [LOG_INF [Txt ''IPv6 ND recv'', FU (recv (ipv6_nd d)),
                       Txt ''sent'', FU (sent (ipv6_nd d)), Txt ''drop'', FU (lost (ipv6_nd d))]]
           else [])
        @ (if CONFIG_NET_IPV6_PMTU cf then
             [LOG_INF [Txt ''IPv6 PMTU recv'', FU (recv (ipv6_pmtu d)),
                       Txt ''sent'', FU (sent (ipv6_pmtu d)), Txt ''drop'', FU (lost (ipv6_pmtu d))]]
           else [])
        @ (if CONFIG_NET_STATISTICS_MLD cf then
             [LOG_INF [Txt ''IPv6 MLD recv'', FU (recv (ipv6_mld d)),
                       Txt ''sent'', FU (sent (ipv6_mld d)), Txt ''drop'', FU (lost (ipv6_mld d))]]
           else [])
      else [])"

definition ipv4_lines :: "diag_config \<Rightarrow> net_stats \<Rightarrow> log_line list" where
  "ipv4_lines cf d =
     (if CONFIG_NET_IPV4 cf then
        [LOG_INF [Txt ''IPv4 recv'', FU (recv (ipv4 d)), Txt ''sent'', FU (sent (ipv4 d)),
                  Txt ''drop'', FU (lost (ipv4 d)), Txt ''forwarded'', FU (forwarded (ipv4 d))]]
      else [])
     @ [LOG_INF [Txt ''IP vhlerr'', FU (vhlerr (ip_errors d)), Txt ''hblener'',
                 FU (hblenerr (ip_errors d)), Txt ''lblener'', FU (lblenerr (ip_errors d))],
        LOG_INF [Txt ''IP fragerr'', FU (fragerr (ip_errors d)), Txt ''chkerr'',
                 FU (chkerr (ip_errors d)), Txt ''protoer'', FU (protoerr (ip_errors d))]]"

definition ipv4_pmtu_lines :: "diag_config \<Rightarrow> net_stats \<Rightarrow> log_line list" where
  "ipv4_pmtu_lines cf d =
     (if CONFIG_NET_IPV4_PMTU cf then
        [LOG_INF [Txt ''IPv4 PMTU recv'', FU (recv (ipv4_pmtu d)),
                  Txt ''sent'', FU (sent (ipv4_pmtu d)), Txt ''drop'', FU (lost (ipv4_pmtu d))]]
      else [])"

definition icmp_lines :: "net_stats \<Rightarrow> log_line list" where
  "icmp_lines d =
     [LOG_INF [Txt ''ICMP recv'', FU (recv (icmp d)), Txt ''sent'', FU (sent (icmp d)),
               Txt ''drop'', FU (lost (icmp d))],
      LOG_INF [Txt ''ICMP typeer'', FU (icmp_typeerr (icmp d)),
               Txt ''chkerr'', FU (icmp_chkerr (icmp d))]]"

definition udp_lines :: "diag_config \<Rightarrow> net_stats \<Rightarrow> log_line list" where
  "udp_lines cf d =
     (if CONFIG_NET_UDP cf then
        [LOG_INF [Txt ''UDP recv'', FU (recv (udp d)), Txt ''sent'', FU (sent (udp d)),
                  Txt ''drop'', FU (lost (udp d))],
         LOG_INF [Txt ''UDP chkerr'', FU (udp_chkerr (udp d))]]
      else [])"

definition tcp_lines :: "diag_config \<Rightarrow> net_stats \<Rightarrow> log_line list" where
  "tcp_lines cf d =
     (if CONFIG_NET_STATISTICS_TCP cf then
        [LOG_INF [Txt ''TCP bytes recv'', FLLU (bytes_received (tcp_bytes (tcp d))),
                  Txt ''sent'', FLLU (bytes_sent (tcp_bytes (tcp d)))],
         LOG_INF [Txt ''TCP seg recv'', FU (recv (tcp d)), Txt ''sent'', FU (sent (tcp d)),
                  Txt ''drop'', FU (lost (tcp d))],
         LOG_INF [Txt ''TCP seg resent'', FU (resent (tcp d)), Txt ''chkerr'', FU (tcp_chkerr (tcp d)),
                  Txt ''ackerr'', FU (ackerr (tcp d))],
         LOG_INF [Txt ''TCP seg rsterr'', FU (rsterr (tcp d)), Txt ''rst'', FU (rst (tcp d)),
                  Txt ''re-xmit'', FU (rexmit (tcp d))],
         LOG_INF [Txt ''TCP conn drop'', FU (conndrop (tcp d)),
                  Txt ''connrst'', FU (connrst (tcp d))]]
      else [])"

definition byte_lines :: "net_stats \<Rightarrow> log_line list" where
  "byte_lines d =
     [LOG_INF [Txt ''Bytes received'', FLLU (bytes_received (bytes d))],
      LOG_INF [Txt ''Bytes sent'', FLLU (bytes_sent (bytes d))],
      LOG_INF [Txt ''Processing err'', FU (processing_error d)]]"

definition print_stats ::
  "diag_config \<Rightarrow> 'w diag_api \<Rightarrow> 'w \<Rightarrow> nat option \<Rightarrow> net_stats \<Rightarrow> log_line list" where
  "print_stats cf ap w iface data =
     (let d = GET_STAT cf ap w iface data in
      stats_title ap iface # ipv6_lines cf d @ ipv4_lines cf d @ ipv4_pmtu_lines cf d
        @ icmp_lines d @ udp_lines cf d @ tcp_lines cf d @ byte_lines d)"

text \<open>The second printer, for an interface's own counters; no caller uses it.\<close>

definition print_stats_for_iface ::
  "diag_config \<Rightarrow> 'w diag_api \<Rightarrow> 'w \<Rightarrow> nat \<Rightarrow> log_line list" where
  "print_stats_for_iface cf ap w iface =
     (case net_if_get_stats ap w iface of
        None \<Rightarrow> [LOG_INF [Txt ''Stats unavailable for iface'', FP iface,
                         FD (net_if_get_by_iface ap iface)]]
      | Some s \<Rightarrow>
          [LOG_INF [Txt ''Statistics for interface'', FP iface, FD (net_if_get_by_iface ap iface)]]
          @ (if CONFIG_NET_IPV4 cf then
               [LOG_INF [Txt ''IPv4 recv'', FU (recv (ipv4 s)), Txt ''sent'', FU (sent (ipv4 s)),
                         Txt ''drop'', FU (lost (ipv4 s)), Txt ''fwd'', FU (forwarded (ipv4 s))]]
             else [])
          @ [LOG_INF [Txt ''IP vhlerr'', FU (vhlerr (ip_errors s)), Txt ''hblener'',
                      FU (hblenerr (ip_errors s)), Txt ''lblener'', FU (lblenerr (ip_errors s))],
             LOG_INF [Txt ''IP fragerr'', FU (fragerr (ip_errors s)), Txt ''chkerr'',
                      FU (chkerr (ip_errors s)), Txt ''protoer'', FU (protoerr (ip_errors s))]]
          @ (if CONFIG_NET_UDP cf then
               [LOG_INF [Txt ''UDP recv'', FU (recv (udp s)), Txt ''sent'', FU (sent (udp s)),
                         Txt ''drop'', FU (lost (udp s)), Txt ''chkerr'', FU (udp_chkerr (udp s))]]
             else [])
          @ tcp_lines cf s @ byte_lines s)"

section \<open>The statistics work item\<close>

text \<open>
  The structure \<open>data\<close> is a local variable of \<open>stats\<close> that nothing initialises: its first
  content is an argument of the model, and \<open>iface_cb\<close> hands the same structure from one
  interface to the next. The results of these requests are not looked at.
\<close>

definition iface_cb ::
  "diag_config \<Rightarrow> 'w diag_api \<Rightarrow> 'w \<Rightarrow> nat \<Rightarrow> net_stats \<times> log_line list \<Rightarrow> net_stats \<times> log_line list"
where
  "iface_cb cf ap w iface = (\<lambda>(data, out).
     let data' = snd (stats_get_all ap w (Some iface) data) in
     (data', out @ print_stats cf ap w (Some iface) data'))"

definition print_eth_stats :: "'w diag_api \<Rightarrow> nat \<Rightarrow> net_stats_eth \<Rightarrow> log_line list" where
  "print_eth_stats ap iface d =
     [LOG_INF [Txt ''Statistics for Ethernet interface'', FP iface, FD (net_if_get_by_iface ap iface)],
      LOG_INF [Txt ''Bytes received'', FLLU (bytes_received (eth_bytes d))],
      LOG_INF [Txt ''Bytes sent'', FLLU (bytes_sent (eth_bytes d))],
      LOG_INF [Txt ''Packets received'', FU (pkts_rx d)],
      LOG_INF [Txt ''Packets sent'', FU (pkts_tx d)],
      LOG_INF [Txt ''Bcast received'', FU (broadcast_rx d)],
      LOG_INF [Txt ''Bcast sent'', FU (broadcast_tx d)],
      LOG_INF [Txt ''Mcast received'', FU (multicast_rx d)],
      LOG_INF [Txt ''Mcast sent'', FU (multicast_tx d)]]"

definition eth_iface_cb ::
  "'w diag_api \<Rightarrow> 'w \<Rightarrow> net_stats_eth \<Rightarrow> nat \<Rightarrow> log_line list \<Rightarrow> log_line list" where
  "eth_iface_cb ap w garbage iface out =
     (if \<not> is_ethernet ap iface then out
      else let (ret, d) = stats_get_ethernet ap w iface garbage in
        if ret < 0 then out else out @ print_eth_stats ap iface d)"

text \<open>What \<open>stats\<close> prints; that it re-arms its timer is in the next section.\<close>

definition stats_lines ::
  "diag_config \<Rightarrow> 'w diag_api \<Rightarrow> net_stats \<times> net_stats_eth \<Rightarrow> 'w \<Rightarrow> log_line list" where
  "stats_lines cf ap garbage w =
     (let data = snd (stats_get_all ap w None (fst garbage));
          out = print_stats cf ap w None data;
          out = (if CONFIG_NET_STATISTICS_PER_INTERFACE cf
                 then snd (fold (iface_cb cf ap w) (net_ifs ap) (data, out)) else out)
      in if CONFIG_NET_STATISTICS_ETHERNET cf
         then fold (eth_iface_cb ap w (snd garbage)) (net_ifs ap) out else out)"

section \<open>Totals over the interfaces\<close>

record totals =
  t_rx :: u64
  t_tx :: u64

definition zero_net_stats :: net_stats where
  "zero_net_stats =
     (let p = \<lparr>recv = 0, sent = 0, lost = 0\<rparr>; b = \<lparr>bytes_received = 0, bytes_sent = 0\<rparr> in
      \<lparr>ipv6 = pkt_stats.extend p (ip_stats.fields 0), ipv6_nd = p, ipv6_pmtu = p, ipv6_mld = p,
       ipv4 = pkt_stats.extend p (ip_stats.fields 0),
       ip_errors = \<lparr>vhlerr = 0, hblenerr = 0, lblenerr = 0, fragerr = 0, chkerr = 0, protoerr = 0\<rparr>,
       ipv4_pmtu = p, icmp = pkt_stats.extend p (icmp_stats.fields 0 0),
       udp = pkt_stats.extend p (udp_stats.fields 0),
       tcp = pkt_stats.extend p (tcp_stats.fields b 0 0 0 0 0 0 0 0),
       bytes = b, processing_error = 0\<rparr>)"

definition sum_and_print_cb ::
  "diag_config \<Rightarrow> 'w diag_api \<Rightarrow> 'w \<Rightarrow> nat \<Rightarrow> totals \<times> log_line list \<Rightarrow> totals \<times> log_line list" where
  "sum_and_print_cb cf ap w iface = (\<lambda>(t, out).
     let (ret, st) = stats_get_all ap w (Some iface) zero_net_stats in
     if ret < 0 then (t, out @ [LOG_WRN [Txt ''Cannot get stats for iface'', FP iface, FD ret]])
     else (\<lparr>t_rx = t_rx t + bytes_received (bytes st), t_tx = t_tx t + bytes_sent (bytes st)\<rparr>,
           out @ print_stats cf ap w (Some iface) st))"

definition total_line :: "totals \<Rightarrow> log_line" where
  "total_line t = LOG_INF [Txt ''Total bytes rx='', FLLU (t_rx t), Txt '' tx='', FLLU (t_tx t)]"

definition stats_work_lines :: "diag_config \<Rightarrow> 'w diag_api \<Rightarrow> 'w \<Rightarrow> log_line list" where
  "stats_work_lines cf ap w =
     (let (t, out) = fold (sum_and_print_cb cf ap w) (net_ifs ap) (\<lparr>t_rx = 0, t_tx = 0\<rparr>, [])
      in out @ [total_line t])"

section \<open>The worker thread's report\<close>

definition diag_mem :: "diag_config \<Rightarrow> 'w diag_api \<Rightarrow> 'w \<Rightarrow> log_line" where
  "diag_mem cf ap w =
     (if CONFIG_MEM_POOL_HEAP cf \<and> CONFIG_SYS_HEAP_RUNTIME_STATS cf then
        (case heap_stats_get ap w of
           (rc, free, alloc, max_alloc) \<Rightarrow>
             if rc = 0 then LOG_INF [Txt ''DIAG MEM free='', FU free, Txt '' alloc='', FU alloc,
                                     Txt '' max_alloc='', FU max_alloc]
             else LOG_INF [Txt ''DIAG MEM stats_unavail''])
      else case CONFIG_HEAP_MEM_POOL_SIZE cf of
        Some n \<Rightarrow> LOG_INF [Txt ''DIAG MEM pool_size='', FU n, Txt '' (compile-time only)'']
      | None \<Rightarrow> LOG_INF [Txt ''DIAG MEM disabled''])"

definition diag_iface_brief :: "'w diag_api \<Rightarrow> 'w \<Rightarrow> log_line" where
  "diag_iface_brief ap w =
     (case net_if_get_default ap w of
        None \<Rightarrow> LOG_INF [Txt ''DIAG IF none'']
      | Some i \<Rightarrow> LOG_INF [Txt ''DIAG IF up='', FD (if net_if_is_up ap w i then 1 else 0),
                          Txt '' mtu='', FU (ucast (net_if_get_mtu ap w i))])"

definition diag_sockets :: "diag_config \<Rightarrow> log_line" where
  "diag_sockets cf =
     (if CONFIG_NET_SOCKETS cf then
        LOG_INF [Txt ''DIAG SOCK max='',
                 FD (case CONFIG_NET_SOCKETS_MAX cf of Some n \<Rightarrow> n | None \<Rightarrow> - 1),
                 Txt '' poll_max='',
                 FD (case CONFIG_NET_SOCKETS_POLL_MAX cf of Some n \<Rightarrow> n | None \<Rightarrow> - 1)]
      else LOG_INF [Txt ''DIAG SOCK disabled''])"

definition tick_lines :: "diag_config \<Rightarrow> 'w diag_api \<Rightarrow> 'w \<Rightarrow> log_line list" where
  "tick_lines cf ap w =
     [LOG_INF [Txt ''DIAG TICK up_ms='', FD (int (uptime ap w))],
      diag_iface_brief ap w, diag_mem cf ap w, diag_sockets cf]"

section \<open>The timer, the worker and the calls\<close>

text \<open>
  The state of the file: the delayable work item (the function it runs, the time it is due, and
  whether it was ever initialised again while pending, which the kernel leaves undefined),
  \<open>g_diag\<close>, the threads created on \<open>net_diag_thread\<close> and \<open>net_diag_stack\<close> that have not
  returned, each with the time it next looks at \<open>g_diag.run\<close>, and the log.
\<close>

datatype work_fn = WORK_stats | WORK_stats_work

record diag_st =
  tm_handler :: "work_fn option"
  tm_due :: "nat option"
  tm_reinit :: bool
  g_interval :: nat
  g_run :: bool
  workers :: "nat list"
  lines :: "log_line list"

type_synonym 'w diag = "diag_st \<times> 'w"

definition diag_initial :: diag_st where
  "diag_initial = \<lparr>tm_handler = None, tm_due = None, tm_reinit = False, g_interval = 5000,
     g_run = False, workers = [], lines = []\<rparr>"

definition SAMPLE_PERIOD_ms :: nat where
  "SAMPLE_PERIOD_ms = 30 * 1000"

definition k_work_reschedule :: "'w diag_api \<Rightarrow> 'w diag \<Rightarrow> 'w diag" where
  "k_work_reschedule ap = (\<lambda>(s, w). (s\<lparr>tm_due := Some (uptime ap w + SAMPLE_PERIOD_ms)\<rparr>, w))"

definition stats ::
  "diag_config \<Rightarrow> 'w diag_api \<Rightarrow> net_stats \<times> net_stats_eth \<Rightarrow> 'w diag \<Rightarrow> 'w diag" where
  "stats cf ap garbage = (\<lambda>(s, w).
     k_work_reschedule ap (s\<lparr>lines := lines s @ stats_lines cf ap garbage w\<rparr>, w))"

definition stats_work :: "diag_config \<Rightarrow> 'w diag_api \<Rightarrow> 'w diag \<Rightarrow> 'w diag" where
  "stats_work cf ap = (\<lambda>(s, w).
     k_work_reschedule ap (s\<lparr>lines := lines s @ stats_work_lines cf ap w\<rparr>, w))"

definition init_app :: "'w diag_api \<Rightarrow> 'w diag \<Rightarrow> 'w diag" where
  "init_app ap = (\<lambda>(s, w).
     k_work_reschedule ap
       (s\<lparr>tm_handler := Some WORK_stats, tm_reinit := tm_reinit s \<or> tm_due s \<noteq> None,
          tm_due := None\<rparr>, w))"

definition net_diag_start_periodic ::
  "diag_config \<Rightarrow> 'w diag_api \<Rightarrow> nat \<Rightarrow> 'w diag \<Rightarrow> 'w diag" where
  "net_diag_start_periodic cf ap interval s0 =
     (let (s, w) = stats_work cf ap (init_app ap s0) in
      if g_run s then (s, w)
      else (s\<lparr>g_interval := interval, g_run := True, workers := workers s @ [uptime ap w]\<rparr>, w))"

definition net_diag_stop :: "'w diag \<Rightarrow> 'w diag" where
  "net_diag_stop = (\<lambda>(s, w). (s\<lparr>g_run := False\<rparr>, w))"

text \<open>The work queue takes the item and calls the function it was initialised with.\<close>

definition timer_fires ::
  "diag_config \<Rightarrow> 'w diag_api \<Rightarrow> net_stats \<times> net_stats_eth \<Rightarrow> 'w diag \<Rightarrow> 'w diag" where
  "timer_fires cf ap garbage = (\<lambda>(s, w).
     let s' = s\<lparr>tm_due := None\<rparr> in
     case tm_handler s of
       Some WORK_stats \<Rightarrow> stats cf ap garbage (s', w)
     | Some WORK_stats_work \<Rightarrow> stats_work cf ap (s', w)
     | None \<Rightarrow> (s', w))"

text \<open>One round of the loop of \<open>net_diag_thread_fn\<close> in the thread at position \<open>i\<close>.\<close>

definition net_diag_thread_fn :: "diag_config \<Rightarrow> 'w diag_api \<Rightarrow> nat \<Rightarrow> 'w diag \<Rightarrow> 'w diag" where
  "net_diag_thread_fn cf ap i = (\<lambda>(s, w).
     if g_run s then
       (s\<lparr>lines := lines s @ tick_lines cf ap w,
          workers := (workers s)[i := uptime ap w + g_interval s]\<rparr>, w)
     else (s\<lparr>workers := take i (workers s) @ drop (Suc i) (workers s)\<rparr>, w))"

datatype diag_event = Start nat | Stop | Timer | Worker nat | Elsewhere

inductive diag_trace ::
  "diag_config \<Rightarrow> 'w diag_api \<Rightarrow> 'w \<Rightarrow> diag_event list \<Rightarrow> 'w diag \<Rightarrow> bool"
  for cf ap w0 where
  boot: "diag_trace cf ap w0 [] (diag_initial, w0)"
| start: "diag_trace cf ap w0 es s \<Longrightarrow>
    diag_trace cf ap w0 (es @ [Start n]) (net_diag_start_periodic cf ap n s)"
| stop: "diag_trace cf ap w0 es s \<Longrightarrow> diag_trace cf ap w0 (es @ [Stop]) (net_diag_stop s)"
| timer: "diag_trace cf ap w0 es (s, w) \<Longrightarrow> tm_due s = Some d \<Longrightarrow> d \<le> uptime ap w \<Longrightarrow>
    diag_trace cf ap w0 (es @ [Timer]) (timer_fires cf ap garbage (s, w))"
| worker: "diag_trace cf ap w0 es (s, w) \<Longrightarrow> i < length (workers s) \<Longrightarrow>
    workers s ! i \<le> uptime ap w \<Longrightarrow>
    diag_trace cf ap w0 (es @ [Worker i]) (net_diag_thread_fn cf ap i (s, w))"
| elsewhere: "diag_trace cf ap w0 es (s, w) \<Longrightarrow> uptime ap w \<le> uptime ap w' \<Longrightarrow>
    diag_trace cf ap w0 (es @ [Elsewhere]) (s, w')"


section \<open>What the printers print\<close>

text \<open>
  The documented behaviour of the statistics: the request for one interface copies its
  counters into the caller's structure.
\<close>

definition stats_lawful :: "'w diag_api \<Rightarrow> bool" where
  "stats_lawful ap \<longleftrightarrow>
     (\<forall>w i d. stats_get_all ap w (Some i) d = (0, if_stats ap w i)) \<and>
     (\<forall>w i. net_if_get_stats ap w i = Some (if_stats ap w i))"

lemma stats_law:
  assumes "stats_lawful ap"
  shows "stats_get_all ap w (Some i) d = (0, if_stats ap w i)"
    and "net_if_get_stats ap w i = Some (if_stats ap w i)"
  using assms by (auto simp: stats_lawful_def)

lemmas printer_defs = print_stats_def stats_title_def ipv6_lines_def ipv4_lines_def
  ipv4_pmtu_lines_def icmp_lines_def udp_lines_def tcp_lines_def byte_lines_def

text \<open>
  Which copy of the counters the macro reads does not matter for a structure the request filled.
\<close>

lemma print_stats_filled:
  "stats_lawful ap \<Longrightarrow>
     print_stats cf ap w (Some i) (snd (stats_get_all ap w (Some i) d)) =
     print_stats (cf\<lparr>CONFIG_NET_STATISTICS_PER_INTERFACE := False\<rparr>) ap w (Some i) (if_stats ap w i)"
  by (simp add: Let_def stats_law print_stats_def GET_STAT_def ipv6_lines_def ipv4_lines_def
      ipv4_pmtu_lines_def udp_lines_def tcp_lines_def)

lemma iface_cb_fold:
  assumes "stats_lawful ap"
  shows "snd (fold (iface_cb cf ap w) is (d, out)) =
     out @ concat (map (\<lambda>i. print_stats cf ap w (Some i) (if_stats ap w i)) is)"
  by (induction "is" arbitrary: d out) (simp_all add: iface_cb_def Let_def stats_law[OF assms])

definition eth_lines :: "'w diag_api \<Rightarrow> 'w \<Rightarrow> net_stats_eth \<Rightarrow> nat \<Rightarrow> log_line list" where
  "eth_lines ap w g i = eth_iface_cb ap w g i []"

lemma eth_iface_cb_append: "eth_iface_cb ap w g i out = out @ eth_lines ap w g i"
  by (auto simp: eth_lines_def eth_iface_cb_def split: prod.split)

lemma eth_iface_cb_fold:
  "fold (eth_iface_cb ap w g) is out = out @ concat (map (eth_lines ap w g) is)"
  by (induction "is" arbitrary: out) (simp_all add: eth_iface_cb_append)

text \<open>
  What one firing prints: all interfaces together, then each of them, then each that is an
  Ethernet interface whose request succeeded.
\<close>

lemma stats_lines_lawful:
  assumes "stats_lawful ap"
  shows "stats_lines cf ap garbage w =
    print_stats cf ap w None (snd (stats_get_all ap w None (fst garbage)))
    @ (if CONFIG_NET_STATISTICS_PER_INTERFACE cf
       then concat (map (\<lambda>i. print_stats cf ap w (Some i) (if_stats ap w i)) (net_ifs ap)) else [])
    @ (if CONFIG_NET_STATISTICS_ETHERNET cf
       then concat (map (eth_lines ap w (snd garbage)) (net_ifs ap)) else [])"
  by (simp add: stats_lines_def Let_def iface_cb_fold[OF assms] eth_iface_cb_fold)

text \<open>The counters a list of lines shows, in their order.\<close>

fun is_counter :: "log_item \<Rightarrow> bool" where
  "is_counter (FU _) = True"
| "is_counter (FLLU _) = True"
| "is_counter _ = False"

fun line_items :: "log_line \<Rightarrow> log_item list" where
  "line_items (LOG_INF xs) = xs"
| "line_items (LOG_WRN xs) = xs"

definition counters :: "log_line list \<Rightarrow> log_item list" where
  "counters ls = filter is_counter (concat (map line_items ls))"

lemma counters_simps [simp]:
  "counters [] = []"
  "counters (l # ls) = filter is_counter (line_items l) @ counters ls"
  "counters (ls @ ls') = counters ls @ counters ls'"
  by (simp_all add: counters_def)

text \<open>
  The unused printer shows counters the other one shows too, in the same order: it leaves out
  IPv6, path MTU and ICMP.
\<close>

lemma print_stats_for_iface_part:
  assumes "stats_lawful ap"
  shows "subseq (counters (print_stats_for_iface cf ap w i))
    (counters (print_stats cf ap w (Some i) (if_stats ap w i)))"
proof -
  let ?s = "if_stats ap w i"
  have "counters (print_stats_for_iface cf ap w i) =
      counters (ipv4_lines cf ?s) @ counters (udp_lines cf ?s) @ counters (tcp_lines cf ?s)
        @ counters (byte_lines ?s)"
    by (simp add: print_stats_for_iface_def stats_law[OF assms] ipv4_lines_def udp_lines_def)
  moreover have "counters (print_stats cf ap w (Some i) ?s) = counters (ipv6_lines cf ?s) @
      counters (ipv4_lines cf ?s) @ counters (ipv4_pmtu_lines cf ?s) @ counters (icmp_lines ?s) @
      counters (udp_lines cf ?s) @ counters (tcp_lines cf ?s) @ counters (byte_lines ?s)"
    by (simp add: print_stats_def GET_STAT_def stats_title_def Let_def)
  moreover have "subseq (a @ b) (x @ a @ y @ z @ b)" for a b x y z :: "log_item list"
    by (intro list_emb_append2 list_emb_append_mono subseq_order.order_refl)
  ultimately show ?thesis
    by simp
qed

section \<open>The totals\<close>

text \<open>The interfaces whose request succeeds, and the byte counts it returns.\<close>

definition answering :: "'w diag_api \<Rightarrow> 'w \<Rightarrow> nat list" where
  "answering ap w = filter (\<lambda>i. fst (stats_get_all ap w (Some i) zero_net_stats) \<ge> 0) (net_ifs ap)"

definition answer_bytes :: "'w diag_api \<Rightarrow> 'w \<Rightarrow> nat \<Rightarrow> byte_stats" where
  "answer_bytes ap w i = bytes (snd (stats_get_all ap w (Some i) zero_net_stats))"

lemma sum_fold:
  "fst (fold (sum_and_print_cb cf ap w) is (t, out)) =
     (let ok = filter (\<lambda>i. fst (stats_get_all ap w (Some i) zero_net_stats) \<ge> 0) is in
      \<lparr>t_rx = t_rx t + sum_list (map (bytes_received \<circ> answer_bytes ap w) ok),
       t_tx = t_tx t + sum_list (map (bytes_sent \<circ> answer_bytes ap w) ok)\<rparr>)"
proof (induction "is" arbitrary: t out)
  case (Cons i "is")
  then show ?case
    by (cases "stats_get_all ap w (Some i) zero_net_stats")
      (simp add: sum_and_print_cb_def answer_bytes_def Let_def add.assoc)
qed simp

lemma unat_sum_list: "unat (sum_list xs :: u64) = sum_list (map unat xs) mod 2 ^ 64"
  by (induction xs) (simp_all add: unat_word_ariths mod_simps)

lemma stats_work_totals:
  "last (stats_work_lines cf ap w) =
     total_line \<lparr>t_rx = sum_list (map (bytes_received \<circ> answer_bytes ap w) (answering ap w)),
                 t_tx = sum_list (map (bytes_sent \<circ> answer_bytes ap w) (answering ap w))\<rparr>"
proof -
  let ?f = "fold (sum_and_print_cb cf ap w) (net_ifs ap) (\<lparr>t_rx = 0, t_tx = 0\<rparr>, [])"
  have "last (stats_work_lines cf ap w) = total_line (fst ?f)"
    by (simp add: stats_work_lines_def split: prod.split)
  then show ?thesis
    by (simp add: sum_fold answering_def Let_def)
qed


section \<open>The statistics go on after the report is stopped\<close>

fun is_total :: "log_line \<Rightarrow> bool" where
  "is_total (LOG_INF (Txt t # _)) \<longleftrightarrow> t = ''Total bytes rx=''"
| "is_total _ \<longleftrightarrow> False"

abbreviation no_totals :: "log_line list \<Rightarrow> bool" where
  "no_totals ls \<equiv> filter is_total ls = []"

fun is_start :: "diag_event \<Rightarrow> bool" where
  "is_start (Start _) \<longleftrightarrow> True"
| "is_start _ \<longleftrightarrow> False"

lemma total_line_total [simp]: "is_total (total_line t)"
  by (simp add: total_line_def)

lemma print_stats_no_totals [simp]: "no_totals (print_stats cf ap w iface d)"
  by (simp add: printer_defs Let_def split: option.split)

lemma eth_iface_cb_no_totals: "no_totals out \<Longrightarrow> no_totals (eth_iface_cb ap w g i out)"
  by (auto simp: eth_iface_cb_def print_eth_stats_def split: prod.split)

lemma eth_fold_no_totals: "no_totals out \<Longrightarrow> no_totals (fold (eth_iface_cb ap w g) is out)"
  by (induction "is" arbitrary: out) (auto intro: eth_iface_cb_no_totals)

lemma iface_fold_no_totals:
  "no_totals (snd s) \<Longrightarrow> no_totals (snd (fold (iface_cb cf ap w) is s))"
  by (induction "is" arbitrary: s) (auto simp: iface_cb_def Let_def split: prod.splits)

lemma stats_lines_no_totals [simp]: "no_totals (stats_lines cf ap g w)"
  by (simp add: stats_lines_def Let_def eth_fold_no_totals iface_fold_no_totals)

lemma sum_fold_no_totals:
  "no_totals (snd s) \<Longrightarrow> no_totals (snd (fold (sum_and_print_cb cf ap w) is s))"
  by (induction "is" arbitrary: s) (auto simp: sum_and_print_cb_def Let_def split: prod.splits)

lemma stats_work_one_total:
  "length (filter is_total (stats_work_lines cf ap w)) = 1"
  using sum_fold_no_totals [of "(\<lparr>t_rx = 0, t_tx = 0\<rparr>, [])" cf ap w "net_ifs ap"]
  by (auto simp: stats_work_lines_def split: prod.split)

lemma tick_lines_no_totals [simp]: "no_totals (tick_lines cf ap w)"
  by (simp add: tick_lines_def diag_iface_brief_def diag_mem_def diag_sockets_def
      split: option.split prod.split)

lemma stats_lines_start:
  "stats_lines cf ap g w \<noteq> [] \<and> hd (stats_lines cf ap g w) = LOG_INF [Txt ''Global network statistics'']"
  (is "?P (stats_lines cf ap g w)")
proof -
  have p: "?P (print_stats cf ap w None d)" for d
    by (simp add: print_stats_def Let_def stats_title_def)
  have a: "?P ls \<Longrightarrow> ?P (ls @ ls')" for ls ls'
    by simp
  have i: "?P (snd s) \<Longrightarrow> ?P (snd (fold (iface_cb cf ap w) is s))" for s "is"
    by (induction "is" arbitrary: s) (auto simp: iface_cb_def Let_def split: prod.splits)
  show ?thesis
    using p i by (simp add: stats_lines_def Let_def eth_iface_cb_fold)
qed

lemmas diag_ops = net_diag_start_periodic_def stats_work_def init_app_def k_work_reschedule_def
  net_diag_stop_def timer_fires_def net_diag_thread_fn_def stats_def

text \<open>Each start prints one line of totals, and nothing else prints one.\<close>

lemma diag_trace_totals:
  "diag_trace cf ap w0 es s \<Longrightarrow>
     (tm_handler (fst s) = None \<or> tm_handler (fst s) = Some WORK_stats) \<and>
     length (filter is_total (lines (fst s))) = length (filter is_start es)"
proof (induction rule: diag_trace.induct)
  case (start es s n)
  then show ?case
    using stats_work_one_total [of cf ap] by (auto simp: diag_ops Let_def split: prod.splits)
next
  case (timer es s w d garbage)
  then show ?case
    by (auto simp: diag_ops Let_def split: option.splits work_fn.splits)
qed (auto simp: diag_ops diag_initial_def split: prod.splits)

text \<open>The timer is pending, with the handler \<open>init_app\<close> gave it.\<close>

definition timer_armed :: "'w diag_api \<Rightarrow> 'w diag \<Rightarrow> bool" where
  "timer_armed ap = (\<lambda>(s, w). tm_handler s = Some WORK_stats \<and>
     (\<exists>d. tm_due s = Some d \<and> d \<le> uptime ap w + SAMPLE_PERIOD_ms))"

lemma diag_trace_armed:
  "diag_trace cf ap w0 es s \<Longrightarrow> (\<exists>e\<in>set es. is_start e) \<Longrightarrow> timer_armed ap s"
proof (induction rule: diag_trace.induct)
  case (elsewhere es s w w')
  then show ?case
    by (force simp: timer_armed_def)
qed (auto simp: timer_armed_def diag_ops Let_def split: prod.splits option.splits)

text \<open>
  C40. The statistics outlive the report. Once \<open>net_diag_start_periodic\<close> has been called, whatever
  happens later, \<open>net_diag_stop\<close> included, the work item is pending and due within 30 seconds; as
  soon as it is due the work queue can run it, which prints the global statistics again (and
  re-arms it). The handler \<open>init_app\<close> gave it is \<open>stats\<close>, never \<open>stats_work\<close>, so the totals
  over the interfaces are printed once per start and by nothing else.
\<close>

theorem statistics_outlive_stop:
  assumes "diag_trace cf ap w0 es (s, w)" and "Start n \<in> set es"
  shows "tm_handler s = Some WORK_stats \<and> (\<exists>d. tm_due s = Some d \<and>
      d \<le> uptime ap w + SAMPLE_PERIOD_ms \<and>
      (\<forall>w' garbage. uptime ap w \<le> uptime ap w' \<longrightarrow> d \<le> uptime ap w' \<longrightarrow>
         (let s' = timer_fires cf ap garbage (s, w') in
          diag_trace cf ap w0 (es @ [Elsewhere, Timer]) s' \<and>
          LOG_INF [Txt ''Global network statistics''] \<in> set (drop (length (lines s)) (lines (fst s'))))))
    \<and> length (filter is_total (lines s)) = length (filter is_start es)"
proof -
  from diag_trace_armed [OF assms(1)] assms(2) obtain d where
    h: "tm_handler s = Some WORK_stats" and d: "tm_due s = Some d" "d \<le> uptime ap w + SAMPLE_PERIOD_ms"
    by (fastforce simp: timer_armed_def)
  have "diag_trace cf ap w0 (es @ [Elsewhere, Timer]) (timer_fires cf ap g (s, w'))"
    if "uptime ap w \<le> uptime ap w'" "d \<le> uptime ap w'" for w' g
    using diag_trace.timer [OF diag_trace.elsewhere [OF assms(1) that(1)] d(1) that(2)] by simp
  moreover have "LOG_INF [Txt ''Global network statistics''] \<in>
      set (drop (length (lines s)) (lines (fst (timer_fires cf ap g (s, w')))))" for w' g
    using stats_lines_start [of cf ap g w'] h
    by (auto simp: diag_ops Let_def neq_Nil_conv)
  ultimately show ?thesis
    using h d diag_trace_totals [OF assms(1)] by (auto simp: Let_def)
qed

text \<open>A device with two interfaces, whose world is its clock; the second request fails.\<close>

definition demo_diag :: "nat diag_api" where
  "demo_diag =
     \<lparr>net_ifs = [1, 2], net_if_get_by_iface = int, is_ethernet = (\<lambda>i. i = 1),
      if_stats = (\<lambda>w i. zero_net_stats\<lparr>processing_error := of_nat i\<rparr>),
      net_if_get_stats = (\<lambda>w i. Some (zero_net_stats\<lparr>processing_error := of_nat i\<rparr>)),
      stats_get_all = (\<lambda>w i d. if i = Some 2 then (- 5, d)
        else (0, zero_net_stats\<lparr>bytes := \<lparr>bytes_received = 7, bytes_sent = 9\<rparr>\<rparr>)),
      stats_get_ethernet = (\<lambda>w i d. (0, d)), heap_stats_get = (\<lambda>w. (0, 1, 2, 3)),
      net_if_get_default = (\<lambda>w. Some 1), net_if_is_up = (\<lambda>w i. True),
      net_if_get_mtu = (\<lambda>w i. 1500), uptime = (\<lambda>w. w)\<rparr>"

theorem statistics_outlive_stop_witness:
  "\<forall>cf. \<exists>s. diag_trace cf demo_diag 10 [Start 5000, Stop] (s, 10) \<and> \<not> g_run s \<and>
     tm_handler s = Some WORK_stats \<and> (\<exists>d. tm_due s = Some d) \<and>
     length (filter is_total (lines s)) = 1"
proof
  fix cf
  have "diag_trace cf demo_diag 10 ([] @ [Start 5000])
      (net_diag_start_periodic cf demo_diag 5000 (diag_initial, 10))"
    by (rule diag_trace.start [OF diag_trace.boot])
  from diag_trace.stop [OF this] obtain s where
    t: "diag_trace cf demo_diag 10 [Start 5000, Stop] (s, 10)" and "\<not> g_run s"
    by (auto simp: diag_ops diag_initial_def Let_def)
  with statistics_outlive_stop [OF t, of 5000] show "\<exists>s. diag_trace cf demo_diag 10 [Start 5000, Stop] (s, 10)
      \<and> \<not> g_run s \<and> tm_handler s = Some WORK_stats \<and> (\<exists>d. tm_due s = Some d) \<and>
      length (filter is_total (lines s)) = 1"
    by auto
qed

section \<open>Workers\<close>

text \<open>
  Each stop can leave one more worker behind: until the sleeping thread has looked at the
  flag, a start creates another on the same thread object and stack.
\<close>

lemma workers_bound:
  "diag_trace cf ap w0 es s \<Longrightarrow>
     length (workers (fst s)) + (if g_run (fst s) then 0 else 1) \<le> Suc (count_list es Stop)"
  by (induction rule: diag_trace.induct)
    (auto simp: diag_ops diag_initial_def Let_def split: prod.splits option.splits work_fn.splits)

text \<open>With no stop there is one worker at most, however often the report is started.\<close>

lemma one_worker:
  assumes "diag_trace cf ap w0 es s" and "Stop \<notin> set es"
  shows "length (workers (fst s)) \<le> 1"
  using workers_bound [OF assms(1)] assms(2) by (simp add: count_list_0_iff split: if_splits)

lemma start_idle:
  "\<not> g_run s \<Longrightarrow> \<exists>s'. net_diag_start_periodic cf ap n (s, w) = (s', w) \<and>
     g_run s' \<and> g_interval s' = n \<and> workers s' = workers s @ [uptime ap w]"
  by (simp add: diag_ops Let_def)

lemma restart_second_worker:
  "\<exists>s. diag_trace cf ap w0 [Start n, Worker 0, Stop, Start m] (s, w0) \<and>
     workers s = [uptime ap w0 + n, uptime ap w0] \<and> g_run s"
proof -
  obtain s1 where s1: "net_diag_start_periodic cf ap n (diag_initial, w0) = (s1, w0)"
    "g_run s1" "g_interval s1 = n" "workers s1 = [uptime ap w0]"
    using start_idle [of diag_initial cf ap n w0] by (auto simp: diag_initial_def)
  obtain s2 where s2: "net_diag_stop (net_diag_thread_fn cf ap 0 (s1, w0)) = (s2, w0)"
    "\<not> g_run s2" "workers s2 = [uptime ap w0 + n]"
    using s1 by (simp add: net_diag_stop_def net_diag_thread_fn_def)
  obtain s3 where s3: "net_diag_start_periodic cf ap m (s2, w0) = (s3, w0)"
    "g_run s3" "workers s3 = [uptime ap w0 + n, uptime ap w0]"
    using start_idle [OF s2(2), of cf ap m w0] s2 by auto
  have "diag_trace cf ap w0 [Start n] (s1, w0)"
    using diag_trace.start [OF diag_trace.boot, of cf ap w0 n] s1 by simp
  then have "diag_trace cf ap w0 [Start n, Worker 0] (net_diag_thread_fn cf ap 0 (s1, w0))"
    using diag_trace.worker [of cf ap w0 "[Start n]" s1 w0 0] s1 by simp
  then have "diag_trace cf ap w0 [Start n, Worker 0, Stop] (s2, w0)"
    using diag_trace.stop [of cf ap w0 "[Start n, Worker 0]"] s2 by fastforce
  then have "diag_trace cf ap w0 [Start n, Worker 0, Stop, Start m] (s3, w0)"
    using diag_trace.start [of cf ap w0 "[Start n, Worker 0, Stop]" "(s2, w0)" m] s3 by simp
  then show ?thesis
    using s3 by blast
qed

text \<open>
  A start while the report runs makes no thread, but comes before the test of the flag: it has
  initialised the pending timer again and printed the totals.
\<close>

lemma start_while_running:
  assumes "diag_trace cf ap w0 es (s, w)" and "Start k \<in> set es" and "g_run s"
  shows "let s' = fst (net_diag_start_periodic cf ap n (s, w)) in
    tm_reinit s' \<and> workers s' = workers s \<and> g_interval s' = g_interval s \<and>
    lines s' = lines s @ stats_work_lines cf ap w"
  using diag_trace_armed [OF assms(1)] assms(2,3)
  by (fastforce simp: timer_armed_def diag_ops Let_def)


end
