(* ===== verification/Spec2Isabelle.thy ===== *)
theory Spec2Isabelle
  imports Switching Secrets Web_Root Delete_Tree Static_Files Array_Bounds Diag_Report
begin

text \<open>
  A verification development of the firmware of the Cedar switch: three relays and three
  inputs behind a REST interface with a web page, and an MQTT client for Home Assistant, on
  Zephyr. All paths below are relative to \<open>src/src/\<close>.

  \<^bold>\<open>The program.\<close> Four threads work together. The HTTP server calls a handler for each piece of
  a request; the handlers of \<open>web/REST_endpoints/\<close> read and write the settings, the user list,
  the relay byte of the outputs channel and the files of the web page. The io thread
  (\<open>io/io.c\<close>) puts the relay byte of that channel on the pins, or the safe state while the
  connection to the broker is lost. The MQTT client thread (\<open>mqtt/ha_mqtt.c\<close>) connects,
  subscribes and sends what waits in the transmit queue; the client's events run the handler
  of \<open>mqtt/ha_mqtt_callback.c\<close> in that thread, which puts received commands in the receive
  queue and the state of the connection on the status channel. The Home Assistant thread
  (\<open>mqtt/ha_task.c\<close>) takes commands out of the receive queue, changes the relay byte, and
  puts the status messages of inputs and relays into the transmit queue. \<open>main.c\<close> starts the
  io thread, and the handler of the address event starts the server and the two MQTT threads.

  \<^bold>\<open>Conventions.\<close> A C array of bytes is a list of characters with the array's length, a C
  string what precedes the first NUL of it, an integer of fixed width a word, a structure a
  record, a static variable a component of the state an operation takes and returns, an error
  code an \<open>int\<close> as in the code. A thread is the body of its loop (\<open>Thread_Loop\<close>); what the
  other threads do between two turns is a relation on worlds that a theorem restricts as far
  as it needs. Code outside the repository is a record of functions on a world of any type
  (\<open>Platform\<close>, \<open>Device_Platform\<close>, \<open>Fs_Platform\<close>, \<open>Boot_Platform\<close>), with its documented
  behaviour as predicates that the theorems name as hypotheses (\<open>settings_lawful\<close>,
  \<open>json_lawful\<close>, \<open>msgq_tx_lawful\<close>, \<open>fs_file_lawful\<close>, ...); the functions and worlds called
  \<open>demo\<close> show that they can hold together and serve the witnesses only. What an uninitialised
  array holds is such a function as well (\<open>uninit\<close>). Files are identified by the place a path
  names, below the mount point and with \<open>..\<close> resolved (\<open>place\<close>), since many paths name one file.

  \<^bold>\<open>Theories and code.\<close>
  \<^item> \<open>Cedar_Prelude\<close>, \<open>Number_Format\<close>: C strings, buffers, \<open>printf\<close> and \<open>scanf\<close> conversions.
  \<^item> \<open>Topics\<close>: \<open>settings_topics.h\<close>, \<open>zbus_topics.h\<close>, \<open>msgq_topiks.h\<close>, \<open>global_var.h\<close>; the memory
    images of the stored structures are read back.
  \<^item> \<open>Session_Table\<close>, \<open>User_List\<close>, \<open>Authentication\<close>: \<open>web/authentication.c\<close>. The table refines a
    map from tokens to expiry times (locale \<open>session_store\<close>); the user list is what the settings
    hold after every acknowledged change; a request is accepted only with a live token or
    valid credentials (\<open>auth_outcome\<close> is its specification). \<open>User_Machine\<close>: the list under any
    sequence of operations and restarts.
  \<^item> \<open>Post_Buffer\<close>, \<open>Rest_Relays\<close>, \<open>Rest_Settings\<close>, \<open>Rest_Users\<close>: the handlers of
    \<open>relays_state.c\<close>, \<open>settings_status.c\<close>, \<open>default_relay_state.c\<close>, \<open>mqtt_settings.c\<close>, \<open>login.c\<close>
    and \<open>web_user_mgmt.c\<close>. The lines they share for a body in pieces are \<open>post_step\<close>, their
    contract the locale \<open>body_receiver\<close>, interpreted for each of them.
  \<^item> \<open>Fs_Helpers\<close>, \<open>Web_Files\<close>: \<open>littlefs/filesystem_helpers.c\<close>, the path check, query parser and
    upload of \<open>web/http_common.c\<close>, and \<open>webui_upload.c\<close>, \<open>webui_mkdir.c\<close>, \<open>webui_delete.c\<close>.
  \<^item> \<open>Relay_Bits\<close>, \<open>Io\<close>: the relay byte (locale \<open>relay_codec\<close>) and \<open>io/io.c\<close>.
  \<^item> \<open>Mqtt_Helpers\<close>: \<open>mqtt/ha_mqtt_helpers.c\<close>; topics are parsed back (locale \<open>topic_codec\<close>).
  \<^item> \<open>Mqtt_Adapter\<close>: \<open>mqtt/ha_mqtt_adapter.c\<close>; identifiers (locale \<open>id_allocator\<close>) and the sender.
  \<^item> \<open>Mqtt_Callback\<close>: \<open>mqtt/ha_mqtt_callback.c\<close>. \<open>Mqtt_Task\<close>: \<open>mqtt/ha_mqtt.c\<close>, with the invariant
    of its sessions.
  \<^item> \<open>Ha_Task\<close>, \<open>Ha_Picture\<close>: \<open>mqtt/ha_task.c\<close> and its specification, the map from each topic to
    the message put last on it, which shows the current bits.
  \<^item> \<open>Main_App\<close>: \<open>main.c\<close>, \<open>littlefs/littlefs_mount.c\<close>, \<open>web/http_server_init.c\<close>,
    \<open>system_reboot.c\<close>, \<open>test_functions.c\<close>.
  \<^item> \<open>Http_Api\<close>: the resources the handlers are registered for, and all handlers with their
    statics as one component, with what of the world a request leaves alone.
  \<^item> \<open>Firmware\<close>: the threads and the server interleaved on one world (\<open>fw_step\<close>). What the
    theorem of one thread assumes about the others is proved there of their code.
  \<^item> \<open>Switching\<close>: why a relay switches; a change of the outputs channel or of a pin in a run of
    the firmware is traced back to a request, a command or the connection's state.
  \<^item> \<open>Secrets\<close>: what a sequence of requests cannot find out (locale \<open>password_hidden\<close>).
    \<open>Web_Root\<close>: what one can do to the files. \<open>Delete_Tree\<close>: what the deletion of the web
    interface does to a tree of any depth.
  \<^item> \<open>Static_Files\<close>: the two services and the captured headers of \<open>web/http_server_init.c\<close>, the
    resource of \<open>web/static_resources.c\<close>, and the way of a file from the upload to the browser.
  \<^item> \<open>Array_Bounds\<close>: the sizes of the arrays in every reachable state of \<open>Firmware\<close>.
  \<^item> \<open>Diag_Report\<close>: \<open>diagnostic/diag_report.c\<close>, which the build of this commit leaves out.
  \<^item> this theory: the way of a command through handler, queue, task, channel and pins, and
    the handlers' independence of how a body arrives.

  \<^bold>\<open>What is shown.\<close> The properties carry the numbers C1 to C40, in the order of importance.
  C1 to C3, C25 and C27 are about the firmware as a whole, in every state that any interleaving
  leads to: a command reaches its relay, the threads keep their promises, a relay switches for
  a reason only, a user remains, no array is overrun. C7 to C9 are about the server as a whole: what a handler answers does not depend on the
  request's headers, no request finds out the password of the broker or changes a file beyond
  the web page. Those of one component are invariants of its reachable states (C4, C10, C21,
  C29), functional statements for its operations (C6, C19, C23, C24, C28), safety of
  what it accepts or changes (C5, C31), refinements of an abstract state (C12, C20), termination
  and progress (C11, C17, C30). Others join components: C13 to C16 and
  C18 what is stored, posted or uploaded and read later, also after a restart, C22 for three
  handlers at once. C26, C33, C37 and C38 are about error paths; C7 and C31 to C40 describe,
  with those, where the code does less than it means to.

  \<^bold>\<open>Loops.\<close> The loops of the payload reader, the path check and the query parser are
  \<open>function\<close>s with termination proofs. Three loops end only if the world cooperates and take
  fuel: deleting a tree and adding up sizes, where one unit for each entry of a directory and
  two more are enough (\<open>Fs_Helpers\<close>), and on a tree of any depth two units for each node below
  and one more (\<open>Delete_Tree\<close>); the Home Assistant thread's wait for a connection,
  where as many turns are enough as pass until the status channel reports one (C17).
  The 100 turns of \<open>initial_wait\<close> are the bound the code has. \<open>main_loop\<close> never ends
  by itself, so its fuel is the number of blinks one wants to look at.

  \<^bold>\<open>Where the model differs from the code.\<close> A turn of a thread is not interrupted: the others run
  between turns. The waits inside a turn, the registration's sleeps and the client's wait for
  the answer to its connection, are calls of the kernel that may change the world, but not
  the variables of the other threads; the wait of the Home Assistant thread is split into
  its turns (\<open>ha_poll\<close>). The statics of \<open>ha_mqtt_helpers.c\<close> are shared by both MQTT threads in
  \<open>Firmware\<close>; in the theories of the threads each state has its own. A step of the client
  thread before any identifier is set reads through a null pointer and has no successor
  (\<open>Mqtt_Task\<close> says exactly when). The run of \<open>Firmware\<close> starts
  with the first address event and ends with a reboot; what a further address event does is
  C35. Logging is left
  out, but for the file whose output it is (\<open>Diag_Report\<close>).

  \<^bold>\<open>Not modelled.\<close> The files of \<open>display/\<close> are empty. \<open>dump_hex\<close> of \<open>main.c\<close> only prints. \<open>ha_mqtt_register_device\<close> is an
  empty endless loop that nothing calls. The server that takes requests apart, matches them with
  resources and delivers files is a parameter. The definitions of channels and
  queues in \<open>zbus_topics.c\<close> and \<open>msgq_topiks.c\<close> are represented by their sizes and initial values.
\<close>

section \<open>From a command to the relay\<close>

lemma received_command:
  assumes "pe_topic pe = command_topik_text ident component_switch n" and "CHR ''/'' \<notin> set ident" and "nul_free ident"
    and "length ident \<le> 30" and "n \<le> 3" and "body = state_word on"
  shows "parse_incoming_message (mm_payload (received_msg pe body)) (mm_topic (received_msg pe body)) =
    Some (OUTPUT_DEVICE, of_nat n, of_bool on)"
proof -
  have "length (nat_dec n) \<le> 3" using assms(5) by (intro length_nat_dec_u8) simp
  then have len: "length (pe_topic pe) \<le> 127" using assms(1,4) by (simp add: length_state_texts component_switch_def)
  then have t: "cstr (mm_topic (received_msg pe body)) = command_topik_text ident component_switch n"
    using assms(3) by (simp add: received_msg_def assms(1) cstr_nul_pad)
  have "length (state_word on) \<le> 3" "nul_free (state_word on)" by (simp_all add: state_word_def)
  then have p: "cstr (mm_payload (received_msg pe body)) = state_word on"
    by (simp add: received_msg_def assms(6) cstr_nul_pad)
  from assms(5) have "n < 10 ^ 7" by simp
  from parse_command [OF t assms(2) this, of "mm_payload (received_msg pe body)" "state_word on" "[]" "of_bool on"] p
  show ?thesis by (simp add: state_word_scan)
qed

text \<open>The turn of the Home Assistant task that takes a command out of the queue.\<close>

lemma ha_turn_command:
  assumes laws: "outputs_lawful P v outside" and pub: "\<forall>w m. fst (zbus_pub_outputs (pl_zb P) w m) = 0"
    and rx: "mv_rx v w = m # ms"
    and parse: "parse_incoming_message (mm_payload m) (mm_topic m) = Some (OUTPUT_DEVICE, n, st)"
    and t: "ha_turn (pl_mq P) (pl_zb P) (pl_kn P) hs (s, w) = (True, (s', w'))"
  shows "\<exists>out. zbus_read_outputs (pl_zb P) w' = (0, out) \<and> om_state out = set_relay_bit (om_state (ht_outputs s)) n (st \<noteq> 0)"
proof -
  let ?g = "zbus_read_outputs (pl_zb P)" and ?now = "k_uptime_seconds (pl_kn P) w"
  let ?s0 = "s\<lparr>ht_mqtt := chan_read (zbus_read_mqtt (pl_zb P) w) (ht_mqtt s)\<rparr>"
  note l = outputs_laws [OF laws]
  have rxk: "tx_put_keeps (pl_mq P) (mv_rx v)"
    using l(7) unfolding tx_put_keeps_def msgq_tx_lawful_def by (metis prod.collapse)
  have zl: "zbus_outputs_lawful (pl_zb P)" using l(1) by (simp add: zbus_outputs_lawful_def)
  obtain s1 w1 where 1: "ha_report_inputs (pl_mq P) (pl_zb P) hs ?now (?s0, w) = (s1, w1)" by fastforce
  obtain s2 w2 where 2: "ha_command (pl_mq P) (pl_zb P) (s1, w1) = (s2, w2)" by fastforce
  have 3: "ha_report_outputs (pl_mq P) (pl_zb P) hs ?now (s2, w2) = (s', w')"
    using t 1 2 by (auto simp: ha_turn_def Let_def split: if_splits)
  have "mv_rx v w1 = m # ms" using ha_report_keeps(1) [OF rxk, of "pl_zb P" hs ?now "(?s0, w)"] 1 rx by simp
  from ha_command_published [OF l(8) zl pub this parse 2]
  have "?g w2 = (0, ht_outputs s2)" "om_state (ht_outputs s2) = set_relay_bit (om_state (ht_outputs s1)) n (st \<noteq> 0)"
    by simp_all
  moreover have "ht_outputs s1 = ht_outputs s"
    using report_inputs_outputs [of "pl_mq P" "pl_zb P" hs ?now "(?s0, w)"] 1 by simp
  moreover have "?g w' = ?g w2" using ha_report_keeps(2) [OF l(4), of "pl_zb P" hs ?now "(s2, w2)"] 3 by simp
  ultimately show ?thesis by simp
qed

text \<open>From the outputs channel to the pins.\<close>

lemma io_turn_connected:
  assumes l: "platform_lawful P pin v pubs subs ident outside" and inv: "fw_inv P pin v subs ident s"
    and out: "zbus_read_outputs (pl_zb P) (fw_world s) = (0, out)"
    and up: "zbus_read_mqtt (pl_zb P) (fw_world s) = (0, q)" "mq_connected q"
    and io: "io_task_body (pl_zb P) (pl_gp P) d (fw_io s, fw_world s) = (i, w)"
  shows "map (pin w) [0, 1, 2] = relay_pins (om_state out)"
proof -
  have "io_inv (pl_gp P) pin (fw_io s, fw_world s)" using inv by (simp add: fw_inv_def)
  from io_turn_pins [OF platform_laws(1) [OF l] this, of "pl_zb P" d] out io
  have "pins_show pin w (io_target (pl_zb P) d (fw_io s, fw_world s))" by simp
  moreover have "io_target (pl_zb P) d (fw_io s, fw_world s) = om_state out" using out up by (simp add: io_target_def)
  ultimately show ?thesis by (simp add: pins_show_def)
qed

text \<open>
  C1. A command reaches its relay, whatever happens in between: an \<open>ON\<close> or \<open>OFF\<close> that the
  broker delivers on the topic of relay \<open>n\<close>, and that has arrived when it is read, goes
  through the event handler into the receive queue; when, in any reachable state of the running firmware, it is the oldest message there,
  the next turn of the Home Assistant task puts it on the outputs channel; and as long as
  nobody else writes that channel, after any further steps of the other threads, requests
  and events outside, a turn of the io thread that finds the connection up leaves the pin of
  relay \<open>n\<close> as commanded, and the other two as the Home Assistant task last knew them.
\<close>

theorem command_reaches_relay:
  assumes "platform_lawful P pin v pubs subs ident outside" and "outputs_lawful P v outside"
    and "\<forall>w m. fst (zbus_pub_outputs (pl_zb P) w m) = 0"
    and "reads_keep_queues (pl_mc P) v" and "replies_keep_queues (pl_mc P) v"
    and "payload_lawful (pl_mc P) rest" and "payload_arrived (pl_mc P) rest w"
    and "1 \<le> n" and "n \<le> 3" and "pe_topic pe = command_topik_text (hex_text ident) component_switch n"
    and "rest w = (if on then ''ON'' else ''OFF'')" and "pe_payload_len pe = length (rest w)" and "length (mv_rx v w) < MSGQ_LEN"
    and "mqtt_evt_handler (pl_mc P) (pl_mq P) (pl_zb P) (pl_kn P) (MQTT_EVT_PUBLISH pe) (st, w) = (st', w1)"
    and "fw_boot P sett w0 = Some s0" and "(fw_step P d fuel outside)\<^sup>*\<^sup>* s0 s"
    and "mv_rx v (fw_world s) = last (mv_rx v w1) # ms" and "fw_phase s = Ha_Loop"
    and "ha_turn (pl_mq P) (pl_zb P) (pl_kn P) (fw_helpers s) (fw_ha s, fw_world s) = (True, (ha, w2))"
    and "(fw_step P d fuel outside)\<^sup>*\<^sup>* (s\<lparr>fw_ha := ha, fw_world := k_sleep (pl_kn P) w2\<rparr>) s2"
    and "zbus_read_outputs (pl_zb P) (fw_world s2) = zbus_read_outputs (pl_zb P) w2"
    and "zbus_read_mqtt (pl_zb P) (fw_world s2) = (0, q)" and "mq_connected q"
    and "io_task_body (pl_zb P) (pl_gp P) d (fw_io s2, fw_world s2) = (i, w3)"
  shows "map (pin w3) [0, 1, 2] = (relay_pins (om_state (ht_outputs (fw_ha s))))[n - 1 := on]"
proof -
  let ?m = "received_msg pe (rest w)"
  have "mv_rx v w1 = mv_rx v w @ [?m]"
    using publication_rx [OF platform_laws(3) [OF assms(1)] assms(4-7,12-14)] by simp
  then have rx: "mv_rx v (fw_world s) = ?m # ms" using assms(17) by simp
  have "rest w = state_word on" using assms(11) by (simp add: state_word_def)
  moreover have "length ident \<le> 15" using platform_laws(5) [OF assms(1)] by (simp add: hw_ident_def)
  ultimately have "parse_incoming_message (mm_payload ?m) (mm_topic ?m) = Some (OUTPUT_DEVICE, of_nat n, of_bool on)"
    by (intro received_command [OF assms(10) hex_text_no_slash _ _ assms(9)]) simp_all
  from ha_turn_command [OF assms(2,3) rx this assms(19)] obtain out where
    out: "zbus_read_outputs (pl_zb P) w2 = (0, out)" "om_state out = set_relay_bit (om_state (ht_outputs (fw_ha s))) (of_nat n) on"
    by auto
  have "s\<lparr>fw_phase := Ha_Loop, fw_ha := ha, fw_world := k_sleep (pl_kn P) w2\<rparr> = s\<lparr>fw_ha := ha, fw_world := k_sleep (pl_kn P) w2\<rparr>"
    using assms(18) by (cases s) simp
  then have "fw_step P d fuel outside s (s\<lparr>fw_ha := ha, fw_world := k_sleep (pl_kn P) w2\<rparr>)"
    using fw_step.ha_turn [OF assms(18,19)] by simp
  then have "(fw_step P d fuel outside)\<^sup>*\<^sup>* s0 s2" using assms(16,20) by simp
  from io_turn_connected [OF assms(1) fw_reachable_inv [OF assms(1,15) this] _ assms(22-24)] out assms(21)
  show ?thesis using relay_pins_command [OF assms(8,9), of "om_state (ht_outputs (fw_ha s))" on] by simp
qed

text \<open>The delivery of \<open>ON\<close> for relay 2 and a run of the demonstration platform that starts with it in the queue.\<close>

definition demo_on :: mqtt_publish_evt where
  "demo_on = \<lparr>pe_topic = command_topik_text (hex_text (replicate 12 (CHR 0xA5))) component_switch 2, pe_qos = 2,
     pe_retain = False, pe_payload_len = 2, pe_message_id = 9\<rparr>"

definition demo_delivered :: demo_world where
  "demo_delivered = snd (mqtt_evt_handler (pl_mc demo_platform) demo_msgq demo_zbus demo_ha_kernel (MQTT_EVT_PUBLISH demo_on)
     (mqtt_conn_stat_init, demo_init\<lparr>dw_payload := ''ON'', dw_mqtt := demo_mqtt_up\<rparr>))"

lemma demo_mc:
  "reads_keep_queues (pl_mc demo_platform) demo_queues" "replies_keep_queues (pl_mc demo_platform) demo_queues"
  "payload_lawful (pl_mc demo_platform) dw_payload" "payload_arrived (pl_mc demo_platform) dw_payload w"
  using demo_payload_lawful
  by (simp_all add: demo_platform_def payload_lawful_def reads_keep_queues_def replies_keep_queues_def payload_arrived_def
      demo_mqtt_def Let_def)

lemma demo_delivered_queue: "\<exists>m. dw_rx demo_delivered = [m]" and demo_delivered_mqtt: "dw_mqtt demo_delivered = demo_mqtt_up"
  and demo_delivered_pins: "dw_pins demo_delivered = [False, False, False]"
proof -
  let ?w = "demo_init\<lparr>dw_payload := ''ON'', dw_mqtt := demo_mqtt_up\<rparr>"
  obtain st' where h: "mqtt_evt_handler (pl_mc demo_platform) demo_msgq demo_zbus demo_ha_kernel (MQTT_EVT_PUBLISH demo_on)
      (mqtt_conn_stat_init, ?w) = (st', demo_delivered)"
    by (metis demo_delivered_def prod.collapse)
  show "\<exists>m. dw_rx demo_delivered = [m]"
    using publication_rx [OF demo_msgq_rx_lawful demo_mc, of demo_on ?w demo_zbus demo_ha_kernel mqtt_conn_stat_init st' demo_delivered] h
    by (simp add: demo_on_def demo_init_def MSGQ_LEN_def)
  have "handler_keeps (pl_mc demo_platform) demo_msgq (demo_zbus\<lparr>zbus_pub_mqtt := \<lambda>w m. (0, w)\<rparr>) (\<lambda>w. (dw_pins w, dw_mqtt w))"
    by (auto simp: handler_keeps_def reads_keep_def demo_platform_def demo_mqtt_def demo_msgq_def Let_def)
  from evt_publish_keeps [OF this, of demo_on ?w] h
  show "dw_mqtt demo_delivered = demo_mqtt_up" "dw_pins demo_delivered = [False, False, False]"
    by (simp_all add: mqtt_evt_handler_def demo_init_def)
qed

lemma demo_boot_delivered:
  obtains s0 where "fw_boot demo_platform mqtt_settings_zero demo_delivered = Some s0"
    and "fw_phase s0 = Ha_Init" and "fw_ha s0 = ha_task_init"
    and "dw_rx (fw_world s0) = dw_rx demo_delivered" and "dw_mqtt (fw_world s0) = demo_mqtt_up"
proof -
  obtain i0 w1 where i0: "io_task_start demo_sys demo_gpio demo_delivered = Some (i0, w1)"
    and w1: "dw_rx w1 = dw_rx demo_delivered" "dw_mqtt w1 = demo_mqtt_up"
    by (auto simp: io_task_start_def demo_gpio_def Let_def write_relays_once_def demo_delivered_mqtt demo_delivered_pins)
  obtain auth wi where a: "authentication_init demo_sys w1 \<lparr>as_users = web_users_zero, as_sessions = []\<rparr> = (auth, wi)"
    by fastforce
  have sv: "\<forall>w k bs. (dw_rx (snd (settings_save_one demo_sys w k bs)), dw_mqtt (snd (settings_save_one demo_sys w k bs))) =
      (dw_rx w, dw_mqtt w)" by (simp add: demo_sys_def demo_save_def)
  have "(dw_rx wi, dw_mqtt wi) = (dw_rx w1, dw_mqtt w1)"
    using authentication_init_created [where created = "\<lambda>w. (dw_rx w, dw_mqtt w)", OF sv] a by (metis snd_conv)
  have "pl_gp demo_platform = demo_gpio" "pl_sys demo_platform = demo_sys" by (simp_all add: demo_platform_def)
  with w1 i0 a \<open>(dw_rx wi, dw_mqtt wi) = (dw_rx w1, dw_mqtt w1)\<close> show thesis
    by (intro that) (simp add: fw_boot_def, simp_all)
qed

theorem command_reaches_relay_witness:
  "\<exists>s0 s s1 i w3. fw_boot demo_platform mqtt_settings_zero demo_delivered = Some s0 \<and>
     (fw_step demo_platform demo_safe 0 demo_outside)\<^sup>*\<^sup>* s0 s \<and> fw_step demo_platform demo_safe 0 demo_outside s s1 \<and>
     io_task_body demo_zbus demo_gpio demo_safe (fw_io s1, fw_world s1) = (i, w3) \<and>
     map (demo_pin w3) [0, 1, 2] = [False, True, False]"
proof -
  let ?P = demo_platform and ?step = "fw_step demo_platform demo_safe 0 demo_outside"
  have sel: "pl_gp ?P = demo_gpio" "pl_zb ?P = demo_zbus" "pl_mq ?P = demo_msgq" "pl_kn ?P = demo_ha_kernel" "pl_sys ?P = demo_sys"
    by (simp_all add: demo_platform_def)
  have keep: "k_sleep demo_ha_kernel w = w" "zbus_read_mqtt demo_zbus w = (0, dw_mqtt w)" for w
    by (simp_all add: demo_ha_kernel_def demo_kernel_def demo_zbus_def)
  have tx: "tx_put_keeps demo_msgq (\<lambda>w. (dw_rx w, dw_mqtt w))" by (simp add: tx_put_keeps_def demo_msgq_def)
  obtain s0 where b: "fw_boot ?P mqtt_settings_zero demo_delivered = Some s0" and
    s0: "fw_phase s0 = Ha_Init" "fw_ha s0 = ha_task_init" "dw_rx (fw_world s0) = dw_rx demo_delivered" "dw_mqtt (fw_world s0) = demo_mqtt_up"
    by (rule demo_boot_delivered)
  obtain rc hs where hs: "ha_mqtt_init demo_ha_kernel (fw_world s0) (fw_helpers s0) = (rc, hs)" by fastforce
  let ?a = "s0\<lparr>fw_phase := Ha_Wait, fw_helpers := hs\<rparr>"
  have st1: "?step s0 ?a" using fw_step.ha_init [of s0 ?P rc hs demo_safe 0 demo_outside] s0(1) hs by (simp add: sel)
  obtain up ha w2 where p: "ha_poll demo_msgq demo_zbus demo_ha_kernel hs (ha_task_init, fw_world s0) = (up, ha, w2)"
    by (metis prod_cases3)
  have "up" and oz: "om_state (ht_outputs ha) = 0"
    using p s0(4) by (auto simp: ha_poll_def keep demo_mqtt_up_def ha_task_init_def Let_def split: prod.splits if_splits)
  have "(dw_rx w2, dw_mqtt w2) = (dw_rx (fw_world s0), dw_mqtt (fw_world s0))"
    using p register_loop_keeps [OF tx, of demo_ha_kernel demo_zbus hs ha_devices]
    by (auto simp: ha_poll_def keep Let_def case_prod_beta split: if_splits)
  then have w2: "dw_rx w2 = dw_rx demo_delivered" "dw_mqtt w2 = demo_mqtt_up" using s0 by simp_all
  let ?s = "?a\<lparr>fw_phase := Ha_Loop, fw_ha := ha, fw_world := w2\<rparr>"
  have st2: "?step ?a ?s" using fw_step.ha_poll [of ?a ?P up ha w2 demo_safe 0 demo_outside] p s0(2) \<open>up\<close> by (simp add: sel)
  have r: "?step\<^sup>*\<^sup>* s0 ?s" using st1 st2 by (meson converse_rtranclp_into_rtranclp rtranclp.rtrancl_refl)
  obtain up3 ha3 w3 where t: "ha_turn demo_msgq demo_zbus demo_ha_kernel hs (ha, w2) = (up3, ha3, w3)" by (metis prod_cases3)
  have "up3" using t w2(2) by (auto simp: ha_turn_def keep demo_mqtt_up_def Let_def split: if_splits)
  have "tx_put_keeps demo_msgq dw_mqtt" "outputs_keep demo_zbus dw_mqtt" "\<forall>w. dw_mqtt (snd (snd (rx_get demo_msgq w))) = dw_mqtt w"
    by (simp_all add: tx_put_keeps_def outputs_keep_def demo_msgq_def demo_zbus_def split: list.split)
  note k = ha_report_keeps [OF this(1)] ha_command_keeps [OF this(2,3)]
  have "dw_mqtt (snd (snd (ha_turn demo_msgq demo_zbus demo_ha_kernel hs (ha, w2)))) = dw_mqtt w2"
    by (simp add: ha_turn_def Let_def k)
  with t w2(2) have w3: "dw_mqtt w3 = demo_mqtt_up" by simp
  let ?s1 = "?s\<lparr>fw_ha := ha3, fw_world := w3\<rparr>"
  have "?s1 = ?s\<lparr>fw_phase := Ha_Loop, fw_ha := ha3, fw_world := k_sleep (pl_kn ?P) w3\<rparr>" by (simp add: sel keep)
  then have st3: "?step ?s ?s1"
    using fw_step.ha_turn [of ?s ?P up3 ha3 w3 demo_safe 0 demo_outside] t \<open>up3\<close> by (simp add: sel)
  obtain i w4 where io: "io_task_body (pl_zb ?P) (pl_gp ?P) demo_safe (fw_io ?s1, fw_world ?s1) = (i, w4)" by fastforce
  obtain st' where h: "mqtt_evt_handler (pl_mc ?P) (pl_mq ?P) (pl_zb ?P) (pl_kn ?P) (MQTT_EVT_PUBLISH demo_on)
      (mqtt_conn_stat_init, demo_init\<lparr>dw_payload := ''ON'', dw_mqtt := demo_mqtt_up\<rparr>) = (st', demo_delivered)"
    unfolding sel by (metis demo_delivered_def prod.collapse)
  have pub: "\<forall>w m. fst (zbus_pub_outputs (pl_zb ?P) w m) = 0" by (simp add: sel demo_zbus_def)
  obtain m where m: "dw_rx demo_delivered = [m]" using demo_delivered_queue by blast
  have "map (demo_pin w4) [0, 1, 2] = (relay_pins (om_state (ht_outputs (fw_ha ?s))))[2 - 1 := True]"
  proof (rule command_reaches_relay [OF demo_platform_lawful demo_outputs_lawful pub demo_mc _ _ _ _ _ _ h b r _ _ _ _ _ _ _ io,
        where n = 2 and ms = "[]" and ha = ha3 and ?w2.0 = w3 and q = demo_mqtt_up])
    show "(?step)\<^sup>*\<^sup>* (?s\<lparr>fw_ha := ha3, fw_world := k_sleep (pl_kn ?P) w3\<rparr>) ?s1" by (simp add: sel keep)
  qed (use m w2 w3 t \<open>up3\<close> in \<open>simp_all add: sel keep demo_on_def demo_init_def MSGQ_LEN_def demo_mqtt_up_def\<close>)
  moreover have "\<dots> = [False, True, False]" using oz by (simp add: relay_pins_def)
  ultimately have "map (demo_pin w4) [0, 1, 2] = [False, True, False]" by simp
  then show ?thesis
    using b r st3 io by (intro exI [of _ s0] exI [of _ ?s] exI [of _ ?s1] exI [of _ i] exI [of _ w4]) (simp add: sel)
qed

section \<open>Bodies in pieces\<close>

lemma body_in_pieces:
  assumes "post_inv 256 pc" and "post_pending pc = []" and "length (concat ds @ d) \<le> 256"
  shows "fst (relays_step sys zb resp HTTP_SERVER_DATA_FINAL d (calls (relays_step sys zb resp) (pieces ds) (c1, pc))) =
      fst (relays_step sys zb resp HTTP_SERVER_DATA_FINAL (concat ds @ d) (c1, pc))"
    and "fst (snd (relays_step sys zb resp HTTP_SERVER_DATA_FINAL d (calls (relays_step sys zb resp) (pieces ds) (c1, pc)))) =
      fst (snd (relays_step sys zb resp HTTP_SERVER_DATA_FINAL (concat ds @ d) (c1, pc)))"
    and "fst (def_relay_step sys resp HTTP_SERVER_DATA_FINAL d (calls (def_relay_step sys resp) (pieces ds) (c2, pc))) =
      fst (def_relay_step sys resp HTTP_SERVER_DATA_FINAL (concat ds @ d) (c2, pc))"
    and "fst (snd (def_relay_step sys resp HTTP_SERVER_DATA_FINAL d (calls (def_relay_step sys resp) (pieces ds) (c2, pc)))) =
      fst (snd (def_relay_step sys resp HTTP_SERVER_DATA_FINAL (concat ds @ d) (c2, pc)))"
    and "fst (mqtt_step sys resp HTTP_SERVER_DATA_FINAL d (calls (mqtt_step sys resp) (pieces ds) (c3, pc))) =
      fst (mqtt_step sys resp HTTP_SERVER_DATA_FINAL (concat ds @ d) (c3, pc))"
    and "fst (snd (mqtt_step sys resp HTTP_SERVER_DATA_FINAL d (calls (mqtt_step sys resp) (pieces ds) (c3, pc)))) =
      fst (snd (mqtt_step sys resp HTTP_SERVER_DATA_FINAL (concat ds @ d) (c3, pc)))"
  using relays.chunked_body [of "(c1, pc)" ds d sys zb resp] relays.chunked_body [of "(c1, pc)" "[]" "concat ds @ d" sys zb resp]
    def_relay.chunked_body [of "(c2, pc)" ds d sys resp] def_relay.chunked_body [of "(c2, pc)" "[]" "concat ds @ d" sys resp]
    mqtt_set.chunked_body [of "(c3, pc)" ds d sys resp] mqtt_set.chunked_body [of "(c3, pc)" "[]" "concat ds @ d" sys resp] assms
  by (simp_all add: pieces_def)

text \<open>
  C22. How a body arrives makes no difference: for the relays, the safe state and the broker
  settings, a body of up to 256 bytes delivered in any pieces has the same effect on
  everything the handler works on, and gets the same answer, as one delivered at once.
\<close>

theorem bodies_in_pieces_equivalent:
  assumes "post_inv 256 pc" and "post_pending pc = []" and "length (concat ds @ d) \<le> 256"
  shows "(let step = relays_step sys zb resp; (a, (c, pc')) = step HTTP_SERVER_DATA_FINAL d (calls step (pieces ds) (c1, pc))
          in \<exists>pc''. step HTTP_SERVER_DATA_FINAL (concat ds @ d) (c1, pc) = (a, (c, pc''))) \<and>
    (let step = def_relay_step sys resp; (a, (c, pc')) = step HTTP_SERVER_DATA_FINAL d (calls step (pieces ds) (c2, pc))
     in \<exists>pc''. step HTTP_SERVER_DATA_FINAL (concat ds @ d) (c2, pc) = (a, (c, pc''))) \<and>
    (let step = mqtt_step sys resp; (a, (c, pc')) = step HTTP_SERVER_DATA_FINAL d (calls step (pieces ds) (c3, pc))
     in \<exists>pc''. step HTTP_SERVER_DATA_FINAL (concat ds @ d) (c3, pc) = (a, (c, pc'')))"
proof -
  have fold: "\<exists>pc''. y = (a, (c, pc''))" if "fst y = a" "fst (snd y) = c" for y :: "'u \<times> 'v \<times> 'w" and a c
    using that by (metis prod.collapse)
  show ?thesis
    unfolding Let_def case_prod_beta by (intro conjI fold; rule body_in_pieces [OF assms, symmetric])
qed

theorem bodies_in_pieces_equivalent_witness:
  "let step = relays_step demo_sys demo_zbus demo_resp; (a, (c, pc')) = step HTTP_SERVER_DATA_FINAL ''1'' (calls step (pieces [''1'', ''0'']) (rest_init demo_init))
   in \<exists>pc''. step HTTP_SERVER_DATA_FINAL ''101'' (rest_init demo_init) = (a, (c, pc''))"
proof -
  have p: "post_inv 256 (post_ctx_init 256)" "post_pending (post_ctx_init 256) = []" by simp_all
  have "length (concat [''1'', ''0''] @ ''1'') \<le> 256" by simp
  from conjunct1 [OF bodies_in_pieces_equivalent [OF p this, of demo_sys demo_zbus demo_resp "(demo_init, zeros 256)"]]
  show ?thesis by (simp add: rest_init_def)
qed

end
